(* ===== verification/Go_Errors.thy ===== *)
theory Go_Errors
  imports Main
begin

text \<open>
  The \<^verbatim>\<open>errors\<close> package: the codes a transaction check reports with their numbers and
  texts (\<^verbatim>\<open>errcode.go\<close>), and the error values that travel through the program.
  \<open>NewDetailErr\<close> (\<^verbatim>\<open>errors.go\<close>) wraps a foreign error in a \<open>dnaError\<close>, whose root and code
  are set once and whose message grows at each wrapping; the recorded call stack is
  diagnostic output and is left out.
\<close>

section \<open>Error codes\<close>

datatype ErrCode =
    ErrNoCode | ErrNoError | ErrUnknown | ErrDuplicatedTx | ErrInvalidInput | ErrInvalidOutput
  | ErrAssetPrecision | ErrTransactionBalance | ErrAttributeProgram | ErrTransactionContracts
  | ErrTransactionPayload | ErrDoubleSpend | ErrTxHashDuplicate | ErrStateUpdaterVaild
  | ErrSummaryAsset | ErrXmitFail | ErrTransactionSize | ErrUnknownReferedTxn
  | ErrInvalidReferedTxn | ErrIneffectiveCoinbase

fun ErrCode_val :: "ErrCode \<Rightarrow> int" where
  "ErrCode_val ErrNoCode = -2"
| "ErrCode_val ErrNoError = 0"
| "ErrCode_val ErrUnknown = -1"
| "ErrCode_val ErrDuplicatedTx = 1"
| "ErrCode_val ErrInvalidInput = 45003"
| "ErrCode_val ErrInvalidOutput = 45004"
| "ErrCode_val ErrAssetPrecision = 45005"
| "ErrCode_val ErrTransactionBalance = 45006"
| "ErrCode_val ErrAttributeProgram = 45007"
| "ErrCode_val ErrTransactionContracts = 45008"
| "ErrCode_val ErrTransactionPayload = 45009"
| "ErrCode_val ErrDoubleSpend = 45010"
| "ErrCode_val ErrTxHashDuplicate = 45011"
| "ErrCode_val ErrStateUpdaterVaild = 45012"
| "ErrCode_val ErrSummaryAsset = 45013"
| "ErrCode_val ErrXmitFail = 45014"
| "ErrCode_val ErrTransactionSize = 45015"
| "ErrCode_val ErrUnknownReferedTxn = 45016"
| "ErrCode_val ErrInvalidReferedTxn = 45017"
| "ErrCode_val ErrIneffectiveCoinbase = 45018"

fun ErrCode_Error :: "ErrCode \<Rightarrow> string" where
  "ErrCode_Error ErrNoCode = ''no error code''"
| "ErrCode_Error ErrNoError = ''not an error''"
| "ErrCode_Error ErrUnknown = ''unknown error''"
| "ErrCode_Error ErrDuplicatedTx = ''duplicated transaction detected''"
| "ErrCode_Error ErrInvalidInput = ''invalid transaction input detected''"
| "ErrCode_Error ErrInvalidOutput = ''invalid transaction output detected''"
| "ErrCode_Error ErrAssetPrecision = ''invalid asset precision''"
| "ErrCode_Error ErrTransactionBalance = ''transaction balance unmatched''"
| "ErrCode_Error ErrAttributeProgram = ''attribute program error''"
| "ErrCode_Error ErrTransactionContracts = ''invalid transaction contract''"
| "ErrCode_Error ErrTransactionPayload = ''invalid transaction payload''"
| "ErrCode_Error ErrDoubleSpend = ''double spent transaction detected''"
| "ErrCode_Error ErrTxHashDuplicate = ''duplicated transaction hash detected''"
| "ErrCode_Error ErrStateUpdaterVaild = ''invalid state updater''"
| "ErrCode_Error ErrSummaryAsset = ''invalid summary asset''"
| "ErrCode_Error ErrXmitFail = ''transmit error''"
| "ErrCode_Error ErrTransactionSize = ''invalid transaction size''"
| "ErrCode_Error ErrUnknownReferedTxn = ''unknown referenced transaction''"
| "ErrCode_Error ErrInvalidReferedTxn = ''invalid referenced transaction''"
| "ErrCode_Error ErrIneffectiveCoinbase = ''ineffective coinbase''"

lemma ErrCode_val_inj: "ErrCode_val c = ErrCode_val d \<Longrightarrow> c = d"
  by (cases c; cases d) simp_all

section \<open>Error values\<close>

datatype goerr =
    IoEOF
  | IoUnexpectedEOF
  | ErrRange
  | ErrEof
  | ErrNew string
  | DnaError (de_root: goerr) (de_msg: string) (de_code: ErrCode)

fun err_Error :: "goerr \<Rightarrow> string" where
  "err_Error IoEOF = ''EOF''"
| "err_Error IoUnexpectedEOF = ''unexpected EOF''"
| "err_Error ErrRange = ''value out of range''"
| "err_Error ErrEof = ''got EOF, can not get the next byte''"
| "err_Error (ErrNew s) = s"
| "err_Error (DnaError r m c) = m"

fun NewDetailErr :: "goerr option \<Rightarrow> ErrCode \<Rightarrow> string \<Rightarrow> goerr option" where
  "NewDetailErr None c msg = None"
| "NewDetailErr (Some e) c msg =
     (let (r, m, c') = (case e of DnaError r m c' \<Rightarrow> (r, m, c') | _ \<Rightarrow> (e, err_Error e, c))
      in Some (DnaError r (if msg \<noteq> [] then msg @ '': '' @ m else m) c'))"

fun RootErr :: "goerr \<Rightarrow> goerr" where
  "RootErr (DnaError r m c) = r"
| "RootErr e = e"

fun ErrerCode :: "goerr \<Rightarrow> ErrCode" where
  "ErrerCode (DnaError r m c) = c"
| "ErrerCode e = ErrUnknown"

lemma NewDetailErr_None_iff [simp]: "NewDetailErr e c msg = None \<longleftrightarrow> e = None"
  by (cases e) (auto simp: Let_def split: prod.splits)

lemma NewDetailErr_root: "NewDetailErr (Some e) c msg = Some e' \<Longrightarrow> RootErr e' = RootErr e"
  by (cases e) auto

lemma NewDetailErr_code:
  "NewDetailErr (Some e) c msg = Some e' \<Longrightarrow>
     ErrerCode e' = (case e of DnaError r m c' \<Rightarrow> c' | _ \<Rightarrow> c)"
  by (cases e) auto

text \<open>\<^verbatim>\<open>return NewDetailErr(err, ErrNoCode, msg)\<close> on an error that is not nil.\<close>

definition Detail :: "string \<Rightarrow> goerr \<Rightarrow> goerr" where
  "Detail msg e = (case NewDetailErr (Some e) ErrNoCode msg of Some e' \<Rightarrow> e' | None \<Rightarrow> e)"

end
