(* ===== verification/Go_Prelude.thy ===== *)
theory Go_Prelude
  imports "HOL-Library.Word" "HOL-Library.Monad_Syntax" Go_Errors
begin

text \<open>
  What every component theory shares: Go's machine integers as words, the
  little-endian and big-endian byte codings of \<^verbatim>\<open>encoding/binary\<close> and
  \<^verbatim>\<open>math/big\<close>, in-memory readers (\<^verbatim>\<open>bytes.Buffer\<close> and \<^verbatim>\<open>bytes.Reader\<close>), the
  combinators the deserializers are written with, the interface \<open>codec\<close> they
  implement, and the generic lemmas on all of these.

  Conventions of the development:
  \<^item> a Go slice or string is a list; a slice whose \<open>nil\<close>-ness the code tests is an
    option of a list;
  \<^item> a run-time panic (index out of range, nil dereference, slice bounds) is
    \<open>None\<close> in a result of type \<open>'a go\<close>, threaded with the option monad;
  \<^item> an \<^verbatim>\<open>error\<close> result is a \<open>goerr option\<close>, \<open>None\<close> being Go's \<^verbatim>\<open>nil\<close>;
  \<^item> \<^verbatim>\<open>make\<close> panics beyond the runtime's largest allocation (\<open>maxAlloc\<close>); running out
    of memory below that bound is not modelled.
\<close>

section \<open>Machine integers\<close>

type_synonym byte = "8 word"
type_synonym u16 = "16 word"
type_synonym u32 = "32 word"
type_synonym u64 = "64 word"

text \<open>\<^verbatim>\<open>int64\<close> and \<^verbatim>\<open>int\<close> (64 bits on the supported platforms) are words read with \<open>sint\<close>.\<close>

type_synonym i64 = "64 word"

type_synonym 'a go = "'a option"

abbreviation (input) panic :: "'a go" where
  "panic \<equiv> None"

named_theorems le_simps \<open>little-endian coding of words\<close>
named_theorems codec_defs \<open>serializers and deserializers, unfolded\<close>
named_theorems codec_rt \<open>round trips of the field codecs\<close>

text \<open>Conversions between widths that lose nothing.\<close>

lemma unat_ucast_small:
  "unat (w :: 'a::len word) < 2 ^ LENGTH('b::len) \<Longrightarrow> unat (ucast w :: 'b word) = unat w"
  by (simp add: unsigned_ucast_eq take_bit_nat_eq_self_iff)

lemma ucast_ucast_small:
  assumes "unat (w :: 'a::len word) < 2 ^ LENGTH('b::len)"
  shows "ucast (ucast w :: 'b word) = w"
proof -
  have "ucast (ucast w :: 'b word) = (word_of_nat (unat (ucast w :: 'b word)) :: 'a word)"
    by (rule of_nat_unat [symmetric])
  then show ?thesis using unat_ucast_small [OF assms] by simp
qed

lemma unat_of_nat_small: "n < 2 ^ LENGTH('a) \<Longrightarrow> unat (word_of_nat n :: 'a::len word) = n"
  by (simp add: unat_of_nat take_bit_nat_eq_self_iff)

lemma list_all_True [simp]: "list_all (\<lambda>x. True) xs"
  by (simp add: list_all_iff)

section \<open>Little-endian byte strings\<close>

primrec le_bytes :: "nat \<Rightarrow> nat \<Rightarrow> byte list" where
  "le_bytes 0 x = []"
| "le_bytes (Suc n) x = word_of_nat (x mod 256) # le_bytes n (x div 256)"

primrec le_val :: "byte list \<Rightarrow> nat" where
  "le_val [] = 0"
| "le_val (b # bs) = unat b + 256 * le_val bs"

lemma length_le_bytes [simp]: "length (le_bytes n x) = n"
  by (induction n arbitrary: x) auto

lemma le_bytes_eq_Nil [simp]: "le_bytes n x = [] \<longleftrightarrow> n = 0"
  by (cases n) auto

lemma unat_byte_mod: "unat (word_of_nat (x mod 256) :: byte) = x mod 256"
  by (simp add: unat_of_nat take_bit_eq_mod)

lemma le_val_le_bytes: "le_val (le_bytes n x) = x mod 256 ^ n"
proof (induction n arbitrary: x)
  case 0
  then show ?case by simp
next
  case (Suc n)
  have "x mod 256 ^ Suc n = x mod 256 + 256 * (x div 256 mod 256 ^ n)"
    using mod_mult2_eq [of x 256 "256 ^ n"] by simp
  then show ?case by (simp add: Suc unat_byte_mod)
qed

lemma le_val_bound: "le_val bs < 256 ^ length bs"
proof (induction bs)
  case Nil
  then show ?case by simp
next
  case (Cons b bs)
  have "unat b < 256" using unsigned_less [of b] by simp
  with Cons show ?case by simp
qed

lemma le_bytes_le_val: "le_bytes (length bs) (le_val bs) = bs"
proof (induction bs)
  case Nil
  then show ?case by simp
next
  case (Cons b bs)
  have "unat b < 256" using unsigned_less [of b] by simp
  then have "(unat b + 256 * le_val bs) mod 256 = unat b"
    and "(unat b + 256 * le_val bs) div 256 = le_val bs" by simp_all
  with Cons show ?case by simp
qed

lemma le_val_append: "le_val (xs @ ys) = le_val xs + 256 ^ length xs * le_val ys"
  by (induction xs) (auto simp: algebra_simps)

lemma le_val_zeros [simp]: "le_val (replicate n 0) = 0"
  by (induction n) auto

lemma le_val_inj: "length xs = length ys \<Longrightarrow> le_val xs = le_val ys \<Longrightarrow> xs = ys"
  by (metis le_bytes_le_val)

text \<open>The \<^verbatim>\<open>binary.LittleEndian\<close> codings of a word whose width is a whole number of bytes.\<close>

definition put_le :: "nat \<Rightarrow> 'a::len word \<Rightarrow> byte list" where
  "put_le n w = le_bytes n (unat w)"

definition get_le :: "byte list \<Rightarrow> 'a::len word" where
  "get_le bs = word_of_nat (le_val bs)"

text \<open>The same on words, for evaluation.\<close>

lemma word_of_unat: "word_of_nat (unat b) = (ucast b :: 'b::len word)"
  by (rule bit_word_eqI) (simp add: bit_simps)

lemma get_le_code [code]: "get_le bs = foldr (\<lambda>b w. ucast b + 256 * w) bs 0"
  by (induction bs) (simp_all add: get_le_def word_of_unat)

lemma put_le_code [code]:
  "put_le 0 w = []" "put_le (Suc n) w = ucast w # put_le n (drop_bit 8 w)"
proof -
  have "unat w mod 256 = take_bit 8 (unat w)" by (simp add: take_bit_eq_mod)
  then have "(word_of_nat (unat w mod 256) :: byte) = word_of_nat (unat w)"
    by (auto intro: bit_word_eqI simp: bit_simps)
  moreover have "unat (drop_bit 8 w) = unat w div 256" by (simp only: unat_drop_bit_eq) (simp add: drop_bit_eq_div)
  ultimately show "put_le (Suc n) w = ucast w # put_le n (drop_bit 8 w)"
    by (simp add: put_le_def word_of_unat)
qed (simp add: put_le_def)

lemma length_put_le [simp]: "length (put_le n w) = n"
  by (simp add: put_le_def)

lemma put_le_eq_Nil [simp]: "put_le n w = [] \<longleftrightarrow> n = 0"
  by (simp add: put_le_def)

lemma pow256: "(256::nat) ^ n = 2 ^ (8 * n)"
  by (simp add: power_mult)

lemma le_val_put_le:
  fixes w :: "'a::len word"
  assumes "LENGTH('a) \<le> 8 * n"
  shows "le_val (put_le n w) = unat w"
proof -
  have "unat w < 2 ^ LENGTH('a)" by simp
  also have "\<dots> \<le> 256 ^ n"
    using assms by (simp add: pow256)
  finally show ?thesis by (simp add: put_le_def le_val_le_bytes)
qed

lemma get_put_le [le_simps]:
  fixes w :: "'a::len word"
  assumes "LENGTH('a) \<le> 8 * n"
  shows "get_le (put_le n w) = w"
  using le_val_put_le [OF assms] by (simp add: get_le_def)

lemma put_get_le:
  assumes "8 * length bs \<le> LENGTH('a::len)"
  shows "put_le (length bs) (get_le bs :: 'a word) = bs"
proof -
  have "le_val bs < 2 ^ LENGTH('a)"
  proof -
    have "le_val bs < 2 ^ (8 * length bs)" using le_val_bound [of bs] by (simp add: pow256)
    also have "\<dots> \<le> 2 ^ LENGTH('a)" using assms by simp
    finally show ?thesis .
  qed
  then have "unat (word_of_nat (le_val bs) :: 'a word) = le_val bs"
    by (simp add: unat_of_nat take_bit_eq_mod)
  then show ?thesis by (simp add: put_le_def get_le_def le_bytes_le_val)
qed

lemma put_le_inj:
  fixes v w :: "'a::len word"
  assumes "LENGTH('a) \<le> 8 * n"
  shows "put_le n v = put_le n w \<longleftrightarrow> v = w"
  using get_put_le [OF assms] by metis

text \<open>The widths the program uses, as unconditional rewrite rules.\<close>

lemma get_put_le8 [simp]: "get_le (put_le 1 (w :: byte)) = w"
  by (rule get_put_le) simp

lemma get_put_le8' [simp]: "get_le (put_le (Suc 0) (w :: byte)) = w"
  using get_put_le8 by simp

lemma get_put_le16 [simp]: "get_le (put_le 2 (w :: u16)) = w"
  by (rule get_put_le) simp

lemma get_put_le32 [simp]: "get_le (put_le 4 (w :: u32)) = w"
  by (rule get_put_le) simp

lemma get_put_le64 [simp]: "get_le (put_le 8 (w :: u64)) = w"
  by (rule get_put_le) simp

lemma get_put_le160 [simp]: "get_le (put_le 20 (w :: 160 word)) = w"
  by (rule get_put_le) simp

lemma get_put_le256 [simp]: "get_le (put_le 32 (w :: 256 word)) = w"
  by (rule get_put_le) simp

section \<open>Big-endian numbers: \<^verbatim>\<open>big.Int.SetBytes\<close> and \<^verbatim>\<open>big.Int.Bytes\<close>\<close>

definition be_val :: "byte list \<Rightarrow> nat" where
  "be_val bs = le_val (rev bs)"

text \<open>The number of bytes of the minimal representation, \<^verbatim>\<open>len(n.Bytes())\<close>.\<close>

fun num_bytes :: "nat \<Rightarrow> nat" where
  "num_bytes n = (if n = 0 then 0 else Suc (num_bytes (n div 256)))"

declare num_bytes.simps [simp del]

definition big_Bytes :: "int \<Rightarrow> byte list" where
  "big_Bytes i = rev (le_bytes (num_bytes (nat \<bar>i\<bar>)) (nat \<bar>i\<bar>))"

lemma num_bytes_0 [simp]: "num_bytes 0 = 0"
  by (simp add: num_bytes.simps)

lemma num_bytes_Suc: "0 < n \<Longrightarrow> num_bytes n = Suc (num_bytes (n div 256))"
  by (subst num_bytes.simps) simp

lemma num_bytes_upper: "n < 256 ^ num_bytes n"
proof (induction n rule: num_bytes.induct)
  case (1 n)
  show ?case
  proof (cases "n = 0")
    case True
    then show ?thesis by simp
  next
    case False
    then have "n div 256 < 256 ^ num_bytes (n div 256)" using 1 by blast
    then have "n < 256 * 256 ^ num_bytes (n div 256)"
      by (simp add: div_less_iff_less_mult mult.commute)
    then show ?thesis using False by (simp add: num_bytes_Suc)
  qed
qed

lemma num_bytes_lower: "0 < n \<Longrightarrow> 256 ^ (num_bytes n - 1) \<le> n"
proof (induction n rule: num_bytes.induct)
  case (1 n)
  show ?case
  proof (cases "n div 256 = 0")
    case True
    then show ?thesis using 1 by (simp add: num_bytes_Suc)
  next
    case False
    then have ih: "256 ^ (num_bytes (n div 256) - 1) \<le> n div 256" using 1 by simp
    have "num_bytes (n div 256) = Suc (num_bytes (n div 256) - 1)"
      using False by (simp add: num_bytes_Suc)
    then have "256 ^ num_bytes (n div 256) = 256 * 256 ^ (num_bytes (n div 256) - 1)"
      by (metis power_Suc)
    also have "\<dots> \<le> 256 * (n div 256)" using ih by simp
    also have "\<dots> \<le> n" by simp
    finally show ?thesis using 1 by (simp add: num_bytes_Suc)
  qed
qed

lemma num_bytes_unique:
  assumes "256 ^ k \<le> n" and "n < 256 ^ Suc k"
  shows "num_bytes n = Suc k"
proof -
  have n: "0 < n" using assms(1) by (metis gr0I not_le zero_less_numeral zero_less_power)
  have "256 ^ k < (256::nat) ^ num_bytes n"
    using assms(1) num_bytes_upper [of n] by (rule le_less_trans)
  then have "k < num_bytes n" by (simp add: power_less_imp_less_exp)
  moreover have "256 ^ (num_bytes n - 1) < (256::nat) ^ Suc k"
    using num_bytes_lower [OF n] assms(2) by (rule le_less_trans)
  then have "num_bytes n - 1 < Suc k" by (rule power_less_imp_less_exp [rotated]) simp
  ultimately show ?thesis by simp
qed

lemma be_val_big_Bytes: "be_val (big_Bytes i) = nat \<bar>i\<bar>"
  using num_bytes_upper [of "nat \<bar>i\<bar>"] by (simp add: be_val_def big_Bytes_def le_val_le_bytes)

section \<open>In-memory readers\<close>

text \<open>
  Every \<^verbatim>\<open>io.Reader\<close> the modelled code reads from is a \<^verbatim>\<open>bytes.Buffer\<close> or a
  \<^verbatim>\<open>bytes.Reader\<close>. One \<^verbatim>\<open>Read(p)\<close> returns as many bytes as there are, up to
  \<^verbatim>\<open>len(p)\<close>, and an error only when none is left; the two differ in a read of no
  bytes at the end, which a \<^verbatim>\<open>bytes.Reader\<close> answers with EOF. A short read leaves the
  rest of \<open>p\<close> as it was, zero in all the callers: \<open>zpad\<close>.
\<close>

datatype reader_kind = BytesBuffer | BytesReader

datatype reader = Rd (rd_kind: reader_kind) (rd_rest: "byte list")

fun rd_Read :: "nat \<Rightarrow> reader \<Rightarrow> byte list \<times> goerr option \<times> reader" where
  "rd_Read n (Rd k bs) =
     (if bs = [] then
        (if n = 0 \<and> k = BytesBuffer then ([], None, Rd k []) else ([], Some IoEOF, Rd k []))
      else (take n bs, None, Rd k (drop n bs)))"

definition zpad :: "nat \<Rightarrow> byte list \<Rightarrow> byte list" where
  "zpad n bs = take n bs @ replicate (n - length bs) 0"

text \<open>\<^verbatim>\<open>io.ReadFull(r, p)\<close> for a non-empty \<open>p\<close>, which keeps what a failed read wrote.\<close>

fun rd_ReadFull :: "nat \<Rightarrow> reader \<Rightarrow> byte list \<times> goerr option \<times> reader" where
  "rd_ReadFull n (Rd k bs) =
     (if n \<le> length bs then (take n bs, None, Rd k (drop n bs))
      else (zpad n bs, Some (if bs = [] then IoEOF else IoUnexpectedEOF), Rd k []))"

text \<open>
  The condition under which a read of no bytes succeeds: the reader is a buffer or
  something follows.
\<close>

definition roomy :: "reader_kind \<Rightarrow> byte list \<Rightarrow> bool" where
  "roomy k rest \<longleftrightarrow> k = BytesBuffer \<or> rest \<noteq> []"

lemma roomy_append [simp]: "roomy k rest \<Longrightarrow> roomy k (xs @ rest)"
  by (auto simp: roomy_def)

lemma roomy_Buffer [simp]: "roomy BytesBuffer rest"
  by (simp add: roomy_def)

lemma roomy_Cons [simp]: "roomy k (b # rest)"
  by (simp add: roomy_def)

lemma zpad_exact [simp]: "length bs = n \<Longrightarrow> zpad n bs = bs"
  by (simp add: zpad_def)

lemma length_zpad [simp]: "length (zpad n bs) = n"
  by (simp add: zpad_def)

lemma rd_Read_exact:
  "length xs = n \<Longrightarrow> 0 < n \<Longrightarrow> rd_Read n (Rd k (xs @ rest)) = (xs, None, Rd k rest)"
  by auto

lemma rd_Read_roomy:
  "length xs = n \<Longrightarrow> roomy k rest \<Longrightarrow> rd_Read n (Rd k (xs @ rest)) = (xs, None, Rd k rest)"
  by (auto simp: roomy_def)

lemma rd_Read_0 [simp]: "roomy k rest \<Longrightarrow> rd_Read 0 (Rd k rest) = ([], None, Rd k rest)"
  using rd_Read_roomy [of "[]"] by simp

lemma rd_ReadFull_exact:
  "length xs = n \<Longrightarrow> rd_ReadFull n (Rd k (xs @ rest)) = (xs, None, Rd k rest)"
  by simp

lemma rd_Read_nil: "rd_Read n (Rd k []) = ([], e, r) \<Longrightarrow> 0 < n \<Longrightarrow> e = Some IoEOF"
  by (auto split: if_splits)

declare rd_Read.simps [simp del] rd_ReadFull.simps [simp del]


section \<open>Deserializers\<close>

text \<open>
  A deserializer returns the object, which may be partly filled in when there is an
  error, the error and the advanced reader; \<open>None\<close> is a panic. \<open>rd_try\<close> is
  \<^verbatim>\<open>x, err := d(r); if err != nil { return z, err }\<close>; \<open>rd_try_as\<close> also rewrites the error
  on its way out; \<open>rd_ign\<close> drops the error.
\<close>

type_synonym 'a rdr = "reader \<Rightarrow> ('a \<times> goerr option \<times> reader) go"

definition rd_ret :: "'a \<Rightarrow> 'a rdr" where
  "rd_ret x r = Some (x, None, r)"

definition rd_fail :: "'a \<Rightarrow> goerr \<Rightarrow> 'a rdr" where
  "rd_fail z e r = Some (z, Some e, r)"

definition rd_try_as :: "(goerr \<Rightarrow> goerr) \<Rightarrow> 'a rdr \<Rightarrow> 'b \<Rightarrow> ('a \<Rightarrow> 'b rdr) \<Rightarrow> 'b rdr" where
  "rd_try_as w d z f r =
     (case d r of
        None \<Rightarrow> None
      | Some (x, Some e, r') \<Rightarrow> Some (z, Some (w e), r')
      | Some (x, None, r') \<Rightarrow> f x r')"

abbreviation rd_try :: "'a rdr \<Rightarrow> 'b \<Rightarrow> ('a \<Rightarrow> 'b rdr) \<Rightarrow> 'b rdr" where
  "rd_try d z f \<equiv> rd_try_as (\<lambda>e. e) d z f"

definition rd_ign :: "'a rdr \<Rightarrow> ('a \<Rightarrow> 'b rdr) \<Rightarrow> 'b rdr" where
  "rd_ign d f r = (case d r of None \<Rightarrow> None | Some (x, e, r') \<Rightarrow> f x r')"

text \<open>
  A deserializer method fills in its receiver even when it fails, and the caller keeps
  the object: \<open>rd_obj\<close> is \<^verbatim>\<open>err := x.Deserialize(r)\<close> with the continuation choosing, from
  the (partly filled) object, what is returned on error.
\<close>

definition rd_obj :: "(goerr \<Rightarrow> goerr) \<Rightarrow> 'a rdr \<Rightarrow> ('a \<Rightarrow> 'b) \<Rightarrow> ('a \<Rightarrow> 'b rdr) \<Rightarrow> 'b rdr" where
  "rd_obj w d z f r =
     (case d r of
        None \<Rightarrow> None
      | Some (x, Some e, r') \<Rightarrow> Some (z x, Some (w e), r')
      | Some (x, None, r') \<Rightarrow> f x r')"

lemma rd_ret_apply [simp]: "rd_ret x r = Some (x, None, r)"
  by (simp add: rd_ret_def)

lemma rd_fail_apply [simp]: "rd_fail z e r = Some (z, Some e, r)"
  by (simp add: rd_fail_def)

lemma rd_try_ok: "d r = Some (x, None, r') \<Longrightarrow> rd_try_as w d z f r = f x r'"
  by (simp add: rd_try_as_def)

lemma rd_try_err: "d r = Some (x, Some e, r') \<Longrightarrow> rd_try_as w d z f r = Some (z, Some (w e), r')"
  by (simp add: rd_try_as_def)

lemma rd_ign_any: "d r = Some (x, e, r') \<Longrightarrow> rd_ign d f r = f x r'"
  by (simp add: rd_ign_def)

lemma rd_obj_ok: "d r = Some (x, None, r') \<Longrightarrow> rd_obj w d z f r = f x r'"
  by (simp add: rd_obj_def)

lemmas rd_run = rd_try_as_def rd_ign_def rd_obj_def

text \<open>
  The three shapes of the loops that read a counted list: stop at the first error
  keeping what was appended (\<open>read_checked\<close>), stop at the first error in a slice
  allocated in advance (\<open>read_fill\<close>), and ignore errors (\<open>read_unchecked\<close>).
\<close>

primrec read_checked :: "nat \<Rightarrow> 'a rdr \<Rightarrow> 'a list rdr" where
  "read_checked 0 d = rd_ret []"
| "read_checked (Suc n) d =
     rd_try d [] (\<lambda>x. rd_obj (\<lambda>e. e) (read_checked n d) (\<lambda>xs. x # xs) (\<lambda>xs. rd_ret (x # xs)))"

primrec read_fill :: "'a \<Rightarrow> nat \<Rightarrow> 'a rdr \<Rightarrow> 'a list rdr" where
  "read_fill z 0 d = rd_ret []"
| "read_fill z (Suc n) d =
     rd_try d (replicate (Suc n) z)
       (\<lambda>x. rd_obj (\<lambda>e. e) (read_fill z n d) (\<lambda>xs. x # xs) (\<lambda>xs. rd_ret (x # xs)))"

primrec read_unchecked :: "nat \<Rightarrow> 'a rdr \<Rightarrow> 'a list rdr" where
  "read_unchecked 0 d = rd_ret []"
| "read_unchecked (Suc n) d = rd_ign d (\<lambda>x. rd_ign (read_unchecked n d) (\<lambda>xs. rd_ret (x # xs)))"

lemma length_read_unchecked:
  "read_unchecked n d r = Some (xs, e, r') \<Longrightarrow> length xs = n \<and> e = None"
  by (induction n arbitrary: r xs e r')
     (auto simp: rd_ign_def split: option.splits prod.splits)

lemma length_read_fill: "read_fill z n d r = Some (xs, e, r') \<Longrightarrow> length xs = n"
  by (induction n arbitrary: r xs e r')
     (auto simp: rd_try_as_def rd_obj_def split: option.splits prod.splits)

lemma length_read_checked: "read_checked n d r = Some (xs, None, r') \<Longrightarrow> length xs = n"
  by (induction n arbitrary: r xs r')
     (auto simp: rd_try_as_def rd_obj_def split: option.splits prod.splits)

text \<open>
  \<^verbatim>\<open>make([]T, n)\<close>: the Go runtime panics when the slice would exceed its largest
  allocation, 2 to the 48 bytes on the 64-bit platforms.
\<close>

definition maxAlloc :: nat where
  "maxAlloc = 2 ^ 48"

definition go_make :: "nat \<Rightarrow> nat \<Rightarrow> unit go" where
  "go_make sz n = (if sz * n \<le> maxAlloc then Some () else panic)"

section \<open>Codecs\<close>

text \<open>
  The contract between a type's \<^verbatim>\<open>Serialize\<close> and its \<^verbatim>\<open>Deserialize\<close>: reading what was
  written from the front of any stream gives the value, no error, and the stream
  positioned after it. \<open>ok\<close> collects the values the encoding is faithful for. From the
  contract, counted lists of such values are read back by each of the three loops, and
  the encoding is injective.
\<close>

locale codec =
  fixes ser :: "'a \<Rightarrow> byte list"
    and des :: "'a rdr"
    and ok :: "'a \<Rightarrow> bool"
  assumes roundtrip: "ok x \<Longrightarrow> roomy k rest \<Longrightarrow> des (Rd k (ser x @ rest)) = Some (x, None, Rd k rest)"
begin

lemma read_checked_roundtrip:
  "list_all ok xs \<Longrightarrow> roomy k rest \<Longrightarrow>
     read_checked (length xs) des (Rd k (concat (map ser xs) @ rest)) = Some (xs, None, Rd k rest)"
  by (induction xs) (auto simp: roundtrip rd_run)

lemma read_fill_roundtrip:
  "list_all ok xs \<Longrightarrow> roomy k rest \<Longrightarrow>
     read_fill z (length xs) des (Rd k (concat (map ser xs) @ rest)) = Some (xs, None, Rd k rest)"
  by (induction xs) (auto simp: roundtrip rd_run)

lemma read_unchecked_roundtrip:
  "list_all ok xs \<Longrightarrow> roomy k rest \<Longrightarrow>
     read_unchecked (length xs) des (Rd k (concat (map ser xs) @ rest)) = Some (xs, None, Rd k rest)"
  by (induction xs) (auto simp: roundtrip rd_run)

text \<open>No encoding is a proper prefix of another one: the stream can be cut in one way only.\<close>

lemma ser_prefix_free:
  assumes "ok x" and "ok y" and "ser x @ r1 = ser y @ r2"
  shows "x = y \<and> r1 = r2"
proof -
  have "des (Rd BytesBuffer (ser x @ r1)) = Some (x, None, Rd BytesBuffer r1)"
    using assms(1) by (rule roundtrip) simp
  then have "Some (x, None, Rd BytesBuffer r1) = des (Rd BytesBuffer (ser y @ r2))"
    unfolding assms(3) by (rule sym)
  also have "\<dots> = Some (y, None, Rd BytesBuffer r2)"
    using assms(2) by (rule roundtrip) simp
  finally show ?thesis by simp
qed

lemma ser_inj: "ok x \<Longrightarrow> ok y \<Longrightarrow> ser x = ser y \<Longrightarrow> x = y"
  using ser_prefix_free [of x y "[]" "[]"] by simp

end

text \<open>
  A codec of constant width reads its bytes even at the very end of a \<^verbatim>\<open>bytes.Reader\<close>.
\<close>

locale fixed_codec =
  fixes ser :: "'a \<Rightarrow> byte list"
    and des :: "'a rdr"
    and width :: nat
  assumes width: "length (ser x) = width"
    and width_pos: "0 < width"
    and roundtrip: "des (Rd k (ser x @ rest)) = Some (x, None, Rd k rest)"
begin

lemma length_concat_ser: "length (concat (map ser xs)) = width * length xs"
  by (induction xs) (auto simp: width)

end

sublocale fixed_codec \<subseteq> any: codec ser des "\<lambda>x. True"
  by unfold_locales (rule roundtrip)

end
