(* ===== verification/Serialization.thy ===== *)
theory Serialization
  imports Go_Prelude
begin

text \<open>
  \<^verbatim>\<open>common/serialization/serialize.go\<close>: fixed-width and variable-width unsigned integers,
  counted byte strings and booleans, written to a buffer and read back. Writers are
  byte buffers, which never fail, so a writer is the list of the bytes it writes.
  The reading functions are translated with one \<^verbatim>\<open>Read\<close> per call, as in the code: a
  short read is completed with zero bytes and reported as a success.
\<close>

section \<open>Variable-width unsigned integers\<close>

definition WriteVarUint :: "u64 \<Rightarrow> byte list" where
  "WriteVarUint value =
     (if value < 0xFD then [ucast value]
      else if value \<le> 0xFFFF then 0xFD # put_le 2 (ucast value :: u16)
      else if value \<le> 0xFFFFFFFF then 0xFE # put_le 4 (ucast value :: u32)
      else 0xFF # put_le 8 value)"

text \<open>\<^verbatim>\<open>_, err := reader.Read(fb[i:j]); if err != nil {return 0, err}\<close> on a zeroed array.\<close>

definition rd_bytes :: "nat \<Rightarrow> byte list rdr" where
  "rd_bytes n r = (case rd_Read n r of (p, e, r') \<Rightarrow> Some (zpad n p, e, r'))"

definition ReadVarUint :: "u64 \<Rightarrow> u64 rdr" where
  "ReadVarUint maxint0 =
     (let maxint = (if maxint0 = 0 then - 1 else maxint0);
          check = (\<lambda>res. if res > maxint then rd_fail 0 ErrRange else rd_ret res)
      in rd_try (rd_bytes 1) 0 (\<lambda>fb.
           if fb ! 0 = 0xfd then rd_try (rd_bytes 2) 0 (\<lambda>p. check (ucast (get_le p :: u16)))
           else if fb ! 0 = 0xfe then rd_try (rd_bytes 4) 0 (\<lambda>p. check (ucast (get_le p :: u32)))
           else if fb ! 0 = 0xff then rd_try (rd_bytes 8) 0 (\<lambda>p. check (get_le p))
           else check (ucast (fb ! 0))))"

definition GetVarUintSize :: "u64 \<Rightarrow> nat" where
  "GetVarUintSize value =
     (if value < 0xfd then 1 else if value \<le> 0xffff then 3
      else if value \<le> 0xFFFFFFFF then 5 else 9)"

section \<open>Byte strings\<close>

definition byteXReader :: "u64 \<Rightarrow> byte list rdr" where
  "byteXReader x r =
     (case go_make 1 (unat x) of
        None \<Rightarrow> panic
      | Some _ \<Rightarrow>
          (case rd_Read (unat x) r of (p, e, r') \<Rightarrow>
             if p \<noteq> [] then Some (zpad (unat x) p, None, r')
             else Some (replicate (unat x) 0, e, r')))"

definition WriteVarBytes :: "byte list \<Rightarrow> byte list" where
  "WriteVarBytes value = WriteVarUint (word_of_nat (length value)) @ value"

definition ReadVarBytes :: "byte list rdr" where
  "ReadVarBytes = rd_try (ReadVarUint 0) [] (\<lambda>val. rd_try (byteXReader val) [] (\<lambda>str. rd_ret str))"

text \<open>A Go string is its bytes, so the string versions have the same content.\<close>

definition WriteVarString :: "byte list \<Rightarrow> byte list" where
  "WriteVarString value = WriteVarUint (word_of_nat (length value)) @ value"

definition ReadVarString :: "byte list rdr" where
  "ReadVarString = rd_try ReadVarBytes [] (\<lambda>val. rd_ret val)"

definition ReadBytes :: "u64 \<Rightarrow> byte list rdr" where
  "ReadBytes len = rd_try (byteXReader len) [] (\<lambda>str. rd_ret str)"

section \<open>Fixed-width unsigned integers and booleans\<close>

definition read_uint :: "nat \<Rightarrow> ('a::len word) rdr" where
  "read_uint n r =
     (case rd_Read n r of (p, e, r') \<Rightarrow>
        if p = [] \<or> e \<noteq> None then Some (0, Some ErrEof, r') else Some (get_le (zpad n p), None, r'))"

definition ReadUint8 :: "byte rdr" where
  "ReadUint8 = read_uint 1"

definition ReadUint16 :: "u16 rdr" where
  "ReadUint16 = read_uint 2"

definition ReadUint32 :: "u32 rdr" where
  "ReadUint32 = read_uint 4"

definition ReadUint64 :: "u64 rdr" where
  "ReadUint64 = read_uint 8"

definition WriteUint8 :: "byte \<Rightarrow> byte list" where
  "WriteUint8 val = [val]"

definition WriteUint16 :: "u16 \<Rightarrow> byte list" where
  "WriteUint16 val = put_le 2 val"

definition WriteUint32 :: "u32 \<Rightarrow> byte list" where
  "WriteUint32 val = put_le 4 val"

definition WriteUint64 :: "u64 \<Rightarrow> byte list" where
  "WriteUint64 val = put_le 8 val"

definition WriteBool :: "bool \<Rightarrow> byte list" where
  "WriteBool val = [if val then 1 else 0]"

definition ReadBool :: "bool rdr" where
  "ReadBool r =
     (case rd_ReadFull 1 r of (p, e, r') \<Rightarrow>
        Some (if e = None then p ! 0 \<noteq> 0 else False, e, r'))"

section \<open>Reading back what was written\<close>

lemma rd_bytes_exact: "length xs = n \<Longrightarrow> 0 < n \<Longrightarrow> rd_bytes n (Rd k (xs @ rest)) = Some (xs, None, Rd k rest)"
  by (simp add: rd_bytes_def rd_Read_exact)

lemma rd_bytes_1: "rd_bytes 1 (Rd k (b # rest)) = Some ([b], None, Rd k rest)"
  using rd_bytes_exact [of "[b]" 1 k rest] by simp

lemma WriteVarUint_ne [simp]: "WriteVarUint v \<noteq> []"
  by (simp add: WriteVarUint_def)

lemma VarUint_bounded:
  assumes "v \<le> (if m = 0 then - 1 else m)"
  shows "ReadVarUint m (Rd k (WriteVarUint v @ rest)) = Some (v, None, Rd k rest)"
proof -
  have m: "\<not> (if m = 0 then - 1 else m) < v" using assms by (simp only: not_less)
  note run = ReadVarUint_def Let_def m rd_run rd_bytes_1 [simplified] rd_bytes_exact
  consider "v < 0xFD" | "\<not> v < 0xFD" "v \<le> 0xFFFF" | "\<not> v < 0xFD" "\<not> v \<le> 0xFFFF" "v \<le> 0xFFFFFFFF"
    | "\<not> v < 0xFD" "\<not> v \<le> 0xFFFF" "\<not> v \<le> 0xFFFFFFFF" by blast
  then show ?thesis
  proof cases
    case 1
    have small: "unat v < 2 ^ LENGTH(8)" using 1 by (simp add: word_less_nat_alt)
    have "unat (ucast v :: byte) < 0xFD"
      using 1 unat_ucast_small [OF small] by (simp add: word_less_nat_alt)
    then have "(ucast v :: byte) \<noteq> 0xfd" "(ucast v :: byte) \<noteq> 0xfe" "(ucast v :: byte) \<noteq> 0xff"
      by auto
    moreover have "WriteVarUint v = [ucast v]" using 1 by (simp add: WriteVarUint_def)
    ultimately show ?thesis by (simp add: run ucast_ucast_small [OF small])
  next
    case 2
    have small: "unat v < 2 ^ LENGTH(16)" using 2 by (simp add: word_le_nat_alt)
    have "WriteVarUint v = 0xFD # put_le 2 (ucast v :: u16)" using 2 by (simp add: WriteVarUint_def)
    then show ?thesis by (simp add: run ucast_ucast_small [OF small])
  next
    case 3
    have small: "unat v < 2 ^ LENGTH(32)" using 3 by (simp add: word_le_nat_alt)
    have "WriteVarUint v = 0xFE # put_le 4 (ucast v :: u32)" using 3 by (simp add: WriteVarUint_def)
    then show ?thesis by (simp add: run ucast_ucast_small [OF small])
  next
    case 4
    then have "WriteVarUint v = 0xFF # put_le 8 v" by (simp add: WriteVarUint_def)
    then show ?thesis by (simp add: run)
  qed
qed

lemma read_uint_exact:
  "0 < n \<Longrightarrow> LENGTH('a) \<le> 8 * n \<Longrightarrow>
     read_uint n (Rd k (put_le n (w :: 'a::len word) @ rest)) = Some (w, None, Rd k rest)"
  by (simp add: read_uint_def rd_Read_exact get_put_le)

interpretation varuint: codec WriteVarUint "ReadVarUint 0" "\<lambda>v. True"
  by unfold_locales (rule VarUint_bounded, simp)

interpretation uint8: fixed_codec WriteUint8 ReadUint8 1
proof
  show "ReadUint8 (Rd k (WriteUint8 x @ rest)) = Some (x, None, Rd k rest)" for k x rest
  proof -
    have "put_le 1 x = [x]" by (simp add: put_le_def mod_less unsigned_less [of x, simplified])
    then show ?thesis using read_uint_exact [of 1 k x rest] by (simp add: ReadUint8_def WriteUint8_def)
  qed
qed (auto simp: WriteUint8_def)

interpretation uint16: fixed_codec WriteUint16 ReadUint16 2
  by unfold_locales (auto simp: WriteUint16_def ReadUint16_def read_uint_exact)

interpretation uint32: fixed_codec WriteUint32 ReadUint32 4
  by unfold_locales (auto simp: WriteUint32_def ReadUint32_def read_uint_exact)

interpretation uint64: fixed_codec WriteUint64 ReadUint64 8
  by unfold_locales (auto simp: WriteUint64_def ReadUint64_def read_uint_exact)

interpretation gobool: fixed_codec WriteBool ReadBool 1
  by unfold_locales (auto simp: WriteBool_def ReadBool_def rd_ReadFull.simps)

text \<open>A byte string short enough to be allocated again when it is read.\<close>

definition bytes_ok :: "byte list \<Rightarrow> bool" where
  "bytes_ok bs \<longleftrightarrow> length bs \<le> maxAlloc"

lemma unat_length_ok: "bytes_ok bs \<Longrightarrow> unat (word_of_nat (length bs) :: u64) = length bs"
  by (rule unat_of_nat_small) (simp add: bytes_ok_def maxAlloc_def)

lemma byteXReader_exact:
  "bytes_ok bs \<Longrightarrow> roomy k rest \<Longrightarrow>
     byteXReader (word_of_nat (length bs)) (Rd k (bs @ rest)) = Some (bs, None, Rd k rest)"
  by (cases "bs = []")
     (simp_all add: byteXReader_def unat_length_ok go_make_def bytes_ok_def [symmetric] rd_Read_roomy)

interpretation varbytes: codec WriteVarBytes ReadVarBytes bytes_ok
  by unfold_locales
     (simp add: WriteVarBytes_def ReadVarBytes_def rd_run VarUint_bounded byteXReader_exact)

interpretation varstring: codec WriteVarString ReadVarString bytes_ok
  by unfold_locales
     (simp add: WriteVarString_def ReadVarString_def ReadVarBytes_def rd_run VarUint_bounded
        byteXReader_exact)

lemmas serialization_rt [codec_rt] =
  VarUint_bounded varuint.roundtrip varbytes.roundtrip varstring.roundtrip
  uint8.roundtrip uint16.roundtrip uint32.roundtrip uint64.roundtrip gobool.roundtrip

end
