(* ===== verification/Go_Sha256.thy ===== *)
theory Go_Sha256
  imports Go_Prelude
begin

text \<open>
  \<^verbatim>\<open>crypto/sha256.Sum256\<close> of the Go standard library (FIPS 180-4), which the program uses
  for transaction, block and merkle hashes.
\<close>

unbundle bit_operations_syntax

text \<open>
  The constants are the first 32 bits of the fractional parts of cube and square roots of
  the first primes; a root is found bit by bit, from the highest one down.
\<close>

definition sha_primes :: "nat list" where
  "sha_primes = filter (\<lambda>n. list_all (\<lambda>d. n mod d \<noteq> 0 \<or> n = d) [2, 3, 5, 7, 11, 13, 17]) [2..<312]"

primrec root_bits :: "nat \<Rightarrow> nat \<Rightarrow> nat \<Rightarrow> nat \<Rightarrow> nat" where
  "root_bits k n 0 r = r"
| "root_bits k n (Suc i) r = root_bits k n i (if (r + 2 ^ i) ^ k \<le> n then r + 2 ^ i else r)"

definition frac_root :: "nat \<Rightarrow> nat \<Rightarrow> u32" where
  "frac_root k n = word_of_nat (root_bits k (n * 2 ^ (32 * k)) 38 0)"

definition sha_K :: "u32 list" where
  "sha_K = map (frac_root 3) sha_primes"

type_synonym sha_state = "u32 \<times> u32 \<times> u32 \<times> u32 \<times> u32 \<times> u32 \<times> u32 \<times> u32"

definition sha_init :: sha_state where
  "sha_init = (frac_root 2 2, frac_root 2 3, frac_root 2 5, frac_root 2 7,
               frac_root 2 11, frac_root 2 13, frac_root 2 17, frac_root 2 19)"

text \<open>The message schedule, kept with the newest word first.\<close>

primrec sha_schedule :: "nat \<Rightarrow> u32 list \<Rightarrow> u32 list" where
  "sha_schedule 0 w = rev w"
| "sha_schedule (Suc n) w =
     (let w15 = w ! 14; w2 = w ! 1;
          s0 = word_rotr 7 w15 XOR word_rotr 18 w15 XOR drop_bit 3 w15;
          s1 = word_rotr 17 w2 XOR word_rotr 19 w2 XOR drop_bit 10 w2
      in sha_schedule n ((w ! 15 + s0 + w ! 6 + s1) # w))"

fun sha_round :: "sha_state \<Rightarrow> u32 \<times> u32 \<Rightarrow> sha_state" where
  "sha_round (a, b, c, d, e, f, g, h) (k, w) =
     (let t1 = h + (word_rotr 6 e XOR word_rotr 11 e XOR word_rotr 25 e)
               + ((e AND f) XOR (NOT e AND g)) + k + w;
          t2 = (word_rotr 2 a XOR word_rotr 13 a XOR word_rotr 22 a)
               + ((a AND b) XOR (a AND c) XOR (b AND c))
      in (t1 + t2, a, b, c, d + t1, e, f, g))"

fun sha_add :: "sha_state \<Rightarrow> sha_state \<Rightarrow> sha_state" where
  "sha_add (a, b, c, d, e, f, g, h) (a', b', c', d', e', f', g', h') =
     (a + a', b + b', c + c', d + d', e + e', f + f', g + g', h + h')"

fun be_words :: "byte list \<Rightarrow> u32 list" where
  "be_words (b0 # b1 # b2 # b3 # bs) = get_le [b3, b2, b1, b0] # be_words bs"
| "be_words _ = []"

definition sha_block :: "sha_state \<Rightarrow> byte list \<Rightarrow> sha_state" where
  "sha_block st block =
     sha_add st (foldl sha_round st (zip sha_K (sha_schedule 48 (rev (be_words block)))))"

definition sha_pad :: "byte list \<Rightarrow> byte list" where
  "sha_pad msg =
     msg @ [0x80] @ replicate ((119 - length msg mod 64) mod 64) 0 @ rev (le_bytes 8 (8 * length msg))"

fun sha_blocks :: "nat \<Rightarrow> sha_state \<Rightarrow> byte list \<Rightarrow> sha_state" where
  "sha_blocks 0 st bs = st"
| "sha_blocks (Suc n) st bs = sha_blocks n (sha_block st (take 64 bs)) (drop 64 bs)"

fun sha_output :: "sha_state \<Rightarrow> byte list" where
  "sha_output (a, b, c, d, e, f, g, h) =
     concat (map (\<lambda>w. rev (put_le 4 w)) [a, b, c, d, e, f, g, h])"

definition sha256 :: "byte list \<Rightarrow> byte list" where
  "sha256 msg = (let p = sha_pad msg in sha_output (sha_blocks (length p div 64) sha_init p))"

lemma length_sha_output [simp]: "length (sha_output st) = 32"
  by (cases st rule: sha_output.cases) simp

lemma length_sha256 [simp]: "length (sha256 msg) = 32"
  by (simp add: sha256_def Let_def)

lemma sha256_ne [simp]: "sha256 msg \<noteq> []"
  using length_sha256 [of msg] by (metis list.size(3) zero_neq_numeral)

text \<open>The padded message is a whole number of blocks, so the compression reads all of it.\<close>

lemma sha_pad_blocks: "64 dvd length (sha_pad msg)"
proof -
  define m where "m = length msg mod 64"
  have m: "m < 64" by (simp add: m_def)
  have "(m + (9 + (119 - m) mod 64)) mod 64 = 0"
  proof (cases "m \<le> 55")
    case True
    then have "119 - m = 55 - m + 64" by simp
    then have "(119 - m) mod 64 = (55 - m) mod 64" by (simp only: mod_add_self2)
    then show ?thesis using True by simp
  next
    case False
    then have "(119 - m) mod 64 = 119 - m" by simp
    then show ?thesis using False m by simp
  qed
  then have "(length msg + (9 + (119 - m) mod 64)) mod 64 = 0"
    by (simp only: m_def mod_add_left_eq)
  moreover have "length (sha_pad msg) = length msg + (9 + (119 - m) mod 64)"
    by (simp add: sha_pad_def m_def)
  ultimately show ?thesis by (simp only: dvd_eq_mod_eq_0)
qed

section \<open>The constants\<close>

text \<open>
  The bit-by-bit search ends at the integer part of the root, so a constant is found by checking
  a candidate; with these equations the hash is evaluated.
\<close>

lemma root_bits_spec:
  assumes "r ^ k \<le> n" and "n < (r + 2 ^ i) ^ k"
  shows "root_bits k n i r ^ k \<le> n \<and> n < Suc (root_bits k n i r) ^ k"
  using assms by (induction i arbitrary: r) (simp_all add: mult_2 add.assoc)

lemma frac_root_eq:
  assumes "r ^ k \<le> n * 2 ^ (32 * k) \<and> n * 2 ^ (32 * k) < Suc r ^ k \<and> n < 2 ^ (6 * k)" and "0 < k"
  shows "frac_root k n = word_of_nat r"
proof -
  define q where "q = root_bits k (n * 2 ^ (32 * k)) 38 0"
  have "n * 2 ^ (32 * k) < 2 ^ (6 * k) * 2 ^ (32 * k)" using assms(1) by simp
  also have "\<dots> = (2 ^ 38) ^ k" by (simp only: power_add [symmetric] power_mult [symmetric] distrib_right [symmetric]) simp
  finally have "q ^ k \<le> n * 2 ^ (32 * k) \<and> n * 2 ^ (32 * k) < Suc q ^ k"
    unfolding q_def using assms(2) by (intro root_bits_spec) (simp_all add: zero_power)
  then have "q ^ k < Suc r ^ k" "r ^ k < Suc q ^ k" using assms(1) by linarith+
  then have "q < Suc r" "r < Suc q" by (blast intro: power_less_imp_less_base)+
  then have "q = r" by simp
  then show ?thesis by (simp add: frac_root_def q_def [symmetric])
qed

lemma frac_roots:
  assumes "list_all2 (\<lambda>n r. r ^ k \<le> n * 2 ^ (32 * k) \<and> n * 2 ^ (32 * k) < Suc r ^ k \<and> n < 2 ^ (6 * k)) ns rs" and "0 < k"
  shows "map (frac_root k) ns = map word_of_nat rs"
  using assms by (induction rule: list_all2_induct) (simp_all add: frac_root_eq)

lemma sha_primes_list:
  "sha_primes =
    [2, 3, 5, 7, 11, 13, 17, 19, 23, 29, 31, 37, 41, 43, 47, 53,
     59, 61, 67, 71, 73, 79, 83, 89, 97, 101, 103, 107, 109, 113, 127, 131,
     137, 139, 149, 151, 157, 163, 167, 173, 179, 181, 191, 193, 197, 199, 211, 223,
     227, 229, 233, 239, 241, 251, 257, 263, 269, 271, 277, 281, 283, 293, 307, 311]"
  by (simp add: sha_primes_def upt_rec_numeral)

lemma sha_K_list [code]:
  "sha_K =
    [1116352408, 1899447441, 3049323471, 3921009573, 961987163, 1508970993, 2453635748, 2870763221,
     3624381080, 310598401, 607225278, 1426881987, 1925078388, 2162078206, 2614888103, 3248222580,
     3835390401, 4022224774, 264347078, 604807628, 770255983, 1249150122, 1555081692, 1996064986,
     2554220882, 2821834349, 2952996808, 3210313671, 3336571891, 3584528711, 113926993, 338241895,
     666307205, 773529912, 1294757372, 1396182291, 1695183700, 1986661051, 2177026350, 2456956037,
     2730485921, 2820302411, 3259730800, 3345764771, 3516065817, 3600352804, 4094571909, 275423344,
     430227734, 506948616, 659060556, 883997877, 958139571, 1322822218, 1537002063, 1747873779,
     1955562222, 2024104815, 2227730452, 2361852424, 2428436474, 2756734187, 3204031479, 3329325298]"
proof -
  have "map (frac_root 3) sha_primes = map word_of_nat
    [5411319704, 6194414737, 7344290767, 8215976869, 9551921755, 10098905585, 11043570340, 11460697813,
     12214315672, 13195500289, 13492127166, 14311783875, 14809980276, 15046980094, 15499789991, 16133124468,
     16720292289, 16907126662, 17444216262, 17784676812, 17950125167, 18429019306, 18734950876, 19175934170,
     19734090066, 20001703533, 20132865992, 20390182855, 20516441075, 20764397895, 21588763473, 21813078375,
     22141143685, 22248366392, 22769593852, 22871018771, 23170020180, 23461497531, 23651862830, 23931792517,
     24205322401, 24295138891, 24734567280, 24820601251, 24990902297, 25075189284, 25569408389, 26045227120,
     26200031510, 26276752392, 26428864332, 26653801653, 26727943347, 27092625994, 27306805839, 27517677555,
     27725365998, 27793908591, 27997534228, 28131656200, 28198240250, 28526537963, 28973835255, 29099129074]"
    unfolding sha_primes_list by (rule frac_roots) simp_all
  then show ?thesis by (simp add: sha_K_def)
qed

lemma sha_init_values [code]:
  "sha_init =
    (1779033703, 3144134277, 1013904242, 2773480762, 1359893119, 2600822924, 528734635, 1541459225)"
proof -
  have "map (frac_root 2) [2, 3, 5, 7, 11, 13, 17, 19] = map word_of_nat
    [6074000999, 7439101573, 9603838834, 11363415354, 14244795007, 15485724812, 17708603819, 18721328409]"
    by (rule frac_roots) simp_all
  then show ?thesis by (simp add: sha_init_def)
qed

text \<open>The example of the standard: the hash of the three letters abc.\<close>

lemma sha256_abc:
  "sha256 [97, 98, 99] =
    [0xba, 0x78, 0x16, 0xbf, 0x8f, 0x01, 0xcf, 0xea, 0x41, 0x41, 0x40, 0xde, 0x5d, 0xae, 0x22, 0x23,
     0xb0, 0x03, 0x61, 0xa3, 0x96, 0x17, 0x7a, 0x9c, 0xb4, 0x10, 0xff, 0x61, 0xf2, 0x00, 0x15, 0xad]"
  by code_simp

end
