(* ===== verification/Common_Types.thy ===== *)
theory Common_Types
  imports Serialization Go_Sha256
begin

text \<open>
  The basic values of the \<^verbatim>\<open>common\<close> package: the 20- and 32-byte hashes (\<^verbatim>\<open>uint160.go\<close>,
  \<^verbatim>\<open>uint256.go\<close>), fixed-point amounts (\<^verbatim>\<open>Fixed64.go\<close>), the byte-slice helpers of
  \<^verbatim>\<open>common.go\<close> and the compact integers of \<^verbatim>\<open>compactUint.go\<close>. A hash is a word whose
  bytes, least significant first, are the array of the code: the two views are in
  bijection (\<open>Uint256_array_bij\<close>), and \<^verbatim>\<open>CompareTo\<close>, which walks the array from its last
  byte down, is then the numeric order (\<open>Uint256_CompareTo_sign\<close>).
\<close>

section \<open>Hashes\<close>

type_synonym Uint256 = "256 word"
type_synonym Uint160 = "160 word"

definition Uint256_ToArray :: "Uint256 \<Rightarrow> byte list" where
  "Uint256_ToArray u = put_le 32 u"

definition Uint160_ToArray :: "Uint160 \<Rightarrow> byte list" where
  "Uint160_ToArray u = put_le 20 u"

text \<open>The comparison loop, on the two arrays from their last elements down.\<close>

fun compare_loop :: "byte list \<Rightarrow> byte list \<Rightarrow> int" where
  "compare_loop (x # xs) (y # ys) = (if x > y then 1 else if x < y then - 1 else compare_loop xs ys)"
| "compare_loop _ _ = 0"

definition Uint256_CompareTo :: "Uint256 \<Rightarrow> Uint256 \<Rightarrow> int" where
  "Uint256_CompareTo u v = compare_loop (rev (Uint256_ToArray u)) (rev (Uint256_ToArray v))"

definition Uint160_CompareTo :: "Uint160 \<Rightarrow> Uint160 \<Rightarrow> int" where
  "Uint160_CompareTo u v = compare_loop (rev (Uint160_ToArray u)) (rev (Uint160_ToArray v))"

text \<open>
  \<^verbatim>\<open>for i, j := 0, n-1; i < j; i, j = i+1, j-1\<close> over a fresh zeroed array \<open>x\<close> (the hash
  versions) or over the array itself (\<open>BytesReverse\<close>, where source and target coincide).
\<close>

function reverse_into :: "byte list \<Rightarrow> byte list \<Rightarrow> nat \<Rightarrow> nat \<Rightarrow> byte list" where
  "reverse_into u x i j =
     (if i < j then reverse_into u (x[i := u ! j, j := u ! i]) (i + 1) (j - 1) else x)"
  by pat_completeness auto
termination
  by (relation "measure (\<lambda>(u, x, i, j). j - i)") auto

declare reverse_into.simps [simp del]

definition Uint256_ToArrayReverse :: "Uint256 \<Rightarrow> byte list" where
  "Uint256_ToArrayReverse u = reverse_into (Uint256_ToArray u) (replicate 32 0) 0 31"

definition Uint160_ToArrayReverse :: "Uint160 \<Rightarrow> byte list" where
  "Uint160_ToArrayReverse u = reverse_into (Uint160_ToArray u) (replicate 20 0) 0 19"

function reverse_loop :: "byte list \<Rightarrow> nat \<Rightarrow> nat \<Rightarrow> byte list" where
  "reverse_loop u i j =
     (if i < j then reverse_loop (u[i := u ! j, j := u ! i]) (i + 1) (j - 1) else u)"
  by pat_completeness auto
termination
  by (relation "measure (\<lambda>(u, i, j). j - i)") auto

declare reverse_loop.simps [simp del]

definition BytesReverse :: "byte list \<Rightarrow> byte list" where
  "BytesReverse u = reverse_loop u 0 (length u - 1)"

definition Uint256_Serialize :: "Uint256 \<Rightarrow> byte list" where
  "Uint256_Serialize u = Uint256_ToArray u"

definition Uint160_Serialize :: "Uint160 \<Rightarrow> byte list" where
  "Uint160_Serialize u = Uint160_ToArray u"

definition Uint256_Deserialize :: "Uint256 \<Rightarrow> Uint256 rdr" where
  "Uint256_Deserialize u r =
     (case rd_Read 32 r of (p, e, r') \<Rightarrow>
        if p = [] \<or> e \<noteq> None then Some (u, e, r') else Some (get_le (zpad 32 p), None, r'))"

definition Uint160_Deserialize :: "Uint160 \<Rightarrow> Uint160 rdr" where
  "Uint160_Deserialize u r =
     (case rd_Read 20 r of (p, e, r') \<Rightarrow>
        if p = [] \<or> e \<noteq> None then Some (u, e, r') else Some (get_le (zpad 20 p), None, r'))"

definition Uint256ParseFromBytes :: "byte list \<Rightarrow> Uint256 \<times> goerr option" where
  "Uint256ParseFromBytes f =
     (if length f \<noteq> 32
      then (0, NewDetailErr (Some (ErrNew ''[Common]: Uint256ParseFromBytes err, len != 32'')) ErrNoCode '''')
      else (get_le f, None))"

definition Uint160ParseFromBytes :: "byte list \<Rightarrow> Uint160 \<times> goerr option" where
  "Uint160ParseFromBytes f =
     (if length f \<noteq> 20
      then (0, NewDetailErr (Some (ErrNew ''[Common]: Uint160ParseFromBytes err, len != 20'')) ErrNoCode '''')
      else (get_le f, None))"

text \<open>\<open>Uint256(sha256.Sum256(b))\<close>, the conversion of a 32-byte array.\<close>

definition hash256 :: "byte list \<Rightarrow> Uint256" where
  "hash256 b = get_le (sha256 b)"

text \<open>RIPEMD-160 is a third-party package: a parameter.\<close>

definition ToCodeHash :: "(byte list \<Rightarrow> byte list) \<Rightarrow> byte list \<Rightarrow> Uint160 \<times> goerr option" where
  "ToCodeHash ripemd160 code =
     (case Uint160ParseFromBytes (ripemd160 (sha256 code)) of
        (hash, Some e) \<Rightarrow> (0, NewDetailErr (Some (ErrNew ''[Common] , ToCodeHash err.'')) ErrNoCode '''')
      | (hash, None) \<Rightarrow> (hash, None))"

section \<open>Byte-slice helpers\<close>

definition IntToBytes :: "i64 \<Rightarrow> byte list" where
  "IntToBytes n = put_le 4 (ucast n :: u32)"

definition BytesToInt16 :: "byte list \<Rightarrow> u16" where
  "BytesToInt16 b = (if 2 \<le> length b then get_le (rev (take 2 b)) else 0)"

fun IsEqualBytes :: "byte list \<Rightarrow> byte list \<Rightarrow> bool" where
  "IsEqualBytes (x # xs) (y # ys) = (if x \<noteq> y then False else IsEqualBytes xs ys)"
| "IsEqualBytes [] [] = True"
| "IsEqualBytes _ _ = False"

primrec ClearBytes :: "byte list \<Rightarrow> nat \<Rightarrow> byte list go" where
  "ClearBytes arr 0 = Some arr"
| "ClearBytes arr (Suc n) =
     (case ClearBytes arr n of
        None \<Rightarrow> panic
      | Some a \<Rightarrow> if n < length a then Some (a[n := 0]) else panic)"

fun CompareHeight :: "u64 \<Rightarrow> u64 list \<Rightarrow> bool" where
  "CompareHeight blockHeight [] = True"
| "CompareHeight blockHeight (height # heights) =
     (if blockHeight < height then False else CompareHeight blockHeight heights)"

fun uint16_pairs :: "byte list \<Rightarrow> u16 list" where
  "uint16_pairs (a # b # bs) = (ucast a + ucast b * 256) # uint16_pairs bs"
| "uint16_pairs _ = []"

definition GetUint16Array :: "byte list option \<Rightarrow> u16 list option \<times> goerr option" where
  "GetUint16Array source =
     (case source of
        None \<Rightarrow> (None, NewDetailErr (Some (ErrNew ''[Common] , GetUint16Array err, source = nil'')) ErrNoCode '''')
      | Some bs \<Rightarrow>
          if length bs mod 2 \<noteq> 0
          then (None, NewDetailErr (Some (ErrNew ''[Common] , GetUint16Array err, length of source is odd.'')) ErrNoCode '''')
          else (Some (uint16_pairs bs), None))"

primrec ToByteArray :: "u16 list \<Rightarrow> byte list" where
  "ToByteArray [] = []"
| "ToByteArray (w # ws) = ucast (w mod 256) # ucast (w div 256) # ToByteArray ws"

fun SliceRemove :: "u32 list \<Rightarrow> u32 \<Rightarrow> u32 list" where
  "SliceRemove [] h = []"
| "SliceRemove (v # vs) h = (if v = h then vs else v # SliceRemove vs h)"

section \<open>Compact integers\<close>

text \<open>
  \<^verbatim>\<open>binary.LittleEndian.Uint64(b)\<close> needs eight bytes and panics on a shorter slice, and
  slicing \<^verbatim>\<open>buf[1:n]\<close> panics beyond the buffer.
\<close>

definition le_Uint64 :: "byte list \<Rightarrow> u64 go" where
  "le_Uint64 b = (if 8 \<le> length b then Some (get_le (take 8 b)) else panic)"

definition go_slice :: "byte list \<Rightarrow> nat \<Rightarrow> nat \<Rightarrow> byte list go" where
  "go_slice b lo hi = (if lo \<le> hi \<and> hi \<le> length b then Some (drop lo (take hi b)) else panic)"

definition GetCompactUint :: "byte list \<Rightarrow> (u64 \<times> byte) go" where
  "GetCompactUint buf =
     (case buf of
        [] \<Rightarrow> panic
      | b # _ \<Rightarrow>
          let len = (ucast b :: u64)
          in if len < 0xfd then Some (len, 1)
             else if len = 0xfd then do { s \<leftarrow> go_slice buf 1 3; v \<leftarrow> le_Uint64 s; Some (v, 3) }
             else if len = 0xfe then do { s \<leftarrow> go_slice buf 1 5; v \<leftarrow> le_Uint64 s; Some (v, 5) }
             else if len = 0xff then do { s \<leftarrow> go_slice buf 1 9; v \<leftarrow> le_Uint64 s; Some (v, 9) }
             else Some (0, 0))"

definition SetCompactUint :: "u64 \<Rightarrow> byte list" where
  "SetCompactUint num =
     (if num \<le> 0xff then [ucast num]
      else if num \<le> 0xffff then 0xfd # put_le 2 (ucast num :: u16)
      else if num \<le> 0xffffffff then 0xfe # put_le 4 (ucast num :: u32)
      else 0xff # put_le 8 num)"

section \<open>Lemmas\<close>

subsection \<open>Hashes\<close>

lemma length_ToArray [simp]:
  "length (Uint256_ToArray u) = 32" "length (Uint160_ToArray v) = 20"
  by (simp_all add: Uint256_ToArray_def Uint160_ToArray_def)

lemma Uint256_array_bij:
  "get_le (Uint256_ToArray u) = u"
  "length bs = 32 \<Longrightarrow> Uint256_ToArray (get_le bs) = bs"
  using put_get_le [of bs, where 'a = 256] by (simp_all add: Uint256_ToArray_def)

lemma Uint160_array_bij:
  "get_le (Uint160_ToArray v) = v"
  "length bs = 20 \<Longrightarrow> Uint160_ToArray (get_le bs) = bs"
  using put_get_le [of bs, where 'a = 160] by (simp_all add: Uint160_ToArray_def)

lemma Uint256_ToArray_inj [simp]: "Uint256_ToArray u = Uint256_ToArray v \<longleftrightarrow> u = v"
  by (metis Uint256_array_bij(1))

lemma Uint160_ToArray_inj [simp]: "Uint160_ToArray u = Uint160_ToArray v \<longleftrightarrow> u = v"
  by (metis Uint160_array_bij(1))

lemma hash256_array: "Uint256_ToArray (hash256 b) = sha256 b"
  by (simp add: hash256_def Uint256_array_bij)

lemma be_val_Cons: "be_val (x # xs) = unat x * 256 ^ length xs + be_val xs"
  by (simp add: be_val_def le_val_append)

lemma be_val_bound: "be_val xs < 256 ^ length xs"
  using le_val_bound [of "rev xs"] by (simp add: be_val_def)

lemma be_val_Cons_less:
  assumes "length xs = length ys" and "x < y"
  shows "be_val (x # xs) < be_val (y # ys)"
proof -
  have "unat x * 256 ^ length xs + be_val xs < (unat x + 1) * 256 ^ length xs"
    using be_val_bound [of xs] by simp
  also have "\<dots> \<le> unat y * 256 ^ length xs"
    using assms(2) by (intro mult_right_mono) (simp_all add: word_less_nat_alt)
  also have "\<dots> \<le> be_val (y # ys)" using assms(1) by (simp add: be_val_Cons)
  finally show ?thesis by (simp add: be_val_Cons)
qed

lemma compare_loop_sign:
  "length xs = length ys \<Longrightarrow>
     compare_loop xs ys = (if be_val xs > be_val ys then 1 else if be_val xs < be_val ys then - 1 else 0)"
proof (induction xs ys rule: list_induct2)
  case Nil
  then show ?case by simp
next
  case (Cons x xs y ys)
  consider "x > y" | "x < y" | "x = y" by fastforce
  then show ?case
  proof cases
    case 1
    then show ?thesis using be_val_Cons_less [of ys xs y x] Cons by simp
  next
    case 2
    then show ?thesis using be_val_Cons_less [of xs ys x y] Cons by simp
  next
    case 3
    then show ?thesis using Cons by (simp add: be_val_Cons)
  qed
qed

lemma be_val_rev_put_le:
  "LENGTH('a) \<le> 8 * n \<Longrightarrow> be_val (rev (put_le n (u :: 'a::len word))) = unat u"
  by (simp add: be_val_def le_val_put_le)

lemma reverse_into_length [simp]: "length (reverse_into u x i j) = length x"
  by (induction u x i j rule: reverse_into.induct) (subst reverse_into.simps, simp)

lemma reverse_into_nth:
  assumes "length x = n" and "i + j = n - 1" and "0 < n" and "k < n"
  shows "reverse_into u x i j ! k = (if i \<le> k \<and> k \<le> j \<and> 2 * k \<noteq> n - 1 then u ! (n - 1 - k) else x ! k)"
  using assms
proof (induction u x i j rule: reverse_into.induct)
  case (1 u x i j)
  show ?case
  proof (cases "i < j")
    case True
    have "reverse_into u x i j ! k =
        (if i + 1 \<le> k \<and> k \<le> j - 1 \<and> 2 * k \<noteq> n - 1 then u ! (n - 1 - k) else x[i := u ! j, j := u ! i] ! k)"
      by (subst reverse_into.simps) (use True 1 in simp)
    also have "\<dots> = (if i \<le> k \<and> k \<le> j \<and> 2 * k \<noteq> n - 1 then u ! (n - 1 - k) else x ! k)"
    proof -
      have "n - 1 - j = i" "n - 1 - i = j" using 1(3) by linarith+
      then show ?thesis using True 1 by (auto simp: nth_list_update)
    qed
    finally show ?thesis .
  next
    case False
    then have "i \<le> k \<and> k \<le> j \<Longrightarrow> 2 * k = n - 1" using 1(3) by linarith
    with False show ?thesis by (auto simp: reverse_into.simps)
  qed
qed

lemma reverse_into_rev:
  assumes "length u = 2 * m" and "length x = 2 * m" and "0 < m"
  shows "reverse_into u x 0 (2 * m - 1) = rev u"
proof (rule nth_equalityI)
  fix k assume "k < length (reverse_into u x 0 (2 * m - 1))"
  then have k: "k < 2 * m" using assms by simp
  moreover have "2 * k \<noteq> 2 * m - 1" using assms(3) by presburger
  moreover have "k \<le> 2 * m - 1" using k by linarith
  ultimately show "reverse_into u x 0 (2 * m - 1) ! k = rev u ! k"
    using assms by (simp add: reverse_into_nth [where n = "2 * m"] rev_nth)
qed (use assms in simp)

lemma ToArrayReverse_rev:
  "Uint256_ToArrayReverse u = rev (Uint256_ToArray u)"
  "Uint160_ToArrayReverse v = rev (Uint160_ToArray v)"
  using reverse_into_rev [of "Uint256_ToArray u" 16 "replicate 32 0"]
    reverse_into_rev [of "Uint160_ToArray v" 10 "replicate 20 0"]
  by (simp_all add: Uint256_ToArrayReverse_def Uint160_ToArrayReverse_def)

lemma reverse_loop_length [simp]: "length (reverse_loop u i j) = length u"
  by (induction u i j rule: reverse_loop.induct) (subst reverse_loop.simps, simp)

lemma reverse_loop_nth:
  assumes "j < length u" and "k < length u"
  shows "reverse_loop u i j ! k = (if i \<le> k \<and> k \<le> j then u ! (i + j - k) else u ! k)"
  using assms
proof (induction u i j rule: reverse_loop.induct)
  case (1 u i j)
  show ?case
  proof (cases "i < j")
    case True
    have "reverse_loop u i j ! k = (let u' = u[i := u ! j, j := u ! i] in
        if i + 1 \<le> k \<and> k \<le> j - 1 then u' ! (i + 1 + (j - 1) - k) else u' ! k)"
      by (subst reverse_loop.simps) (use True 1 in \<open>simp add: Let_def\<close>)
    also have "\<dots> = (if i \<le> k \<and> k \<le> j then u ! (i + j - k) else u ! k)"
      using True 1(2,3) by (auto simp: Let_def nth_list_update)
    finally show ?thesis .
  next
    case False
    then have "i \<le> k \<and> k \<le> j \<Longrightarrow> i + j - k = k" by linarith
    with False show ?thesis by (simp add: reverse_loop.simps)
  qed
qed

lemma BytesReverse_rev [simp]: "BytesReverse u = rev u"
proof (cases "u = []")
  case True
  then show ?thesis by (simp add: BytesReverse_def reverse_loop.simps)
next
  case False
  show ?thesis
    by (rule nth_equalityI) (use False in \<open>auto simp: BytesReverse_def reverse_loop_nth rev_nth\<close>)
qed

lemma Uint256_CompareTo_sign:
  "Uint256_CompareTo u v = (if u > v then 1 else if u < v then - 1 else 0)"
  by (simp add: Uint256_CompareTo_def compare_loop_sign Uint256_ToArray_def be_val_rev_put_le
      word_less_nat_alt)

lemma Uint160_CompareTo_sign:
  "Uint160_CompareTo u v = (if u > v then 1 else if u < v then - 1 else 0)"
  by (simp add: Uint160_CompareTo_def compare_loop_sign Uint160_ToArray_def be_val_rev_put_le
      word_less_nat_alt)

interpretation u256: fixed_codec Uint256_Serialize "Uint256_Deserialize z" 32
  by unfold_locales
     (auto simp: Uint256_Serialize_def Uint256_ToArray_def Uint256_Deserialize_def rd_Read_exact)

interpretation u160: fixed_codec Uint160_Serialize "Uint160_Deserialize z" 20
  by unfold_locales
     (auto simp: Uint160_Serialize_def Uint160_ToArray_def Uint160_Deserialize_def rd_Read_exact)

lemma Uint256ParseFromBytes_ToArray: "Uint256ParseFromBytes (Uint256_ToArray u) = (u, None)"
  by (simp add: Uint256ParseFromBytes_def Uint256_array_bij)

lemma Uint160ParseFromBytes_ToArray: "Uint160ParseFromBytes (Uint160_ToArray u) = (u, None)"
  by (simp add: Uint160ParseFromBytes_def Uint160_array_bij)

subsection \<open>Byte-slice helpers\<close>

lemma IsEqualBytes_eq [simp]: "IsEqualBytes xs ys \<longleftrightarrow> xs = ys"
  by (induction xs ys rule: IsEqualBytes.induct) auto

lemma CompareHeight_all: "CompareHeight h hs \<longleftrightarrow> list_all (\<lambda>x. x \<le> h) hs"
  by (induction hs) auto

lemma ClearBytes_spec:
  "ClearBytes arr n = (if n \<le> length arr then Some (replicate n 0 @ drop n arr) else panic)"
proof (induction n)
  case 0
  then show ?case by simp
next
  case (Suc n)
  then show ?case
    by (auto simp: list_update_append Cons_nth_drop_Suc [symmetric] replicate_append_same [symmetric])
qed

lemma SliceRemove_remove1: "SliceRemove xs h = remove1 h xs"
  by (induction xs) auto

lemma pair_split:
  "ucast (ucast (w mod 256 :: u16) :: byte) + ucast (ucast (w div 256 :: u16) :: byte) * 256 = (w :: u16)"
proof -
  have "unat w < 65536" using unsigned_less [of w] by simp
  then have "unat (w mod 256) < 2 ^ LENGTH(8)" "unat (w div 256) < 2 ^ LENGTH(8)"
    by (simp_all add: unat_mod unat_div less_mult_imp_div_less)
  then have "ucast (ucast (w mod 256) :: byte) = w mod 256" "ucast (ucast (w div 256) :: byte) = w div 256"
    by (simp_all only: ucast_ucast_small)
  then show ?thesis by (simp add: mod_mult_div_eq mult.commute word_mod_div_equality add.commute)
qed

lemma GetUint16Array_ToByteArray: "GetUint16Array (Some (ToByteArray ws)) = (Some ws, None)"
proof -
  have "length (ToByteArray ws) mod 2 = 0" by (induction ws) auto
  moreover have "uint16_pairs (ToByteArray ws) = ws"
    by (induction ws) (simp_all add: pair_split)
  ultimately show ?thesis by (simp add: GetUint16Array_def)
qed

subsection \<open>Compact integers\<close>

lemma GetCompactUint_panics:
  assumes "b = 0xfd \<or> b = 0xfe"
  shows "GetCompactUint (b # bs) = panic"
proof -
  have "length x \<le> hi - 1" if "go_slice (b # bs) 1 hi = Some x" for x hi
    using that by (auto simp: go_slice_def split: if_splits)
  then show ?thesis using assms
    by (fastforce simp: GetCompactUint_def Let_def le_Uint64_def split: option.splits bind_splits)
qed

end
