(* ===== verification/Fixed_Amounts.thy ===== *)
theory Fixed_Amounts
  imports Common_Types
begin

text \<open>
  \<^verbatim>\<open>common/Fixed64.go\<close>: signed 64-bit fixed-point amounts with eight decimals, their
  binary and textual codings; and the address coding of \<^verbatim>\<open>common/uint160.go\<close>, which also
  goes through decimal numbers. The decimal conversions are those of \<^verbatim>\<open>strconv\<close> and
  \<^verbatim>\<open>math/big\<close>.
\<close>

section \<open>Decimal numbers\<close>

fun dec :: "nat \<Rightarrow> string" where
  "dec n = (if n < 10 then [char_of (48 + n)] else dec (n div 10) @ [char_of (48 + n mod 10)])"

declare dec.simps [simp del]

definition digit_val :: "char \<Rightarrow> nat option" where
  "digit_val c = (let n = (of_char c :: nat) in if 48 \<le> n \<and> n < 58 then Some (n - 48) else None)"

fun dec_val :: "nat \<Rightarrow> string \<Rightarrow> nat option" where
  "dec_val acc [] = Some acc"
| "dec_val acc (c # cs) = (case digit_val c of None \<Rightarrow> None | Some d \<Rightarrow> dec_val (10 * acc + d) cs)"

text \<open>
  \<^verbatim>\<open>strconv.ParseInt(s, 10, 64)\<close>; its two failures are the \<^verbatim>\<open>Err\<close> fields of the
  \<^verbatim>\<open>NumError\<close> it returns.
\<close>

definition ParseInt :: "string \<Rightarrow> int \<times> goerr option" where
  "ParseInt s =
     (let (neg, ds) = (case s of [] \<Rightarrow> (False, [])
                       | c # cs \<Rightarrow> if c = CHR ''+'' then (False, cs)
                                   else if c = CHR ''-'' then (True, cs) else (False, s))
      in if ds = [] then (0, Some (ErrNew ''invalid syntax''))
         else (case dec_val 0 ds of
                 None \<Rightarrow> (0, Some (ErrNew ''invalid syntax''))
               | Some n \<Rightarrow>
                   if neg then (if n > 2 ^ 63 then (- (2 ^ 63), Some (ErrNew ''value out of range''))
                                else (- int n, None))
                   else (if n \<ge> 2 ^ 63 then (2 ^ 63 - 1, Some (ErrNew ''value out of range''))
                         else (int n, None))))"

section \<open>Amounts\<close>

type_synonym Fixed64 = i64

definition Fixed64_Serialize :: "Fixed64 \<Rightarrow> byte list" where
  "Fixed64_Serialize f = put_le 8 f"

definition Fixed64_Deserialize :: "Fixed64 \<Rightarrow> Fixed64 rdr" where
  "Fixed64_Deserialize f r =
     (case rd_Read 8 r of (p, e, r') \<Rightarrow>
        if p = [] \<or> e \<noteq> None then Some (f, e, r') else Some (get_le (zpad 8 p), None, r'))"

definition Fixed64_String :: "Fixed64 \<Rightarrow> string" where
  "Fixed64_String f =
     (let neg = f <s 0;
          value = (if neg then - f else f);
          rest = value mod 100000000
      in (if neg then ''-'' else []) @ dec (unat (value div 100000000)) @
         (if rest > 0
          then (let s = dec (unat rest) in ''.'' @ replicate (8 - length s) CHR ''0'' @ s)
          else []))"

text \<open>\<^verbatim>\<open>strings.Index(s, ".")\<close>\<close>

fun str_index :: "char \<Rightarrow> string \<Rightarrow> int" where
  "str_index c [] = - 1"
| "str_index c (x # xs) =
     (if x = c then 0 else let i = str_index c xs in if i = - 1 then - 1 else i + 1)"

definition StringToFixed64 :: "string \<Rightarrow> Fixed64 \<times> goerr option" where
  "StringToFixed64 s =
     (let di = str_index CHR ''.'' s
      in if int (length s) - di > 9 then (0, Some (ErrNew ''unsupported precision''))
         else
           let buffer =
                 (if di = - 1 then s @ replicate 8 CHR ''0''
                  else take (nat di) s @ drop (nat di + 1) s
                       @ replicate (nat (8 - (int (length s) - di - 1))) CHR ''0'')
           in (case ParseInt buffer of
                 (r, Some err) \<Rightarrow> (0, Some err)
               | (r, None) \<Rightarrow> (word_of_int r, None)))"

section \<open>Addresses\<close>

text \<open>
  Base58 is a third-party package that codes strings of decimal digits: its
  \<^verbatim>\<open>Encode\<close> and \<^verbatim>\<open>Decode\<close> are parameters. \<^verbatim>\<open>big.Int.SetString\<close> of a non-number gives a nil
  pointer, whose \<^verbatim>\<open>Bytes\<close> panics.
\<close>

definition Uint160_ToAddress :: "(string \<Rightarrow> string \<times> goerr option) \<Rightarrow> Uint160 \<Rightarrow> string \<times> goerr option"
where
  "Uint160_ToAddress b58enc f =
     (let data = 33 # Uint160_ToArray f;
          temps = sha256 (sha256 data);
          data = data @ take 4 temps;
          bi = dec (be_val data)
      in case b58enc bi of (encoded, Some e) \<Rightarrow> ([], Some e) | (encoded, None) \<Rightarrow> (encoded, None))"

definition ToScriptHash ::
  "(string \<Rightarrow> string \<times> goerr option) \<Rightarrow> (string \<Rightarrow> string \<times> goerr option) \<Rightarrow> string
     \<Rightarrow> (Uint160 \<times> goerr option) go"
where
  "ToScriptHash b58enc b58dec address =
     (case b58dec address of
        (decoded, Some e) \<Rightarrow> Some (0, Some e)
      | (decoded, None) \<Rightarrow>
          (case (if decoded = [] then None else dec_val 0 decoded) of
             None \<Rightarrow> panic
           | Some x \<Rightarrow> do {
               s \<leftarrow> go_slice (big_Bytes (int x)) 1 21;
               (case Uint160ParseFromBytes s of
                  (ph, Some e) \<Rightarrow> Some (0, Some e)
                | (ph, None) \<Rightarrow>
                    (case Uint160_ToAddress b58enc ph of
                       (addr, Some e) \<Rightarrow> Some (0, Some e)
                     | (addr, None) \<Rightarrow>
                         if addr \<noteq> address
                         then Some (0, Some (ErrNew ''[AddressToProgramHash]: decode address verify failed.''))
                         else Some (ph, None))) }))"

section \<open>Lemmas on decimal numbers\<close>

lemma digit_val_char: "d < 10 \<Longrightarrow> digit_val (char_of (48 + d)) = Some d"
  by (simp add: digit_val_def)

lemma dec_val_append: "dec_val acc (xs @ ys) = (case dec_val acc xs of None \<Rightarrow> None | Some n \<Rightarrow> dec_val n ys)"
  by (induction xs arbitrary: acc) (auto split: option.splits)

lemma dec_ne [simp]: "dec n \<noteq> []"
  by (subst dec.simps) simp

lemma dec_val_dec: "dec_val 0 (dec n) = Some n"
proof (induction n rule: dec.induct)
  case (1 n)
  then show ?case
    by (subst dec.simps) (auto simp: dec_val_append digit_val_char)
qed

lemma dec_val_acc: "dec_val acc s = (case dec_val 0 s of None \<Rightarrow> None | Some n \<Rightarrow> Some (acc * 10 ^ length s + n))"
proof (induction s arbitrary: acc)
  case Nil
  then show ?case by simp
next
  case (Cons c cs)
  show ?case
  proof (cases "digit_val c")
    case None
    then show ?thesis by simp
  next
    case (Some d)
    then show ?thesis
      using Cons [of "10 * acc + d"] Cons [of d] by (auto simp: algebra_simps split: option.splits)
  qed
qed

lemma dec_digits: "c \<in> set (dec n) \<Longrightarrow> digit_val c \<noteq> None"
proof (induction n rule: dec.induct)
  case (1 n)
  show ?case using 1(2) unfolding dec.simps [of n]
    by (auto simp: digit_val_char digit_val_char [of "n mod 10"] split: if_splits dest: 1(1))
qed

lemma length_dec_less: "n < 10 ^ Suc k \<Longrightarrow> length (dec n) \<le> Suc k"
proof (induction k arbitrary: n)
  case 0
  then show ?case by (subst dec.simps) simp
next
  case (Suc k)
  show ?case
  proof (cases "n < 10")
    case True
    then show ?thesis by (subst dec.simps) simp
  next
    case False
    have "n div 10 < 10 ^ Suc k" using Suc.prems by (simp add: div_less_iff_less_mult mult.commute)
    then show ?thesis using False Suc.IH by (subst dec.simps) simp
  qed
qed

lemma length_dec_ge: "10 ^ k \<le> n \<Longrightarrow> Suc k \<le> length (dec n)"
proof (induction k arbitrary: n)
  case 0
  then show ?case using dec_ne [of n] by (cases "dec n") auto
next
  case (Suc k)
  have "(1::nat) \<le> 10 ^ k" by simp
  then have "\<not> n < 10" using Suc.prems unfolding power_Suc by linarith
  moreover have "10 ^ k \<le> n div 10" using Suc.prems by (simp add: less_eq_div_iff_mult_less_eq mult.commute)
  ultimately show ?case using Suc.IH by (subst dec.simps) simp
qed

lemma length_dec_iff: "length (dec n) \<le> Suc k \<longleftrightarrow> n < 10 ^ Suc k"
  using length_dec_less [of n k] length_dec_ge [of "Suc k" n] by (meson not_less not_less_eq_eq)

section \<open>Round trips\<close>

interpretation fix64: fixed_codec Fixed64_Serialize "Fixed64_Deserialize z" 8
  by unfold_locales (auto simp: Fixed64_Serialize_def Fixed64_Deserialize_def rd_Read_exact)

lemma unat_magnitude: "unat (if f <s 0 then - f else (f :: i64)) = nat \<bar>sint f\<bar>"
proof -
  have r: "- (2 ^ 63) \<le> sint f" "sint f < 2 ^ 63"
    using sint_ge [of f] sint_less [of f] by simp_all
  have fits: "uint (word_of_int i :: i64) = i" if "0 \<le> i" "i < 2 ^ 64" for i
    using that by (simp add: uint_word_of_int take_bit_eq_mod)
  have f: "word_of_int (sint f) = f" by simp
  have neg: "uint (- f) = - sint f" if "sint f < 0"
  proof -
    have "- f = word_of_int (- sint f)" using f by (metis wi_hom_neg)
    then show ?thesis using fits [of "- sint f"] that r by simp
  qed
  have pos: "uint f = sint f" if "0 \<le> sint f"
    using fits [of "sint f"] that r f by simp
  show ?thesis
  proof (cases "sint f < 0")
    case True
    then show ?thesis using neg by (simp add: word_sless_alt unat_eq_nat_uint)
  next
    case False
    then show ?thesis using pos by (simp add: word_sless_alt unat_eq_nat_uint)
  qed
qed

lemma str_index_none: "c \<notin> set s \<Longrightarrow> str_index c s = - 1"
  by (induction s) auto

lemma str_index_found: "c \<notin> set xs \<Longrightarrow> str_index c (xs @ c # ys) = int (length xs)"
  by (induction xs) auto

lemma digits_no_punct: "list_all (\<lambda>c. digit_val c \<noteq> None) s \<Longrightarrow> CHR ''.'' \<notin> set s \<and> CHR ''-'' \<notin> set s \<and> CHR ''+'' \<notin> set s"
  by (auto simp: list_all_iff digit_val_def)

lemma ParseInt_digits:
  assumes "dec_val 0 ds = Some n" and "ds \<noteq> []" and "list_all (\<lambda>c. digit_val c \<noteq> None) ds"
  shows "n < 2 ^ 63 \<Longrightarrow> ParseInt ds = (int n, None)"
    and "n \<le> 2 ^ 63 \<Longrightarrow> ParseInt (CHR ''-'' # ds) = (- int n, None)"
  using assms digits_no_punct [OF assms(3)]
  by (auto simp: ParseInt_def Let_def split: list.splits)

definition frac_pad :: "nat \<Rightarrow> string" where
  "frac_pad r = replicate (8 - length (dec r)) CHR ''0'' @ dec r"

lemma list_all_dec: "list_all (\<lambda>c. digit_val c \<noteq> None) (dec n)"
  using dec_digits by (auto simp: list_all_iff)

lemma frac_pad_props:
  assumes "r < 100000000"
  shows "length (frac_pad r) = 8" and "dec_val q (frac_pad r) = Some (q * 100000000 + r)"
    and "list_all (\<lambda>c. digit_val c \<noteq> None) (frac_pad r)"
proof -
  have len: "length (dec r) \<le> 8" using length_dec_less [of r 7] assms by simp
  then show l: "length (frac_pad r) = 8" by (simp add: frac_pad_def)
  have "dec_val 0 (replicate k CHR ''0'' @ s) = dec_val 0 s" for k s
    by (induction k) (auto simp: digit_val_def)
  then have "dec_val 0 (frac_pad r) = Some r" by (simp add: frac_pad_def dec_val_dec)
  then show "dec_val q (frac_pad r) = Some (q * 100000000 + r)"
    using l by (subst dec_val_acc) simp
  show "list_all (\<lambda>c. digit_val c \<noteq> None) (frac_pad r)"
    using list_all_dec by (auto simp: frac_pad_def digit_val_def list_all_iff)
qed

lemma zeros_frac_pad: "replicate 8 CHR ''0'' = frac_pad 0"
proof -
  have "char_of (48 :: nat) = CHR ''0''" by (simp add: char_of_eq_iff)
  then have "dec 0 = [CHR ''0'']" by (simp add: dec.simps)
  then show ?thesis by (simp add: frac_pad_def replicate_append_same [symmetric] numeral_eq_Suc)
qed

lemma Fixed64_String_alt:
  "Fixed64_String f =
     (let m = nat \<bar>sint f\<bar>; q = m div 100000000; r = m mod 100000000
      in (if sint f < 0 then ''-'' else []) @ dec q @ (if r = 0 then [] else ''.'' @ frac_pad r))"
proof -
  define v where "v = (if f <s 0 then - f else f)"
  have v: "unat v = nat \<bar>sint f\<bar>" unfolding v_def by (rule unat_magnitude)
  have "(0 < v mod 100000000) \<longleftrightarrow> unat v mod 100000000 \<noteq> 0"
    by (simp add: word_less_nat_alt unat_mod)
  then show ?thesis
    unfolding Fixed64_String_def Let_def v_def [symmetric] frac_pad_def
    by (simp add: unat_div unat_mod v word_sless_alt)
qed

lemma ParseInt_amount:
  fixes f :: Fixed64
  defines "m \<equiv> nat \<bar>sint f\<bar>"
  shows "ParseInt ((if sint f < 0 then ''-'' else []) @ dec (m div 100000000) @ frac_pad (m mod 100000000))
           = (sint f, None)"
proof -
  define ds where "ds = dec (m div 100000000) @ frac_pad (m mod 100000000)"
  have r: "- (2 ^ 63) \<le> sint f" "sint f < 2 ^ 63"
    using sint_ge [of f] sint_less [of f] by simp_all
  have "dec_val 0 ds = Some m"
    by (simp add: ds_def dec_val_append dec_val_dec frac_pad_props(2))
  moreover have "ds \<noteq> []" by (simp add: ds_def)
  moreover have "list_all (\<lambda>c. digit_val c \<noteq> None) ds"
    using list_all_dec frac_pad_props(3) by (simp add: ds_def)
  ultimately have p: "m < 2 ^ 63 \<Longrightarrow> ParseInt ds = (int m, None)"
    "m \<le> 2 ^ 63 \<Longrightarrow> ParseInt (CHR ''-'' # ds) = (- int m, None)"
    by (simp_all add: ParseInt_digits)
  show ?thesis
  proof (cases "sint f < 0")
    case True
    then have "m \<le> 2 ^ 63" "- int m = sint f" using r by (simp_all add: m_def)
    then show ?thesis using p(2) True by (simp add: ds_def)
  next
    case False
    then have "m < 2 ^ 63" "int m = sint f" using r by (simp_all add: m_def)
    then show ?thesis using p(1) False by (simp add: ds_def)
  qed
qed

lemma StringToFixed64_int:
  assumes "CHR ''.'' \<notin> set s"
  shows "StringToFixed64 s =
    (if length s > 8 then (0, Some (ErrNew ''unsupported precision''))
     else (case ParseInt (s @ frac_pad 0) of (r, Some err) \<Rightarrow> (0, Some err) | (r, None) \<Rightarrow> (word_of_int r, None)))"
  using assms by (simp add: StringToFixed64_def str_index_none zeros_frac_pad Let_def)

lemma StringToFixed64_frac:
  assumes "CHR ''.'' \<notin> set p" and "length d = 8"
  shows "StringToFixed64 (p @ ''.'' @ d) =
    (case ParseInt (p @ d) of (r, Some err) \<Rightarrow> (0, Some err) | (r, None) \<Rightarrow> (word_of_int r, None))"
  using assms by (simp add: StringToFixed64_def str_index_found Let_def)

text \<open>
  C32. The text of an amount is read back exactly when it has a fractional part or at most
  eight characters; every larger whole amount is refused as "unsupported precision".
\<close>

theorem StringToFixed64_String:
  fixes f :: Fixed64
  defines "m \<equiv> nat \<bar>sint f\<bar>"
  shows "StringToFixed64 (Fixed64_String f) =
    (if m mod 100000000 \<noteq> 0 \<or> m div 100000000 < (if sint f < 0 then 10000000 else 100000000)
     then (f, None) else (0, Some (ErrNew ''unsupported precision'')))"
proof -
  define p where "p = (if sint f < 0 then ''-'' else []) @ dec (m div 100000000)"
  have nodot: "CHR ''.'' \<notin> set p"
    using digits_no_punct [OF list_all_dec] by (auto simp: p_def)
  have parse: "ParseInt (p @ frac_pad (m mod 100000000)) = (sint f, None)"
    using ParseInt_amount [of f] by (simp add: p_def m_def)
  have len: "length p \<le> 8 \<longleftrightarrow> m div 100000000 < (if sint f < 0 then 10000000 else 100000000)"
    using length_dec_iff [of "m div 100000000" 6] length_dec_iff [of "m div 100000000" 7]
    by (simp add: p_def)
  have str: "Fixed64_String f = p @ (if m mod 100000000 = 0 then [] else ''.'' @ frac_pad (m mod 100000000))"
    by (simp add: Fixed64_String_alt Let_def p_def m_def)
  show ?thesis
  proof (cases "m mod 100000000 = 0")
    case True
    then show ?thesis using nodot parse len by (auto simp: str StringToFixed64_int split: if_splits)
  next
    case False
    then show ?thesis
      using StringToFixed64_frac [OF nodot, of "frac_pad (m mod 100000000)"] parse
      by (simp add: str frac_pad_props(1))
  qed
qed

theorem StringToFixed64_String_witness:
  "StringToFixed64 (Fixed64_String 150000000) = (150000000, None)"
  using StringToFixed64_String [of 150000000] by simp

lemma address_bytes:
  assumes "length t = 24"
  shows "big_Bytes (int (be_val (33 # t))) = 33 # t"
proof -
  have v: "be_val (33 # t) = 33 * 256 ^ 24 + be_val t" using assms by (simp add: be_val_Cons)
  have t: "be_val t < 256 ^ 24" using be_val_bound [of t] assms by simp
  have "num_bytes (be_val (33 # t)) = Suc 24"
    by (rule num_bytes_unique) (use v t in simp_all)
  then have "big_Bytes (int (be_val (33 # t))) = rev (le_bytes (length (rev (33 # t))) (le_val (rev (33 # t))))"
    using assms by (simp add: big_Bytes_def be_val_def)
  then show ?thesis by (simp only: le_bytes_le_val rev_rev_ident)
qed

text \<open>C33. An address that the program prints is read back as the same script hash.\<close>

theorem ToScriptHash_ToAddress:
  assumes "Uint160_ToAddress b58enc ph = (addr, None)"
    and "\<And>n. b58dec (fst (b58enc (dec n))) = (dec n, None)"
  shows "ToScriptHash b58enc b58dec addr = Some (ph, None)"
proof -
  define data where "data = 33 # Uint160_ToArray ph"
  define t where "t = Uint160_ToArray ph @ take 4 (sha256 (sha256 data))"
  have t: "length t = 24" by (simp add: t_def)
  have addr: "addr = fst (b58enc (dec (be_val (33 # t))))"
    using assms(1) by (auto simp: Uint160_ToAddress_def Let_def data_def t_def split: prod.splits option.splits)
  have "go_slice (33 # t) 1 21 = Some (Uint160_ToArray ph)"
    by (simp add: go_slice_def t_def)
  then show ?thesis using assms addr
    by (simp add: ToScriptHash_def dec_val_dec address_bytes [OF t] Uint160ParseFromBytes_ToArray)
qed

theorem ToScriptHash_ToAddress_witness:
  "ToScriptHash (\<lambda>s. (s, None)) (\<lambda>s. (s, None)) (fst (Uint160_ToAddress (\<lambda>s. (s, None)) 5)) = Some (5, None)"
  by (rule ToScriptHash_ToAddress) (simp_all add: Uint160_ToAddress_def Let_def)

end
