(* ===== verification/Transaction_Model.thy ===== *)
theory Transaction_Model
  imports Fixed_Amounts
begin

text \<open>
  \<^verbatim>\<open>core/transaction\<close> and the structures a transaction is made of: payloads
  (\<^verbatim>\<open>core/transaction/payload\<close>, \<^verbatim>\<open>core/asset\<close>, \<^verbatim>\<open>core/code\<close>), attributes, inputs, outputs and
  programs, with their wire codings. A serializer is the bytes it writes, paired with
  the error it returns where it can return one; a deserializer takes the object it
  fills in. The nil-able pointers are options: the payload of a transaction and the
  \<^verbatim>\<open>Code\<close> of a \<^verbatim>\<open>DeployCode\<close> payload.
\<close>

section \<open>Attributes, inputs, outputs, programs\<close>

record TxAttribute =
  at_Usage :: byte
  at_Data :: "byte list"
  at_Size :: u32

definition IsValidAttributeType :: "byte \<Rightarrow> bool" where
  "IsValidAttributeType usage \<longleftrightarrow> usage = 0x00 \<or> usage = 0x20 \<or> usage = 0x81 \<or> usage = 0x90"

definition TxAttribute_GetSize :: "TxAttribute \<Rightarrow> u32" where
  "TxAttribute_GetSize u =
     (if at_Usage u = 0x81 then word_of_nat (1 + 1 + length (at_Data u)) else 0)"

definition NewTxAttribute :: "byte \<Rightarrow> byte list \<Rightarrow> TxAttribute" where
  "NewTxAttribute u d =
     (let tx = \<lparr>at_Usage = u, at_Data = d, at_Size = 0\<rparr>
      in tx\<lparr>at_Size := TxAttribute_GetSize tx\<rparr>)"

definition TxAttribute_Serialize :: "TxAttribute \<Rightarrow> byte list \<times> goerr option" where
  "TxAttribute_Serialize tx =
     (if \<not> IsValidAttributeType (at_Usage tx)
      then (WriteUint8 (at_Usage tx),
            NewDetailErr (Some (ErrNew ''[TxAttribute] error'')) ErrNoCode ''Unsupported attribute Description.'')
      else (WriteUint8 (at_Usage tx) @ WriteVarBytes (at_Data tx), None))"

definition TxAttribute_Deserialize :: "TxAttribute \<Rightarrow> TxAttribute rdr" where
  "TxAttribute_Deserialize tx =
     rd_try_as (Detail ''Transaction attribute Usage deserialization error.'') (ReadBytes 1) tx (\<lambda>val.
       let tx = tx\<lparr>at_Usage := val ! 0\<rparr>
       in if \<not> IsValidAttributeType (at_Usage tx)
          then rd_fail tx (Detail ''Unsupported attribute Description.'' (ErrNew ''[TxAttribute] error''))
          else rd_obj (Detail ''Transaction attribute Data deserialization error.'') ReadVarBytes
                 (\<lambda>d. tx\<lparr>at_Data := d\<rparr>) (\<lambda>d. rd_ret (tx\<lparr>at_Data := d\<rparr>)))"

record TxOutput =
  to_AssetID :: Uint256
  to_Value :: Fixed64
  to_ProgramHash :: Uint160

definition TxOutput_Serialize :: "TxOutput \<Rightarrow> byte list" where
  "TxOutput_Serialize o' =
     Uint256_Serialize (to_AssetID o') @ Fixed64_Serialize (to_Value o') @ Uint160_Serialize (to_ProgramHash o')"

definition TxOutput_Deserialize :: "TxOutput \<Rightarrow> TxOutput rdr" where
  "TxOutput_Deserialize o' =
     rd_ign (Uint256_Deserialize (to_AssetID o')) (\<lambda>a.
     rd_ign (Fixed64_Deserialize (to_Value o')) (\<lambda>v.
     rd_ign (Uint160_Deserialize (to_ProgramHash o')) (\<lambda>p.
     rd_ret (o'\<lparr>to_AssetID := a, to_Value := v, to_ProgramHash := p\<rparr>))))"

record UTXOTxInput =
  ui_ReferTxID :: Uint256
  ui_ReferTxOutputIndex :: u16
  ui_Sequence :: u32

definition UTXOTxInput_Serialize :: "UTXOTxInput \<Rightarrow> byte list" where
  "UTXOTxInput_Serialize ui =
     Uint256_Serialize (ui_ReferTxID ui) @ WriteUint16 (ui_ReferTxOutputIndex ui) @ WriteUint32 (ui_Sequence ui)"

definition UTXOTxInput_Deserialize :: "UTXOTxInput \<Rightarrow> UTXOTxInput rdr" where
  "UTXOTxInput_Deserialize ui =
     rd_obj (\<lambda>e. e) (Uint256_Deserialize (ui_ReferTxID ui)) (\<lambda>h. ui\<lparr>ui_ReferTxID := h\<rparr>) (\<lambda>h.
     let ui = ui\<lparr>ui_ReferTxID := h\<rparr> in
     rd_obj (\<lambda>e. e) ReadUint16 (\<lambda>t. ui\<lparr>ui_ReferTxOutputIndex := t\<rparr>) (\<lambda>t.
     let ui = ui\<lparr>ui_ReferTxOutputIndex := t\<rparr> in
     rd_obj (\<lambda>e. e) ReadUint32 (\<lambda>s. ui\<lparr>ui_Sequence := s\<rparr>) (\<lambda>s.
     rd_ret (ui\<lparr>ui_Sequence := s\<rparr>))))"

text \<open>Two inputs are the same when they refer to the same output; \<open>None\<close> is a nil pointer.\<close>

definition UTXOTxInput_Equals :: "UTXOTxInput \<Rightarrow> UTXOTxInput option \<Rightarrow> bool" where
  "UTXOTxInput_Equals ui other =
     (case other of
        None \<Rightarrow> False
      | Some u \<Rightarrow> ui_ReferTxID ui = ui_ReferTxID u \<and> ui_ReferTxOutputIndex ui = ui_ReferTxOutputIndex u)"

record UTXOUnspent =
  uu_Txid :: Uint256
  uu_Index :: u32
  uu_Value :: Fixed64

definition UTXOUnspent_Serialize :: "UTXOUnspent \<Rightarrow> byte list" where
  "UTXOUnspent_Serialize uu =
     Uint256_Serialize (uu_Txid uu) @ WriteUint32 (uu_Index uu) @ Fixed64_Serialize (uu_Value uu)"

definition UTXOUnspent_Deserialize :: "UTXOUnspent \<Rightarrow> UTXOUnspent rdr" where
  "UTXOUnspent_Deserialize uu =
     rd_ign (Uint256_Deserialize (uu_Txid uu)) (\<lambda>h.
     let uu = uu\<lparr>uu_Txid := h\<rparr> in
     rd_obj (\<lambda>e. e) ReadUint32 (\<lambda>i. uu\<lparr>uu_Index := i\<rparr>) (\<lambda>i.
     let uu = uu\<lparr>uu_Index := i\<rparr> in
     rd_ign (Fixed64_Deserialize (uu_Value uu)) (\<lambda>v. rd_ret (uu\<lparr>uu_Value := v\<rparr>))))"

record BalanceTxInput =
  bi_AssetID :: Uint256
  bi_Value :: Fixed64
  bi_ProgramHash :: Uint160

definition BalanceTxInput_Serialize :: "BalanceTxInput \<Rightarrow> byte list" where
  "BalanceTxInput_Serialize bi =
     Uint256_Serialize (bi_AssetID bi) @ Fixed64_Serialize (bi_Value bi) @ Uint160_Serialize (bi_ProgramHash bi)"

definition BalanceTxInput_Deserialize :: "BalanceTxInput \<Rightarrow> BalanceTxInput rdr" where
  "BalanceTxInput_Deserialize bi =
     rd_obj (\<lambda>e. e) (Uint256_Deserialize (bi_AssetID bi)) (\<lambda>a. bi\<lparr>bi_AssetID := a\<rparr>) (\<lambda>a.
     let bi = bi\<lparr>bi_AssetID := a\<rparr> in
     rd_obj (\<lambda>e. e) (Fixed64_Deserialize (bi_Value bi)) (\<lambda>v. bi\<lparr>bi_Value := v\<rparr>) (\<lambda>v.
     let bi = bi\<lparr>bi_Value := v\<rparr> in
     rd_obj (\<lambda>e. e) (Uint160_Deserialize (bi_ProgramHash bi)) (\<lambda>p. bi\<lparr>bi_ProgramHash := p\<rparr>) (\<lambda>p.
     rd_ret (bi\<lparr>bi_ProgramHash := p\<rparr>))))"

record Program =
  pg_Code :: "byte list"
  pg_Parameter :: "byte list"

definition Program_Serialize :: "Program \<Rightarrow> byte list" where
  "Program_Serialize p = WriteVarBytes (pg_Parameter p) @ WriteVarBytes (pg_Code p)"

definition Program_Deserialize :: "Program \<Rightarrow> Program rdr" where
  "Program_Deserialize p =
     rd_try_as (Detail ''Execute Program Deserialize Parameter failed.'') ReadVarBytes p (\<lambda>parameter.
     let p = p\<lparr>pg_Parameter := parameter\<rparr> in
     rd_try_as (Detail ''Execute Program Deserialize Code failed.'') ReadVarBytes p (\<lambda>code.
     rd_ret (p\<lparr>pg_Code := code\<rparr>)))"

section \<open>Payloads\<close>

record Asset =
  as_Name :: "byte list"
  as_Description :: "byte list"
  as_Precision :: byte
  as_AssetType :: byte
  as_RecordType :: byte

definition Asset_Serialize :: "Asset \<Rightarrow> byte list" where
  "Asset_Serialize a =
     WriteVarString (as_Name a) @ WriteVarString (as_Description a) @
     [as_Precision a] @ [as_AssetType a] @ [as_RecordType a]"

text \<open>\<^verbatim>\<open>n, err := r.Read(p); if n > 0 {x = p[0]} else {return error}\<close>\<close>

definition rd_byte_or :: "goerr \<Rightarrow> byte rdr" where
  "rd_byte_or e r =
     (case rd_Read 1 r of (p, _, r') \<Rightarrow> if p \<noteq> [] then Some (p ! 0, None, r') else Some (0, Some e, r'))"

definition Asset_Deserialize :: "Asset \<Rightarrow> Asset rdr" where
  "Asset_Deserialize a =
     rd_try_as (\<lambda>_. Detail '''' (ErrNew ''[Asset], Name deserialize failed.'')) ReadVarString a (\<lambda>name.
     let a = a\<lparr>as_Name := name\<rparr> in
     rd_try_as (\<lambda>_. Detail '''' (ErrNew ''[Asset], Description deserialize failed.'')) ReadVarString a (\<lambda>description.
     let a = a\<lparr>as_Description := description\<rparr> in
     rd_try (rd_byte_or (Detail '''' (ErrNew ''[Asset], Precision deserialize failed.''))) a (\<lambda>p.
     let a = a\<lparr>as_Precision := p\<rparr> in
     rd_try (rd_byte_or (Detail '''' (ErrNew ''[Asset], AssetType deserialize failed.''))) a (\<lambda>p.
     let a = a\<lparr>as_AssetType := p\<rparr> in
     rd_try (rd_byte_or (Detail '''' (ErrNew ''[Asset], RecordType deserialize failed.''))) a (\<lambda>p.
     rd_ret (a\<lparr>as_RecordType := p\<rparr>))))))"

record FunctionCode =
  fc_Code :: "byte list"
  fc_ParameterTypes :: "byte list"
  fc_ReturnTypes :: "byte list"

definition FunctionCode_Serialize :: "FunctionCode \<Rightarrow> byte list" where
  "FunctionCode_Serialize fc = WriteVarBytes (fc_ParameterTypes fc) @ WriteVarBytes (fc_Code fc)"

text \<open>The receiver may be nil: the first assignment to one of its fields then panics.\<close>

definition FunctionCode_Deserialize :: "FunctionCode option \<Rightarrow> FunctionCode option rdr" where
  "FunctionCode_Deserialize fco =
     rd_try ReadVarBytes fco (\<lambda>p r.
       (case fco of
          None \<Rightarrow> panic
        | Some fc \<Rightarrow>
            (let fc = fc\<lparr>fc_ParameterTypes := p\<rparr>
             in rd_obj (\<lambda>e. e) ReadVarBytes (\<lambda>c. Some (fc\<lparr>fc_Code := c\<rparr>)) (\<lambda>c. rd_ret (Some (fc\<lparr>fc_Code := c\<rparr>))) r)))"

record RegisterAssetPayload =
  ra_Asset :: Asset
  ra_Amount :: Fixed64
  ra_Controller :: Uint160

record RecordPayload =
  rc_RecordType :: "byte list"
  rc_RecordData :: "byte list"

record DeployCodePayload =
  dc_Code :: "FunctionCode option"
  dc_Name :: "byte list"
  dc_CodeVersion :: "byte list"
  dc_Author :: "byte list"
  dc_Email :: "byte list"
  dc_Description :: "byte list"

datatype Payload =
    PCoinBase "byte list"
  | PRegisterAsset RegisterAssetPayload
  | PTransferAsset
  | PRecord RecordPayload
  | PDeployCode DeployCodePayload

definition CoinBase_Serialize :: "byte list \<Rightarrow> byte list" where
  "CoinBase_Serialize a = WriteVarBytes a"

definition CoinBase_Deserialize :: "byte list \<Rightarrow> byte list rdr" where
  "CoinBase_Deserialize a = ReadVarBytes"

definition RegisterAsset_Serialize :: "RegisterAssetPayload \<Rightarrow> byte list" where
  "RegisterAsset_Serialize a =
     Asset_Serialize (ra_Asset a) @ Fixed64_Serialize (ra_Amount a) @ Uint160_Serialize (ra_Controller a)"

definition new_Asset :: Asset where
  "new_Asset = \<lparr>as_Name = [], as_Description = [], as_Precision = 0, as_AssetType = 0, as_RecordType = 0\<rparr>"

definition RegisterAsset_Deserialize :: "RegisterAssetPayload \<Rightarrow> RegisterAssetPayload rdr" where
  "RegisterAsset_Deserialize a =
     rd_obj (Detail ''[RegisterAsset], Asset Deserialize failed.'') (Asset_Deserialize new_Asset)
       (\<lambda>x. a\<lparr>ra_Asset := x\<rparr>) (\<lambda>x.
     let a = a\<lparr>ra_Asset := x, ra_Amount := 0\<rparr> in
     rd_obj (Detail ''[RegisterAsset], Ammount Deserialize failed.'') (Fixed64_Deserialize (ra_Amount a))
       (\<lambda>v. a\<lparr>ra_Amount := v\<rparr>) (\<lambda>v.
     let a = a\<lparr>ra_Amount := v, ra_Controller := 0\<rparr> in
     rd_obj (Detail ''[RegisterAsset], Ammount Deserialize failed.'') (Uint160_Deserialize (ra_Controller a))
       (\<lambda>c. a\<lparr>ra_Controller := c\<rparr>) (\<lambda>c.
     rd_ret (a\<lparr>ra_Controller := c\<rparr>))))"

definition Record_Serialize :: "RecordPayload \<Rightarrow> byte list" where
  "Record_Serialize a = WriteVarString (rc_RecordType a) @ WriteVarBytes (rc_RecordData a)"

definition Record_Deserialize :: "RecordPayload \<Rightarrow> RecordPayload rdr" where
  "Record_Deserialize a =
     rd_obj (\<lambda>_. Detail '''' (ErrNew ''[RecordDetail], RecordType deserialize failed.'')) ReadVarString
       (\<lambda>t. a\<lparr>rc_RecordType := t\<rparr>) (\<lambda>t.
     let a = a\<lparr>rc_RecordType := t\<rparr> in
     rd_obj (\<lambda>_. Detail '''' (ErrNew ''[RecordDetail], RecordData deserialize failed.'')) ReadVarBytes
       (\<lambda>d. a\<lparr>rc_RecordData := d\<rparr>) (\<lambda>d.
     rd_ret (a\<lparr>rc_RecordData := d\<rparr>)))"

definition DeployCode_Serialize :: "DeployCodePayload \<Rightarrow> byte list go" where
  "DeployCode_Serialize dc =
     (case dc_Code dc of
        None \<Rightarrow> panic
      | Some fc \<Rightarrow>
          Some (FunctionCode_Serialize fc @ WriteVarString (dc_Name dc) @ WriteVarString (dc_CodeVersion dc) @
                WriteVarString (dc_Author dc) @ WriteVarString (dc_Email dc) @ WriteVarString (dc_Description dc)))"

definition DeployCode_Deserialize :: "DeployCodePayload \<Rightarrow> DeployCodePayload rdr" where
  "DeployCode_Deserialize dc =
     rd_obj (\<lambda>e. e) (FunctionCode_Deserialize (dc_Code dc)) (\<lambda>c. dc\<lparr>dc_Code := c\<rparr>) (\<lambda>c.
     let dc = dc\<lparr>dc_Code := c\<rparr> in
     rd_obj (\<lambda>e. e) ReadVarString (\<lambda>t. dc\<lparr>dc_Name := t\<rparr>) (\<lambda>t.
     let dc = dc\<lparr>dc_Name := t\<rparr> in
     rd_obj (\<lambda>e. e) ReadVarString (\<lambda>t. dc\<lparr>dc_CodeVersion := t\<rparr>) (\<lambda>t.
     let dc = dc\<lparr>dc_CodeVersion := t\<rparr> in
     rd_obj (\<lambda>e. e) ReadVarString (\<lambda>t. dc\<lparr>dc_Author := t\<rparr>) (\<lambda>t.
     let dc = dc\<lparr>dc_Author := t\<rparr> in
     rd_obj (\<lambda>e. e) ReadVarString (\<lambda>t. dc\<lparr>dc_Email := t\<rparr>) (\<lambda>t.
     let dc = dc\<lparr>dc_Email := t\<rparr> in
     rd_obj (\<lambda>e. e) ReadVarString (\<lambda>t. dc\<lparr>dc_Description := t\<rparr>) (\<lambda>t.
     rd_ret (dc\<lparr>dc_Description := t\<rparr>)))))))"

text \<open>The dynamic dispatch of the \<^verbatim>\<open>Payload\<close> interface.\<close>

fun Payload_Data :: "Payload \<Rightarrow> byte list" where
  "Payload_Data (PCoinBase d) = d"
| "Payload_Data (PRegisterAsset a) = [0]"
| "Payload_Data PTransferAsset = [0]"
| "Payload_Data (PRecord a) = [0]"
| "Payload_Data (PDeployCode a) = [0]"

fun Payload_Serialize :: "Payload \<Rightarrow> byte list go" where
  "Payload_Serialize (PCoinBase d) = Some (CoinBase_Serialize d)"
| "Payload_Serialize (PRegisterAsset a) = Some (RegisterAsset_Serialize a)"
| "Payload_Serialize PTransferAsset = Some []"
| "Payload_Serialize (PRecord a) = Some (Record_Serialize a)"
| "Payload_Serialize (PDeployCode dc) = DeployCode_Serialize dc"

fun Payload_Deserialize :: "Payload \<Rightarrow> Payload rdr" where
  "Payload_Deserialize (PCoinBase d) =
     rd_obj (\<lambda>e. e) (CoinBase_Deserialize d) PCoinBase (\<lambda>x. rd_ret (PCoinBase x))"
| "Payload_Deserialize (PRegisterAsset a) =
     rd_obj (\<lambda>e. e) (RegisterAsset_Deserialize a) PRegisterAsset (\<lambda>x. rd_ret (PRegisterAsset x))"
| "Payload_Deserialize PTransferAsset = rd_ret PTransferAsset"
| "Payload_Deserialize (PRecord a) =
     rd_obj (\<lambda>e. e) (Record_Deserialize a) PRecord (\<lambda>x. rd_ret (PRecord x))"
| "Payload_Deserialize (PDeployCode dc) =
     rd_obj (\<lambda>e. e) (DeployCode_Deserialize dc) PDeployCode (\<lambda>x. rd_ret (PDeployCode x))"

section \<open>Transactions\<close>

text \<open>
  \<^verbatim>\<open>TransactionType\<close> is a byte; the five named types are the ones a payload exists for.
  The fields of the structure that no code reads (the per-asset maps) are left out.
\<close>

abbreviation (input) CoinBase :: byte where "CoinBase \<equiv> 0x00"
abbreviation (input) RegisterAsset :: byte where "RegisterAsset \<equiv> 0x01"
abbreviation (input) TransferAsset :: byte where "TransferAsset \<equiv> 0x02"
abbreviation (input) TxRecord :: byte where "TxRecord \<equiv> 0x03"
abbreviation (input) Deploy :: byte where "Deploy \<equiv> 0x04"

record Transaction =
  tx_TxType :: byte
  tx_PayloadVersion :: byte
  tx_Payload :: "Payload option"
  tx_Attributes :: "TxAttribute list"
  tx_UTXOInputs :: "UTXOTxInput list"
  tx_BalanceInputs :: "BalanceTxInput list"
  tx_Outputs :: "TxOutput list"
  tx_LockTime :: u32
  tx_Programs :: "Program list"
  tx_Fee :: Fixed64
  tx_FeePerKB :: Fixed64
  tx_hash :: "Uint256 option"

definition new_Transaction :: Transaction where
  "new_Transaction =
     \<lparr>tx_TxType = 0, tx_PayloadVersion = 0, tx_Payload = None, tx_Attributes = [], tx_UTXOInputs = [],
      tx_BalanceInputs = [], tx_Outputs = [], tx_LockTime = 0, tx_Programs = [], tx_Fee = 0,
      tx_FeePerKB = 0, tx_hash = None\<rparr>"

definition SerializeUnsigned :: "Transaction \<Rightarrow> (byte list \<times> goerr option) go" where
  "SerializeUnsigned tx =
     (case tx_Payload tx of
        None \<Rightarrow> Some ([tx_TxType tx, tx_PayloadVersion tx], Some (ErrNew ''Transaction Payload is nil.''))
      | Some p \<Rightarrow> do {
          pb \<leftarrow> Payload_Serialize p;
          Some ([tx_TxType tx, tx_PayloadVersion tx] @ pb @
                WriteVarUint (word_of_nat (length (tx_Attributes tx))) @
                concat (map (\<lambda>a. fst (TxAttribute_Serialize a)) (tx_Attributes tx)) @
                WriteVarUint (word_of_nat (length (tx_UTXOInputs tx))) @
                concat (map UTXOTxInput_Serialize (tx_UTXOInputs tx)) @
                WriteVarUint (word_of_nat (length (tx_Outputs tx))) @
                concat (map TxOutput_Serialize (tx_Outputs tx)) @
                WriteUint32 (tx_LockTime tx), None) })"

definition Transaction_Serialize :: "Transaction \<Rightarrow> (byte list \<times> goerr option) go" where
  "Transaction_Serialize tx = do {
     (bs, err) \<leftarrow> SerializeUnsigned tx;
     (if err \<noteq> None
      then Some (bs, NewDetailErr err ErrNoCode ''Transaction txSerializeUnsigned Serialize failed.'')
      else Some (bs @ WriteVarUint (word_of_nat (length (tx_Programs tx))) @
                 concat (map Program_Serialize (tx_Programs tx)), None)) }"

definition new_TxAttribute :: TxAttribute where
  "new_TxAttribute = \<lparr>at_Usage = 0, at_Data = [], at_Size = 0\<rparr>"

definition new_UTXOTxInput :: UTXOTxInput where
  "new_UTXOTxInput = \<lparr>ui_ReferTxID = 0, ui_ReferTxOutputIndex = 0, ui_Sequence = 0\<rparr>"

definition new_TxOutput :: TxOutput where
  "new_TxOutput = \<lparr>to_AssetID = 0, to_Value = 0, to_ProgramHash = 0\<rparr>"

definition new_Program :: Program where
  "new_Program = \<lparr>pg_Code = [], pg_Parameter = []\<rparr>"

text \<open>The payload object that the type byte selects.\<close>

definition new_Payload :: "byte \<Rightarrow> Payload option" where
  "new_Payload t =
     (if t = CoinBase then Some (PCoinBase [])
      else if t = RegisterAsset
        then Some (PRegisterAsset \<lparr>ra_Asset = new_Asset, ra_Amount = 0, ra_Controller = 0\<rparr>)
      else if t = TransferAsset then Some PTransferAsset
      else if t = TxRecord then Some (PRecord \<lparr>rc_RecordType = [], rc_RecordData = []\<rparr>)
      else if t = Deploy
        then Some (PDeployCode \<lparr>dc_Code = None, dc_Name = [], dc_CodeVersion = [], dc_Author = [],
                                dc_Email = [], dc_Description = []\<rparr>)
      else None)"

text \<open>\<^verbatim>\<open>io.ReadFull\<close> into a one-byte array.\<close>

definition rd_full1 :: "byte rdr" where
  "rd_full1 r = (case rd_ReadFull 1 r of (p, e, r') \<Rightarrow> Some (p ! 0, e, r'))"

definition DeserializeUnsignedWithoutType :: "Transaction \<Rightarrow> Transaction rdr" where
  "DeserializeUnsignedWithoutType tx =
     rd_obj (\<lambda>e. e) rd_full1 (\<lambda>v. tx\<lparr>tx_PayloadVersion := v\<rparr>) (\<lambda>v.
     let tx = tx\<lparr>tx_PayloadVersion := v\<rparr> in
     (case new_Payload (tx_TxType tx) of
        None \<Rightarrow> rd_fail tx (ErrNew ''[Transaction], invalid transaction type.'')
      | Some p0 \<Rightarrow>
          rd_obj (Detail ''Payload Parse error'') (Payload_Deserialize p0) (\<lambda>p. tx\<lparr>tx_Payload := Some p\<rparr>) (\<lambda>p.
          let tx = tx\<lparr>tx_Payload := Some p\<rparr> in
          rd_try (ReadVarUint 0) tx (\<lambda>n.
          rd_obj (\<lambda>e. e) (read_checked (unat n) (TxAttribute_Deserialize new_TxAttribute))
            (\<lambda>xs. tx\<lparr>tx_Attributes := tx_Attributes tx @ xs\<rparr>) (\<lambda>xs.
          let tx = tx\<lparr>tx_Attributes := tx_Attributes tx @ xs\<rparr> in
          rd_try (ReadVarUint 0) tx (\<lambda>n.
          rd_obj (\<lambda>e. e) (read_checked (unat n) (UTXOTxInput_Deserialize new_UTXOTxInput))
            (\<lambda>xs. tx\<lparr>tx_UTXOInputs := tx_UTXOInputs tx @ xs\<rparr>) (\<lambda>xs.
          let tx = tx\<lparr>tx_UTXOInputs := tx_UTXOInputs tx @ xs\<rparr> in
          rd_try (ReadVarUint 0) tx (\<lambda>n.
          rd_ign (read_unchecked (unat n) (TxOutput_Deserialize new_TxOutput)) (\<lambda>xs.
          let tx = tx\<lparr>tx_Outputs := tx_Outputs tx @ xs\<rparr> in
          rd_obj (\<lambda>e. e) ReadUint32 (\<lambda>t. tx\<lparr>tx_LockTime := t\<rparr>) (\<lambda>t.
          rd_ret (tx\<lparr>tx_LockTime := t\<rparr>)))))))))))"

definition DeserializeUnsigned :: "Transaction \<Rightarrow> Transaction rdr" where
  "DeserializeUnsigned tx =
     rd_try rd_full1 tx (\<lambda>t. DeserializeUnsignedWithoutType (tx\<lparr>tx_TxType := t\<rparr>))"

text \<open>The number of programs is converted to a signed \<^verbatim>\<open>int\<close> before the loop.\<close>

definition Transaction_Deserialize :: "Transaction \<Rightarrow> Transaction rdr" where
  "Transaction_Deserialize tx =
     rd_obj (Detail ''transaction Deserialize error'') (DeserializeUnsigned tx) (\<lambda>tx. tx) (\<lambda>tx.
     rd_try_as (Detail ''transaction tx program Deserialize error'') (ReadVarUint 0) tx (\<lambda>lens.
     if lens > 0
     then rd_ign (read_unchecked (nat (sint lens)) (Program_Deserialize new_Program)) (\<lambda>ps.
            rd_ret (tx\<lparr>tx_Programs := ps\<rparr>))
     else rd_ret tx))"

definition Transaction_GetSize :: "Transaction \<Rightarrow> int go" where
  "Transaction_GetSize tx = do {
     (bs, err) \<leftarrow> Transaction_Serialize tx;
     Some (if err \<noteq> None then - 1 else int (length bs)) }"

definition GetHashData :: "Transaction \<Rightarrow> byte list go" where
  "GetHashData tx = do { (bs, err) \<leftarrow> SerializeUnsigned tx; Some bs }"

text \<open>The hash is computed once and kept in the transaction.\<close>

definition Transaction_Hash :: "Transaction \<Rightarrow> (Uint256 \<times> Transaction) go" where
  "Transaction_Hash tx =
     (case tx_hash tx of
        Some h \<Rightarrow> Some (h, tx)
      | None \<Rightarrow> do {
          d \<leftarrow> GetHashData tx;
          let f = hash256 (sha256 d);
          Some (f, tx\<lparr>tx_hash := Some f\<rparr>) })"

definition IsCoinBaseTx :: "Transaction \<Rightarrow> bool" where
  "IsCoinBaseTx tx \<longleftrightarrow> tx_TxType tx = CoinBase"

section \<open>Round trips of the parts\<close>

lemmas field_rt =
  u256.roundtrip u160.roundtrip fix64.roundtrip serialization_rt

interpretation txout: fixed_codec TxOutput_Serialize "TxOutput_Deserialize z" 60
  by unfold_locales
     (simp_all add: TxOutput_Serialize_def TxOutput_Deserialize_def rd_run field_rt
        u256.width u160.width fix64.width)

interpretation utxoin: fixed_codec UTXOTxInput_Serialize "UTXOTxInput_Deserialize z" 38
  by unfold_locales
     (simp_all add: UTXOTxInput_Serialize_def UTXOTxInput_Deserialize_def rd_run field_rt
        u256.width uint16.width uint32.width Let_def)

interpretation unspent: fixed_codec UTXOUnspent_Serialize "UTXOUnspent_Deserialize z" 44
  by unfold_locales
     (simp_all add: UTXOUnspent_Serialize_def UTXOUnspent_Deserialize_def rd_run field_rt
        u256.width uint32.width fix64.width Let_def)

interpretation balin: fixed_codec BalanceTxInput_Serialize "BalanceTxInput_Deserialize z" 60
  by unfold_locales
     (simp_all add: BalanceTxInput_Serialize_def BalanceTxInput_Deserialize_def rd_run field_rt
        u256.width u160.width fix64.width Let_def)

definition program_ok :: "Program \<Rightarrow> bool" where
  "program_ok p \<longleftrightarrow> bytes_ok (pg_Parameter p) \<and> bytes_ok (pg_Code p)"

interpretation prog: codec Program_Serialize "Program_Deserialize z" program_ok
  by unfold_locales
     (simp add: Program_Serialize_def Program_Deserialize_def rd_run field_rt program_ok_def Let_def)

definition attribute_ok :: "TxAttribute \<Rightarrow> bool" where
  "attribute_ok a \<longleftrightarrow> IsValidAttributeType (at_Usage a) \<and> bytes_ok (at_Data a) \<and> at_Size a = 0"

lemma ReadBytes_1: "ReadBytes 1 (Rd k (b # rest)) = Some ([b], None, Rd k rest)"
  by (simp add: ReadBytes_def byteXReader_def go_make_def maxAlloc_def rd_run rd_Read.simps)

interpretation attr: codec "\<lambda>a. fst (TxAttribute_Serialize a)"
  "TxAttribute_Deserialize new_TxAttribute" attribute_ok
  by unfold_locales
     (simp add: TxAttribute_Serialize_def TxAttribute_Deserialize_def rd_run field_rt attribute_ok_def
        new_TxAttribute_def WriteUint8_def ReadBytes_1 [simplified] Let_def)

definition asset_ok :: "Asset \<Rightarrow> bool" where
  "asset_ok a \<longleftrightarrow> bytes_ok (as_Name a) \<and> bytes_ok (as_Description a)"

lemma rd_byte_or_Cons: "rd_byte_or e (Rd k (b # rest)) = Some (b, None, Rd k rest)"
  by (simp add: rd_byte_or_def rd_Read.simps)

interpretation asset: codec Asset_Serialize "Asset_Deserialize z" asset_ok
  by unfold_locales
     (simp add: Asset_Serialize_def Asset_Deserialize_def rd_run field_rt rd_byte_or_Cons asset_ok_def
        Let_def)

interpretation fcode: codec "\<lambda>fc. case fc of None \<Rightarrow> [] | Some c \<Rightarrow> FunctionCode_Serialize c"
  "FunctionCode_Deserialize (Some z)"
  "\<lambda>fc. case fc of None \<Rightarrow> False
     | Some c \<Rightarrow> bytes_ok (fc_ParameterTypes c) \<and> bytes_ok (fc_Code c) \<and> fc_ReturnTypes c = fc_ReturnTypes z"
  by unfold_locales
     (auto simp: FunctionCode_Serialize_def FunctionCode_Deserialize_def rd_run field_rt Let_def
        split: option.splits)

text \<open>The payloads that the wire format carries: their kind agrees with the type byte.\<close>

fun payload_ok :: "byte \<Rightarrow> Payload \<Rightarrow> bool" where
  "payload_ok t (PCoinBase d) \<longleftrightarrow> t = CoinBase \<and> bytes_ok d"
| "payload_ok t (PRegisterAsset a) \<longleftrightarrow> t = RegisterAsset \<and> asset_ok (ra_Asset a)"
| "payload_ok t PTransferAsset \<longleftrightarrow> t = TransferAsset"
| "payload_ok t (PRecord a) \<longleftrightarrow> t = TxRecord \<and> bytes_ok (rc_RecordType a) \<and> bytes_ok (rc_RecordData a)"
| "payload_ok t (PDeployCode dc) \<longleftrightarrow> False"

lemma Payload_roundtrip:
  assumes "payload_ok t p"
  shows "\<exists>p0 bs. new_Payload t = Some p0 \<and> Payload_Serialize p = Some bs \<and>
     (\<forall>k rest. roomy k rest \<longrightarrow> Payload_Deserialize p0 (Rd k (bs @ rest)) = Some (p, None, Rd k rest))"
  using assms
  by (cases p)
     (simp_all add: new_Payload_def CoinBase_Serialize_def CoinBase_Deserialize_def rd_run field_rt
        RegisterAsset_Serialize_def RegisterAsset_Deserialize_def asset.roundtrip
        Record_Serialize_def Record_Deserialize_def Let_def)

section \<open>Round trip of a transaction\<close>

text \<open>
  The transactions that are read back as they were: the payload is not a \<^verbatim>\<open>Deploy\<close> and belongs to the type,
  the attributes have known usages, byte strings and lists are short enough, and the fields that are
  not written (\<open>wire_form\<close> below) have the values of a new transaction.
\<close>

definition transaction_ok :: "Transaction \<Rightarrow> bool" where
  "transaction_ok tx \<longleftrightarrow>
     (case tx_Payload tx of None \<Rightarrow> False | Some p \<Rightarrow> payload_ok (tx_TxType tx) p) \<and>
     list_all attribute_ok (tx_Attributes tx) \<and> length (tx_Attributes tx) < 2 ^ 64 \<and>
     length (tx_UTXOInputs tx) < 2 ^ 64 \<and> tx_BalanceInputs tx = [] \<and>
     length (tx_Outputs tx) < 2 ^ 64 \<and>
     list_all program_ok (tx_Programs tx) \<and> length (tx_Programs tx) < 2 ^ 63 \<and>
     tx_Fee tx = 0 \<and> tx_FeePerKB tx = 0 \<and> tx_hash tx = None"

text \<open>The transaction without its programs, which is what is signed and hashed.\<close>

definition unsigned :: "Transaction \<Rightarrow> Transaction" where
  "unsigned tx = tx\<lparr>tx_Programs := []\<rparr>"

lemma rd_full1_Cons: "rd_full1 (Rd k (b # rest)) = Some (b, None, Rd k rest)"
  by (simp add: rd_full1_def rd_ReadFull.simps)

lemma unat_len64: "n < 2 ^ 64 \<Longrightarrow> unat (word_of_nat n :: u64) = n"
  by (rule unat_of_nat_small) simp

lemma roomy_prefix: "xs \<noteq> [] \<Longrightarrow> roomy k (xs @ rest)"
  by (simp add: roomy_def)

lemma unsigned_roundtrip:
  assumes "transaction_ok tx"
  shows "\<exists>bs. SerializeUnsigned tx = Some (bs, None) \<and>
    (\<forall>k rest. DeserializeUnsigned new_Transaction (Rd k (bs @ rest)) = Some (unsigned tx, None, Rd k rest))"
proof -
  obtain p where p: "tx_Payload tx = Some p" "payload_ok (tx_TxType tx) p"
    using assms by (auto simp: transaction_ok_def split: option.splits)
  obtain p0 pb where pb: "new_Payload (tx_TxType tx) = Some p0" "Payload_Serialize p = Some pb"
    and prt: "\<And>k rest. roomy k rest \<Longrightarrow> Payload_Deserialize p0 (Rd k (pb @ rest)) = Some (p, None, Rd k rest)"
    using Payload_roundtrip [OF p(2)] by blast
  have len: "unat (word_of_nat (length (tx_Attributes tx)) :: u64) = length (tx_Attributes tx)"
    "unat (word_of_nat (length (tx_UTXOInputs tx)) :: u64) = length (tx_UTXOInputs tx)"
    "unat (word_of_nat (length (tx_Outputs tx)) :: u64) = length (tx_Outputs tx)"
    using assms by (simp_all add: transaction_ok_def unat_len64)
  have ne: "WriteUint32 t \<noteq> []" for t by (simp add: WriteUint32_def)
  have ok: "list_all attribute_ok (tx_Attributes tx)" using assms by (simp add: transaction_ok_def)
  have "tx_BalanceInputs tx = []" "tx_Fee tx = 0" "tx_FeePerKB tx = 0" "tx_hash tx = None"
    using assms by (simp_all add: transaction_ok_def)
  then have fresh: "unsigned tx = new_Transaction\<lparr>tx_TxType := tx_TxType tx, tx_PayloadVersion := tx_PayloadVersion tx,
      tx_Payload := Some p, tx_Attributes := tx_Attributes tx, tx_UTXOInputs := tx_UTXOInputs tx,
      tx_Outputs := tx_Outputs tx, tx_LockTime := tx_LockTime tx\<rparr>"
    by (simp add: unsigned_def new_Transaction_def p(1))
  show ?thesis
    by (simp add: SerializeUnsigned_def p(1) pb DeserializeUnsigned_def DeserializeUnsignedWithoutType_def
        rd_run rd_full1_Cons prt roomy_prefix ne field_rt len Let_def ok
        attr.read_checked_roundtrip utxoin.any.read_checked_roundtrip txout.any.read_unchecked_roundtrip fresh)
       (simp add: new_Transaction_def)
qed

text \<open>The bytes of a transaction on the wire, as the code that embeds one writes them.\<close>

definition tx_wire :: "Transaction \<Rightarrow> byte list" where
  "tx_wire tx = (case Transaction_Serialize tx of None \<Rightarrow> [] | Some (bs, _) \<Rightarrow> bs)"

lemma Transaction_codec:
  assumes "transaction_ok tx" and "roomy k rest"
  shows "Transaction_Serialize tx = Some (tx_wire tx, None) \<and>
    Transaction_Deserialize new_Transaction (Rd k (tx_wire tx @ rest)) = Some (tx, None, Rd k rest)"
proof -
  obtain bs where bs: "SerializeUnsigned tx = Some (bs, None)"
    and rt: "\<And>k rest. DeserializeUnsigned new_Transaction (Rd k (bs @ rest)) = Some (unsigned tx, None, Rd k rest)"
    using unsigned_roundtrip [OF assms(1)] by blast
  define n where "n = (word_of_nat (length (tx_Programs tx)) :: u64)"
  have progs: "list_all program_ok (tx_Programs tx)" and short: "length (tx_Programs tx) < 2 ^ 63"
    using assms(1) by (simp_all add: transaction_ok_def)
  have un: "unat n = length (tx_Programs tx)"
    unfolding n_def by (rule unat_len64) (use short in simp)
  have "uint n < 2 ^ 63" using un short by (simp add: uint_nat)
  then have sn: "nat (sint n) = length (tx_Programs tx)"
    using un by (simp add: sint_uint uint_nat signed_take_bit_int_eq_self)
  have zero: "0 < n \<longleftrightarrow> tx_Programs tx \<noteq> []" using un by (simp add: word_less_nat_alt)
  have same: "(unsigned tx)\<lparr>tx_Programs := tx_Programs tx\<rparr> = tx" "tx_Programs tx = [] \<Longrightarrow> unsigned tx = tx"
    by (simp_all add: unsigned_def)
  have "Transaction_Serialize tx = Some (bs @ WriteVarUint n @ concat (map Program_Serialize (tx_Programs tx)), None)"
    by (simp add: Transaction_Serialize_def bs n_def)
  then show ?thesis
    using assms(2)
    by (simp add: tx_wire_def Transaction_Deserialize_def rd_run rt field_rt sn zero
        prog.read_unchecked_roundtrip [OF progs] same)
qed

interpretation txn: codec tx_wire "Transaction_Deserialize new_Transaction" transaction_ok
  by unfold_locales (simp add: Transaction_codec)

definition sample_tx :: Transaction where
  "sample_tx = new_Transaction
     \<lparr>tx_TxType := TransferAsset, tx_Payload := Some PTransferAsset,
      tx_Attributes := [\<lparr>at_Usage = 0x90, at_Data = [1, 2, 3], at_Size = 0\<rparr>],
      tx_UTXOInputs := [\<lparr>ui_ReferTxID = 77, ui_ReferTxOutputIndex = 1, ui_Sequence = 5\<rparr>],
      tx_Outputs := [\<lparr>to_AssetID = 9, to_Value = 100000000, to_ProgramHash = 4660\<rparr>],
      tx_Programs := [\<lparr>pg_Code = [0x51, 0xac], pg_Parameter = []\<rparr>]\<rparr>"

lemma sample_tx_ok: "transaction_ok sample_tx"
  by (simp add: sample_tx_def transaction_ok_def new_Transaction_def attribute_ok_def program_ok_def
      IsValidAttributeType_def bytes_ok_def maxAlloc_def)

text \<open>
  What the bytes of a transaction keep of it: the balance inputs, the fees, the sizes of the
  attributes and the cached hash are not written.
\<close>

definition wire_form :: "Transaction \<Rightarrow> Transaction" where
  "wire_form tx = tx\<lparr>tx_Attributes := map (\<lambda>a. a\<lparr>at_Size := 0\<rparr>) (tx_Attributes tx), tx_BalanceInputs := [],
     tx_Fee := 0, tx_FeePerKB := 0, tx_hash := None\<rparr>"

lemma wire_form_simps [simp]:
  "tx_TxType (wire_form tx) = tx_TxType tx" "tx_PayloadVersion (wire_form tx) = tx_PayloadVersion tx"
  "tx_Payload (wire_form tx) = tx_Payload tx" "tx_Attributes (wire_form tx) = map (\<lambda>a. a\<lparr>at_Size := 0\<rparr>) (tx_Attributes tx)"
  "tx_UTXOInputs (wire_form tx) = tx_UTXOInputs tx" "tx_Outputs (wire_form tx) = tx_Outputs tx"
  "tx_LockTime (wire_form tx) = tx_LockTime tx" "tx_Programs (wire_form tx) = tx_Programs tx"
  by (simp_all add: wire_form_def)

lemma TxAttribute_Serialize_size: "TxAttribute_Serialize (a\<lparr>at_Size := n\<rparr>) = TxAttribute_Serialize a"
  by (simp add: TxAttribute_Serialize_def)

lemma SerializeUnsigned_wire_form: "SerializeUnsigned (wire_form tx) = SerializeUnsigned tx"
  unfolding SerializeUnsigned_def wire_form_simps length_map map_map o_def TxAttribute_Serialize_size ..

lemma Serialize_wire_form: "Transaction_Serialize (wire_form tx) = Transaction_Serialize tx"
  unfolding Transaction_Serialize_def SerializeUnsigned_wire_form wire_form_simps ..

lemma sample_fees_ok: "transaction_ok (wire_form (sample_tx\<lparr>tx_Fee := 5, tx_hash := Some 8, tx_Programs := ps\<rparr>)) \<longleftrightarrow>
    list_all program_ok ps \<and> length ps < 2 ^ 63"
  using sample_tx_ok by (simp add: sample_tx_def transaction_ok_def wire_form_def)

text \<open>
  C15. A transaction other than a \<^verbatim>\<open>Deploy\<close>, with attributes of known usages and byte strings that can be
  allocated, is read back from what \<^verbatim>\<open>Serialize\<close> wrote, and nothing after it is consumed. The result is what the
  bytes keep of it: all but the balance inputs, the fees, the sizes of the attributes and the cached
  hash, which are those of a new transaction.
\<close>

theorem Transaction_roundtrip:
  assumes "transaction_ok (wire_form tx)" and "roomy k rest"
  shows "\<exists>bs. Transaction_Serialize tx = Some (bs, None) \<and>
    Transaction_Deserialize new_Transaction (Rd k (bs @ rest)) = Some (wire_form tx, None, Rd k rest)"
  using Transaction_codec [OF assms] unfolding Serialize_wire_form by blast

theorem Transaction_roundtrip_witness:
  "\<exists>bs. Transaction_Serialize (sample_tx\<lparr>tx_Fee := 5, tx_hash := Some 8, tx_Programs := []\<rparr>) = Some (bs, None) \<and>
     Transaction_Deserialize new_Transaction (Rd BytesReader (bs @ [7])) =
       Some (wire_form (sample_tx\<lparr>tx_Fee := 5, tx_hash := Some 8, tx_Programs := []\<rparr>), None, Rd BytesReader [7])"
  by (rule Transaction_roundtrip) (simp_all add: sample_fees_ok)

text \<open>
  C16. The hashed and signed bytes of a transaction determine its type, payload and payload version,
  attributes, inputs, outputs and lock time: two transactions other than a \<^verbatim>\<open>Deploy\<close>, with attributes of
  known usages and byte strings that can be allocated, that have the same \<^verbatim>\<open>GetHashData\<close> agree in all that
  the bytes of a transaction keep, but for the programs.
\<close>

theorem GetHashData_inj:
  assumes "transaction_ok (wire_form t1)" and "transaction_ok (wire_form t2)" and "GetHashData t1 = GetHashData t2"
  shows "unsigned (wire_form t1) = unsigned (wire_form t2)"
proof -
  obtain b1 where b1: "SerializeUnsigned t1 = Some (b1, None)"
    "DeserializeUnsigned new_Transaction (Rd BytesBuffer (b1 @ [])) = Some (unsigned (wire_form t1), None, Rd BytesBuffer [])"
    using unsigned_roundtrip [OF assms(1)] unfolding SerializeUnsigned_wire_form by blast
  obtain b2 where b2: "SerializeUnsigned t2 = Some (b2, None)"
    "DeserializeUnsigned new_Transaction (Rd BytesBuffer (b2 @ [])) = Some (unsigned (wire_form t2), None, Rd BytesBuffer [])"
    using unsigned_roundtrip [OF assms(2)] unfolding SerializeUnsigned_wire_form by blast
  have "b1 = b2" using assms(3) b1(1) b2(1) by (simp add: GetHashData_def)
  with b1(2) b2(2) show ?thesis by simp
qed

theorem GetHashData_inj_witness:
  "unsigned (wire_form (sample_tx\<lparr>tx_Fee := 5, tx_hash := Some 8, tx_Programs := [\<lparr>pg_Code = [], pg_Parameter = []\<rparr>]\<rparr>)) =
   unsigned (wire_form (sample_tx\<lparr>tx_Fee := 5, tx_hash := Some 8, tx_Programs := []\<rparr>))"
  by (rule GetHashData_inj)
     (simp_all add: sample_fees_ok program_ok_def bytes_ok_def maxAlloc_def,
      simp add: GetHashData_def SerializeUnsigned_def sample_tx_def)

text \<open>
  C36. A \<^verbatim>\<open>Deploy\<close> transaction cannot be received: as soon as its first byte string has been
  read, \<^verbatim>\<open>DeployCode.Deserialize\<close> stores into a nil \<^verbatim>\<open>FunctionCode\<close> and panics.
\<close>

theorem Deploy_deserialize_panics:
  assumes "bytes_ok d" and "roomy k rest"
  shows "Transaction_Deserialize new_Transaction (Rd k (Deploy # v # WriteVarBytes d @ rest)) = panic"
  using assms
  by (simp add: Transaction_Deserialize_def DeserializeUnsigned_def DeserializeUnsignedWithoutType_def
      rd_run rd_full1_Cons new_Transaction_def new_Payload_def DeployCode_Deserialize_def
      FunctionCode_Deserialize_def field_rt Let_def)

theorem Deploy_deserialize_panics_witness:
  "Transaction_Deserialize new_Transaction (Rd BytesReader (4 # 0 # WriteVarBytes [1] @ [0])) = panic"
  by (rule Deploy_deserialize_panics) (simp_all add: bytes_ok_def maxAlloc_def)

end
