(* ===== verification/Transaction_Ops.thy ===== *)
theory Transaction_Ops
  imports Transaction_Model
begin

text \<open>
  The operations of \<^verbatim>\<open>core/transaction/transaction.go\<close> beyond the wire format, and the
  constructors of \<^verbatim>\<open>TransactionBuilder.go\<close>: the outputs a transaction refers to, its balance
  per asset, the script hashes that must sign it, and the handling of signature scripts.
  \<^verbatim>\<open>TxStore.GetTransaction\<close>, the ledger's lookup, is the argument \<open>getTx\<close>, which
  may panic on the stored bytes; Go maps whose
  iteration order the results do not depend on are association lists in input order or
  functions to options.
\<close>

section \<open>References and balances\<close>

type_synonym tx_lookup = "Uint256 \<Rightarrow> (goerr + Transaction \<times> u32) go"

fun GetReference_loop :: "tx_lookup \<Rightarrow> UTXOTxInput list \<Rightarrow> (goerr + (UTXOTxInput \<times> TxOutput) list) go" where
  "GetReference_loop getTx [] = Some (Inr [])"
| "GetReference_loop getTx (utxo # us) = do {
     r \<leftarrow> getTx (ui_ReferTxID utxo);
     (case r of
        Inl err \<Rightarrow> Some (Inl (Detail ''[Transaction], GetReference failed.'' err))
      | Inr (transaction, _) \<Rightarrow>
          let index = unat (ui_ReferTxOutputIndex utxo)
          in if index \<ge> length (tx_Outputs transaction)
             then Some (Inl (ErrNew ''[Transaction], GetReference failed, refIdx out of range.''))
             else do {
               r \<leftarrow> GetReference_loop getTx us;
               Some (case r of
                       Inl err \<Rightarrow> Inl err
                     | Inr rest \<Rightarrow> Inr ((utxo, tx_Outputs transaction ! index) # rest)) }) }"

definition GetReference :: "tx_lookup \<Rightarrow> Transaction \<Rightarrow> (goerr + (UTXOTxInput \<times> TxOutput) list) go" where
  "GetReference getTx tx =
     (if tx_TxType tx = RegisterAsset then Some (Inr []) else GetReference_loop getTx (tx_UTXOInputs tx))"

type_synonym TransactionResult = "Uint256 \<Rightarrow> Fixed64 option"

text \<open>The loop that accumulates amounts per asset, shared by outputs and references.\<close>

fun merge_amounts :: "TransactionResult \<Rightarrow> TxOutput list \<Rightarrow> TransactionResult" where
  "merge_amounts result [] = result"
| "merge_amounts result (v # vs) =
     merge_amounts
       (case result (to_AssetID v) of
          Some amout \<Rightarrow> result(to_AssetID v \<mapsto> amout + to_Value v)
        | None \<Rightarrow> result(to_AssetID v \<mapsto> to_Value v)) vs"

definition GetMergedAssetIDValueFromOutputs :: "Transaction \<Rightarrow> TransactionResult" where
  "GetMergedAssetIDValueFromOutputs tx = merge_amounts Map.empty (tx_Outputs tx)"

definition GetMergedAssetIDValueFromReference :: "tx_lookup \<Rightarrow> Transaction \<Rightarrow> (goerr + TransactionResult) go" where
  "GetMergedAssetIDValueFromReference getTx tx = do {
     r \<leftarrow> GetReference getTx tx;
     Some (case r of
             Inl err \<Rightarrow> Inl err
           | Inr reference \<Rightarrow> Inr (merge_amounts Map.empty (map snd reference))) }"

text \<open>
  Inputs minus outputs per asset. The two loops over maps assign each key once, so their
  result is the function below whatever the iteration order.
\<close>

definition GetTransactionResults :: "tx_lookup \<Rightarrow> Transaction \<Rightarrow> (goerr + TransactionResult) go" where
  "GetTransactionResults getTx tx =
     (let outputResult = GetMergedAssetIDValueFromOutputs tx
      in do {
        r \<leftarrow> GetMergedAssetIDValueFromReference getTx tx;
        Some (case r of
           Inl err \<Rightarrow> Inl err
         | Inr InputResult \<Rightarrow>
             Inr (\<lambda>a. (case outputResult a of
                         Some outputValue \<Rightarrow>
                           (case InputResult a of
                              Some inputValue \<Rightarrow> Some (inputValue - outputValue)
                            | None \<Rightarrow> Some (0 - outputValue))
                       | None \<Rightarrow>
                           (case InputResult a of
                              Some inputValue \<Rightarrow> Some (0 + inputValue)
                            | None \<Rightarrow> None)))) })"

definition GetFee :: "tx_lookup \<Rightarrow> Transaction \<Rightarrow> Uint256 \<Rightarrow> Fixed64 go" where
  "GetFee getTx tx assetID = do {
     r \<leftarrow> GetTransactionResults getTx tx;
     Some (case r of
             Inl err \<Rightarrow> 0
           | Inr res \<Rightarrow> (case res assetID of Some v \<Rightarrow> v | None \<Rightarrow> 0)) }"

section \<open>Script hashes\<close>

fun script_hashes :: "TxAttribute list \<Rightarrow> goerr + Uint160 list" where
  "script_hashes [] = Inr []"
| "script_hashes (a # as) =
     (if at_Usage a = 0x20
      then (case Uint160ParseFromBytes (at_Data a) of
              (_, Some err) \<Rightarrow> Inl (Detail '''' (ErrNew ''[Transaction], GetProgramHashes err.''))
            | (dataHash, None) \<Rightarrow>
                (case script_hashes as of Inl e \<Rightarrow> Inl e | Inr hs \<Rightarrow> Inr (dataHash # hs)))
      else script_hashes as)"

definition byProgramHashes_Less :: "Uint160 \<Rightarrow> Uint160 \<Rightarrow> bool" where
  "byProgramHashes_Less x y = (if Uint160_CompareTo x y > 0 then False else True)"

text \<open>\<^verbatim>\<open>sort.Sort\<close> of the keys of the duplicate-removing map.\<close>

definition sort_hashes :: "Uint160 list \<Rightarrow> Uint160 list" where
  "sort_hashes hs = sort (remdups hs)"

definition GetProgramHashes :: "tx_lookup \<Rightarrow> Transaction \<Rightarrow> (goerr + Uint160 list) go" where
  "GetProgramHashes getTx tx = do {
     r \<leftarrow> GetReference getTx tx;
     Some (case r of
        Inl err \<Rightarrow> Inl (Detail ''[Transaction], GetProgramHashes failed.'' err)
      | Inr reference \<Rightarrow>
          (case script_hashes (tx_Attributes tx) of
             Inl err \<Rightarrow> Inl err
           | Inr hs \<Rightarrow> Inr (sort_hashes (map (\<lambda>(_, out). to_ProgramHash out) reference @ hs)))) }"

section \<open>Signature scripts\<close>

abbreviation (input) PublickKeyScriptLen :: nat where "PublickKeyScriptLen \<equiv> 35"
abbreviation (input) SignatureScriptLen :: nat where "SignatureScriptLen \<equiv> 65"
abbreviation (input) MinMultisigCodeLen :: nat where "MinMultisigCodeLen \<equiv> 105"

function multisig_hashes :: "(byte list \<Rightarrow> byte list) \<Rightarrow> byte list \<Rightarrow> Uint160 list" where
  "multisig_hashes ripemd160 code =
     (if code = [] then []
      else fst (ToCodeHash ripemd160 (take (PublickKeyScriptLen - 1) code @ [0xac]))
           # multisig_hashes ripemd160 (drop (PublickKeyScriptLen - 1) code))"
  by pat_completeness auto
termination
  by (relation "measure (\<lambda>(r, code). length code)") auto

declare multisig_hashes.simps [simp del]

definition ParseMultisigTransactionCode :: "(byte list \<Rightarrow> byte list) \<Rightarrow> byte list \<Rightarrow> Uint160 list option" where
  "ParseMultisigTransactionCode ripemd160 code =
     (if length code < MinMultisigCodeLen then None
      else let code = butlast code; code = drop 1 code; code = butlast code
           in if length code mod (PublickKeyScriptLen - 1) \<noteq> 0 then None
              else Some (multisig_hashes ripemd160 code))"

definition ParseTransactionCode :: "(byte list \<Rightarrow> byte list) \<Rightarrow> Transaction \<Rightarrow> Uint160 list option go" where
  "ParseTransactionCode ripemd160 tx =
     (case tx_Programs tx of
        [] \<Rightarrow> panic
      | p # _ \<Rightarrow> Some (ParseMultisigTransactionCode ripemd160 (pg_Code p)))"

definition ParseTransactionSig :: "Transaction \<Rightarrow> int \<times> int \<times> goerr option" where
  "ParseTransactionSig tx =
     (case tx_Programs tx of
        [] \<Rightarrow> (- 1, - 1, Some (ErrNew ''missing transation program''))
      | p # _ \<Rightarrow> (int (length (pg_Parameter p) div SignatureScriptLen),
                  int (length (pg_Parameter p) mod SignatureScriptLen), None))"

definition AppendNewSignature :: "Transaction \<Rightarrow> byte list \<Rightarrow> (Transaction \<times> goerr option) go" where
  "AppendNewSignature tx sig =
     (case tx_Programs tx of
        [] \<Rightarrow> Some (tx, Some (ErrNew ''missing transation program''))
      | p # ps \<Rightarrow>
          let newsig = word_of_nat (length sig) # sig
          in case ParseTransactionSig tx of
               (havesig, _, Some err) \<Rightarrow> Some (tx, Some err)
             | (havesig, _, None) \<Rightarrow> do {
                 existedsigs \<leftarrow> go_slice (pg_Parameter p) 0 (nat havesig * SignatureScriptLen);
                 leftsigs \<leftarrow> go_slice (pg_Parameter p) (nat havesig * SignatureScriptLen + 1) (length (pg_Parameter p));
                 Some (tx\<lparr>tx_Programs := p\<lparr>pg_Parameter := existedsigs @ newsig @ leftsigs\<rparr> # ps\<rparr>, None) })"

section \<open>Constructors\<close>

definition NewCoinBaseTransaction :: "byte list \<Rightarrow> u32 \<Rightarrow> Transaction" where
  "NewCoinBaseTransaction coinBasePayload currentHeight =
     new_Transaction\<lparr>tx_TxType := CoinBase, tx_PayloadVersion := 0x04, tx_Payload := Some (PCoinBase coinBasePayload),
       tx_UTXOInputs := [\<lparr>ui_ReferTxID = 0, ui_ReferTxOutputIndex = 0x0000, ui_Sequence = 0x00000000\<rparr>],
       tx_LockTime := currentHeight\<rparr>"

definition NewTransferAssetTransaction :: "UTXOTxInput list \<Rightarrow> TxOutput list \<Rightarrow> Transaction" where
  "NewTransferAssetTransaction inputs outputs =
     new_Transaction\<lparr>tx_TxType := TransferAsset, tx_Payload := Some PTransferAsset,
       tx_UTXOInputs := inputs, tx_Outputs := outputs\<rparr>"

definition NewRecordTransaction :: "byte list \<Rightarrow> byte list \<Rightarrow> Transaction" where
  "NewRecordTransaction recordType recordData =
     new_Transaction\<lparr>tx_TxType := TxRecord,
       tx_Payload := Some (PRecord \<lparr>rc_RecordType = recordType, rc_RecordData = recordData\<rparr>)\<rparr>"

section \<open>Lemmas\<close>

definition asset_sum :: "Uint256 \<Rightarrow> TxOutput list \<Rightarrow> Fixed64" where
  "asset_sum a vs = sum_list (map to_Value (filter (\<lambda>v. to_AssetID v = a) vs))"

lemma merge_amounts_from:
  "merge_amounts m vs a =
     (case m a of
        Some s \<Rightarrow> Some (s + asset_sum a vs)
      | None \<Rightarrow> if \<exists>v\<in>set vs. to_AssetID v = a then Some (asset_sum a vs) else None)"
  by (induction m vs rule: merge_amounts.induct)
     (auto simp: asset_sum_def add.assoc split: option.splits if_splits)

lemma merge_amounts_empty:
  "merge_amounts Map.empty vs a = (if \<exists>v\<in>set vs. to_AssetID v = a then Some (asset_sum a vs) else None)"
  by (simp add: merge_amounts_from)

lemma asset_sum_none: "\<not> (\<exists>v\<in>set vs. to_AssetID v = a) \<Longrightarrow> asset_sum a vs = 0"
  by (auto simp: asset_sum_def filter_empty_conv)

lemma GetReference_loop_sound:
  "GetReference_loop getTx us = Some (Inr refs) \<Longrightarrow>
     map fst refs = us \<and>
     list_all (\<lambda>(u, out). \<exists>t h. getTx (ui_ReferTxID u) = Some (Inr (t, h)) \<and>
        unat (ui_ReferTxOutputIndex u) < length (tx_Outputs t) \<and>
        out = tx_Outputs t ! unat (ui_ReferTxOutputIndex u)) refs"
  by (induction us arbitrary: refs)
     (auto simp: Let_def split: bind_splits sum.splits prod.splits if_splits)

lemma script_hashes_sound:
  "script_hashes as = Inr hs \<Longrightarrow>
     hs = map (\<lambda>a. get_le (at_Data a)) (filter (\<lambda>a. at_Usage a = 0x20) as) \<and>
     list_all (\<lambda>a. at_Usage a = 0x20 \<longrightarrow> length (at_Data a) = 20) as"
  by (induction as arbitrary: hs)
     (auto simp: Uint160ParseFromBytes_def split: if_splits sum.splits)

lemma byProgramHashes_Less_le: "byProgramHashes_Less x y \<longleftrightarrow> x \<le> y"
  by (auto simp: byProgramHashes_Less_def Uint160_CompareTo_sign)

lemma sorted_wrt_Less: "sorted_wrt byProgramHashes_Less xs = sorted xs"
proof -
  have "byProgramHashes_Less = (\<le>)" by (intro ext) (rule byProgramHashes_Less_le)
  then show ?thesis by simp
qed

text \<open>
  The balance of a transaction, per asset, is the sum of the referenced outputs minus the
  sum of its own outputs, in wrapping 64-bit arithmetic; an asset absent from the result
  has balance zero.
\<close>

theorem GetTransactionResults_balance:
  assumes "GetReference getTx tx = Some (Inr refs)"
  shows "\<exists>res. GetTransactionResults getTx tx = Some (Inr res) \<and>
    (\<forall>a. (case res a of Some v \<Rightarrow> v | None \<Rightarrow> 0) =
      asset_sum a (map snd refs) - asset_sum a (tx_Outputs tx))"
  using assms asset_sum_none
  by (auto simp: GetTransactionResults_def GetMergedAssetIDValueFromReference_def
      GetMergedAssetIDValueFromOutputs_def merge_amounts_empty Let_def split: option.splits)

text \<open>
  C25. Every reference that \<^verbatim>\<open>GetReference\<close> reports is the output that the input designates, in
  input order, and none of the inputs is missing; registrations have no references.
\<close>

theorem GetReference_sound:
  assumes "GetReference getTx tx = Some (Inr refs)"
  shows "map fst refs = (if tx_TxType tx = RegisterAsset then [] else tx_UTXOInputs tx) \<and>
    list_all (\<lambda>(u, out). \<exists>t h. getTx (ui_ReferTxID u) = Some (Inr (t, h)) \<and>
        unat (ui_ReferTxOutputIndex u) < length (tx_Outputs t) \<and>
        out = tx_Outputs t ! unat (ui_ReferTxOutputIndex u)) refs"
  using assms GetReference_loop_sound [of getTx "tx_UTXOInputs tx" refs]
  by (auto simp: GetReference_def split: if_splits)

definition sample_lookup :: tx_lookup where
  "sample_lookup h =
     Some (if h = 77 then Inr (sample_tx\<lparr>tx_Outputs := [\<lparr>to_AssetID = 3, to_Value = 5, to_ProgramHash = 6\<rparr>,
                                                 \<lparr>to_AssetID = 9, to_Value = 100000007, to_ProgramHash = 8\<rparr>]\<rparr>, 1)
      else Inl (ErrNew ''not found''))"

lemma sample_reference:
  "GetReference sample_lookup sample_tx =
     Some (Inr [(\<lparr>ui_ReferTxID = 77, ui_ReferTxOutputIndex = 1, ui_Sequence = 5\<rparr>,
           \<lparr>to_AssetID = 9, to_Value = 100000007, to_ProgramHash = 8\<rparr>)])"
  by (simp add: GetReference_def sample_lookup_def sample_tx_def new_Transaction_def)

theorem GetTransactionResults_balance_witness:
  "\<exists>res. GetTransactionResults sample_lookup sample_tx = Some (Inr res) \<and>
    (case res 9 of Some v \<Rightarrow> v | None \<Rightarrow> 0) = 7"
  using GetTransactionResults_balance [OF sample_reference]
  by (auto simp: asset_sum_def sample_tx_def new_Transaction_def)

theorem GetReference_sound_witness:
  "list_all (\<lambda>(u, out). \<exists>t h. sample_lookup (ui_ReferTxID u) = Some (Inr (t, h)) \<and>
        unat (ui_ReferTxOutputIndex u) < length (tx_Outputs t) \<and>
        out = tx_Outputs t ! unat (ui_ReferTxOutputIndex u))
     [(\<lparr>ui_ReferTxID = 77, ui_ReferTxOutputIndex = 1, ui_Sequence = 5\<rparr>,
       \<lparr>to_AssetID = 9, to_Value = 100000007, to_ProgramHash = 8\<rparr>)]"
  using GetReference_sound [OF sample_reference] by blast

text \<open>
  C26. The script hashes that must sign a transaction are those of the outputs it spends and
  of its \<^verbatim>\<open>Script\<close> attributes, without duplicates and in the order of \<^verbatim>\<open>byProgramHashes\<close>.
\<close>

theorem GetProgramHashes_sorted:
  assumes "GetProgramHashes getTx tx = Some (Inr hs)"
  shows "distinct hs \<and> sorted_wrt byProgramHashes_Less hs \<and>
    (\<exists>refs. GetReference getTx tx = Some (Inr refs) \<and>
       set hs = (\<lambda>(_, out). to_ProgramHash out) ` set refs \<union>
                (\<lambda>a. get_le (at_Data a)) ` {a \<in> set (tx_Attributes tx). at_Usage a = 0x20})"
  using assms script_hashes_sound
  by (fastforce simp: GetProgramHashes_def sort_hashes_def sorted_wrt_Less split: bind_splits sum.splits)

theorem GetProgramHashes_sorted_witness:
  "distinct [8 :: Uint160] \<and> sorted_wrt byProgramHashes_Less [8]"
proof -
  have "GetProgramHashes sample_lookup sample_tx = Some (Inr [8])"
    using sample_reference by (simp add: GetProgramHashes_def sample_tx_def new_Transaction_def sort_hashes_def)
  from GetProgramHashes_sorted [OF this] show ?thesis by blast
qed

text \<open>
  \<^verbatim>\<open>AppendNewSignature\<close> panics on every well-formed parameter, one that holds whole
  signature scripts: the slice of what follows them starts one byte too far.
\<close>

theorem AppendNewSignature_panics:
  assumes "tx_Programs tx = p # ps" and "length (pg_Parameter p) mod SignatureScriptLen = 0"
  shows "AppendNewSignature tx sig = panic"
proof -
  have "length (pg_Parameter p) div 65 * 65 = length (pg_Parameter p)" using assms(2) by presburger
  then show ?thesis using assms(1)
    by (simp add: AppendNewSignature_def ParseTransactionSig_def go_slice_def)
qed

theorem AppendNewSignature_panics_witness:
  "AppendNewSignature sample_tx [1, 2] = panic"
  by (rule AppendNewSignature_panics [where p = "\<lparr>pg_Code = [0x51, 0xac], pg_Parameter = []\<rparr>" and ps = "[]"])
     (simp_all add: sample_tx_def)

end
