(* ===== verification/AuxPow.thy ===== *)
theory AuxPow
  imports Fixed_Amounts
begin

text \<open>
  \<^verbatim>\<open>core/auxpow\<close>: merged mining. A block may be proved by the work of a parent (Bitcoin)
  block: \<open>AuxPow_Check\<close> verifies that the hash of the block, through a merkle branch, is
  committed to by the coinbase transaction of the parent header whose work counts.
  Pointers in the inputs and outputs of the parent transaction are options, since a failed
  read leaves nil entries behind. Signed integers of the wire format are kept as words.
\<close>

section \<open>The parent chain's structures\<close>

record BtcBlockHeader =
  bh_Version :: u32
  bh_PrevBlock :: Uint256
  bh_MerkleRoot :: Uint256
  bh_Timestamp :: u32
  bh_Bits :: u32
  bh_Nonce :: u32

definition BtcBlockHeader_Serialize :: "BtcBlockHeader \<Rightarrow> byte list" where
  "BtcBlockHeader_Serialize bh =
     WriteUint32 (bh_Version bh) @ Uint256_Serialize (bh_PrevBlock bh) @ Uint256_Serialize (bh_MerkleRoot bh) @
     WriteUint32 (bh_Timestamp bh) @ WriteUint32 (bh_Bits bh) @ WriteUint32 (bh_Nonce bh)"

definition BtcBlockHeader_Deserialize :: "BtcBlockHeader \<Rightarrow> BtcBlockHeader rdr" where
  "BtcBlockHeader_Deserialize bh =
     rd_try ReadUint32 bh (\<lambda>t. let bh = bh\<lparr>bh_Version := t\<rparr> in
     rd_try (Uint256_Deserialize 0) bh (\<lambda>h. let bh = bh\<lparr>bh_PrevBlock := h\<rparr> in
     rd_try (Uint256_Deserialize 0) bh (\<lambda>h. let bh = bh\<lparr>bh_MerkleRoot := h\<rparr> in
     rd_ign ReadUint32 (\<lambda>t. let bh = bh\<lparr>bh_Timestamp := t\<rparr> in
     rd_ign ReadUint32 (\<lambda>t. let bh = bh\<lparr>bh_Bits := t\<rparr> in
     rd_ign ReadUint32 (\<lambda>t. rd_ret (bh\<lparr>bh_Nonce := t\<rparr>)))))))"

definition BtcBlockHeader_Hash :: "BtcBlockHeader \<Rightarrow> Uint256" where
  "BtcBlockHeader_Hash bh = hash256 (sha256 (BtcBlockHeader_Serialize bh))"

record BtcOutPoint =
  op_Hash :: Uint256
  op_Index :: u32

record BtcTxIn =
  bti_PreviousOutPoint :: BtcOutPoint
  bti_SignatureScript :: "byte list"
  bti_Sequence :: u32

record BtcTxOut =
  bto_Value :: u64
  bto_PkScript :: "byte list"

record BtcTx =
  btx_Version :: u32
  btx_TxIn :: "BtcTxIn option list"
  btx_TxOut :: "BtcTxOut option list"
  btx_LockTime :: u32

text \<open>\<^verbatim>\<open>io.ReadFull(r, buf[:])\<close>, keeping the bytes that a failed read left in \<open>buf\<close>.\<close>

definition rd_full :: "nat \<Rightarrow> byte list rdr" where
  "rd_full n r = Some (rd_ReadFull n r)"

definition BtcReadOutPoint :: "BtcOutPoint \<Rightarrow> BtcOutPoint rdr" where
  "BtcReadOutPoint op =
     rd_obj (\<lambda>e. e) (rd_full 32) (\<lambda>p. op\<lparr>op_Hash := get_le p\<rparr>) (\<lambda>p. let op = op\<lparr>op_Hash := get_le p\<rparr> in
     rd_try (rd_full 4) op (\<lambda>b. rd_ret (op\<lparr>op_Index := get_le b\<rparr>)))"

definition BtcWriteOutPoint :: "BtcOutPoint \<Rightarrow> byte list" where
  "BtcWriteOutPoint op = Uint256_ToArray (op_Hash op) @ put_le 4 (op_Index op)"

definition BtcReadTxIn :: "BtcTxIn \<Rightarrow> BtcTxIn rdr" where
  "BtcReadTxIn ti =
     rd_try (BtcReadOutPoint \<lparr>op_Hash = 0, op_Index = 0\<rparr>) ti (\<lambda>op. let ti = ti\<lparr>bti_PreviousOutPoint := op\<rparr> in
     rd_obj (\<lambda>e. e) ReadVarBytes (\<lambda>s. ti\<lparr>bti_SignatureScript := s\<rparr>) (\<lambda>s. let ti = ti\<lparr>bti_SignatureScript := s\<rparr> in
     rd_try (rd_full 4) ti (\<lambda>b. rd_ret (ti\<lparr>bti_Sequence := get_le b\<rparr>))))"

definition BtcWriteTxIn :: "BtcTxIn \<Rightarrow> byte list" where
  "BtcWriteTxIn ti =
     BtcWriteOutPoint (bti_PreviousOutPoint ti) @ WriteVarBytes (bti_SignatureScript ti) @ put_le 4 (bti_Sequence ti)"

definition BtcReadTxOut :: "BtcTxOut \<Rightarrow> BtcTxOut rdr" where
  "BtcReadTxOut to =
     rd_try (rd_full 8) to (\<lambda>b. let to = to\<lparr>bto_Value := get_le b\<rparr> in
     rd_obj (\<lambda>e. e) ReadVarBytes (\<lambda>s. to\<lparr>bto_PkScript := s\<rparr>) (\<lambda>s. rd_ret (to\<lparr>bto_PkScript := s\<rparr>)))"

definition BtcWriteTxOut :: "BtcTxOut \<Rightarrow> byte list" where
  "BtcWriteTxOut to = put_le 8 (bto_Value to) @ WriteVarBytes (bto_PkScript to)"

text \<open>Writing a list of pointers: a nil entry panics.\<close>

fun write_ptrs :: "('a \<Rightarrow> byte list) \<Rightarrow> 'a option list \<Rightarrow> byte list go" where
  "write_ptrs f [] = Some []"
| "write_ptrs f (None # xs) = panic"
| "write_ptrs f (Some x # xs) = (case write_ptrs f xs of None \<Rightarrow> panic | Some bs \<Rightarrow> Some (f x @ bs))"

definition BtcTx_Serialize :: "BtcTx \<Rightarrow> byte list go" where
  "BtcTx_Serialize tx = do {
     ins \<leftarrow> write_ptrs BtcWriteTxIn (btx_TxIn tx);
     outs \<leftarrow> write_ptrs BtcWriteTxOut (btx_TxOut tx);
     Some (put_le 4 (btx_Version tx) @ WriteVarUint (word_of_nat (length (btx_TxIn tx))) @ ins @
           WriteVarUint (word_of_nat (length (btx_TxOut tx))) @ outs @ put_le 4 (btx_LockTime tx)) }"

text \<open>
  \<^verbatim>\<open>s = make([]T, count)\<close> followed by the loop that fills it; elements not reached keep
  the zero value. \<open>sz\<close> is the size of an element in bytes.
\<close>

definition read_make :: "nat \<Rightarrow> 'a \<Rightarrow> u64 \<Rightarrow> 'a rdr \<Rightarrow> 'a list rdr" where
  "read_make sz z count d r =
     (case go_make sz (unat count) of None \<Rightarrow> panic | Some _ \<Rightarrow> read_fill z (unat count) d r)"

definition rd_ptr :: "'a rdr \<Rightarrow> 'a option rdr" where
  "rd_ptr d = rd_obj (\<lambda>e. e) d (\<lambda>x. None) (\<lambda>x. rd_ret (Some x))"

definition BtcTx_Deserialize :: "BtcTx \<Rightarrow> BtcTx rdr" where
  "BtcTx_Deserialize tx =
     rd_try (rd_full 4) tx (\<lambda>b. let tx = tx\<lparr>btx_Version := get_le b\<rparr> in
     rd_try (ReadVarUint 0) tx (\<lambda>count.
     rd_obj (\<lambda>e. e)
       (read_make 8 None count
         (rd_ptr (BtcReadTxIn \<lparr>bti_PreviousOutPoint = \<lparr>op_Hash = 0, op_Index = 0\<rparr>, bti_SignatureScript = [], bti_Sequence = 0\<rparr>)))
       (\<lambda>xs. tx\<lparr>btx_TxIn := xs\<rparr>) (\<lambda>xs. let tx = tx\<lparr>btx_TxIn := xs\<rparr> in
     rd_try (ReadVarUint 0) tx (\<lambda>count.
     rd_obj (\<lambda>e. e)
       (read_make 8 None count (rd_ptr (BtcReadTxOut \<lparr>bto_Value = 0, bto_PkScript = []\<rparr>)))
       (\<lambda>xs. tx\<lparr>btx_TxOut := xs\<rparr>) (\<lambda>xs. let tx = tx\<lparr>btx_TxOut := xs\<rparr> in
     rd_try (rd_full 4) tx (\<lambda>b. rd_ret (tx\<lparr>btx_LockTime := get_le b\<rparr>)))))))"

definition BtcTx_Hash :: "BtcTx \<Rightarrow> Uint256 go" where
  "BtcTx_Hash tx = do { bs \<leftarrow> BtcTx_Serialize tx; Some (hash256 (sha256 bs)) }"

definition NewBtcTx :: "BtcTxIn option list \<Rightarrow> BtcTxOut option list \<Rightarrow> BtcTx" where
  "NewBtcTx txIn txOut = \<lparr>btx_Version = 1, btx_TxIn = txIn, btx_TxOut = txOut, btx_LockTime = 0\<rparr>"

section \<open>The proof\<close>

record AuxPow =
  ap_AuxMerkleBranch :: "Uint256 list"
  ap_AuxMerkleIndex :: int
  ap_ParCoinbaseTx :: BtcTx
  ap_ParCoinBaseMerkle :: "Uint256 list"
  ap_ParMerkleIndex :: int
  ap_ParBlockHeader :: BtcBlockHeader
  ap_ParentHash :: Uint256

definition AuxPow_Serialize :: "AuxPow \<Rightarrow> byte list go" where
  "AuxPow_Serialize ap = do {
     tx \<leftarrow> BtcTx_Serialize (ap_ParCoinbaseTx ap);
     Some (tx @ Uint256_Serialize (ap_ParentHash ap) @ WriteUint32 (word_of_int (ap_AuxMerkleIndex ap)) @
           WriteVarUint (word_of_nat (length (ap_AuxMerkleBranch ap))) @
           concat (map Uint256_Serialize (ap_AuxMerkleBranch ap)) @
           WriteUint32 (word_of_int (ap_ParMerkleIndex ap)) @
           WriteVarUint (word_of_nat (length (ap_ParCoinBaseMerkle ap))) @
           concat (map Uint256_Serialize (ap_ParCoinBaseMerkle ap)) @
           BtcBlockHeader_Serialize (ap_ParBlockHeader ap)) }"

definition AuxPow_Deserialize :: "AuxPow \<Rightarrow> AuxPow rdr" where
  "AuxPow_Deserialize ap =
     rd_obj (\<lambda>e. e) (BtcTx_Deserialize (ap_ParCoinbaseTx ap)) (\<lambda>t. ap\<lparr>ap_ParCoinbaseTx := t\<rparr>) (\<lambda>t.
     let ap = ap\<lparr>ap_ParCoinbaseTx := t\<rparr> in
     rd_obj (\<lambda>e. e) (Uint256_Deserialize (ap_ParentHash ap)) (\<lambda>h. ap\<lparr>ap_ParentHash := h\<rparr>) (\<lambda>h.
     let ap = ap\<lparr>ap_ParentHash := h\<rparr> in
     rd_try ReadUint32 ap (\<lambda>temp. let ap = ap\<lparr>ap_AuxMerkleIndex := uint temp\<rparr> in
     rd_try (ReadVarUint 0) ap (\<lambda>count.
     rd_obj (\<lambda>e. e) (read_make 32 0 count (Uint256_Deserialize 0)) (\<lambda>xs. ap\<lparr>ap_AuxMerkleBranch := xs\<rparr>) (\<lambda>xs.
     let ap = ap\<lparr>ap_AuxMerkleBranch := xs\<rparr> in
     rd_try ReadUint32 ap (\<lambda>temp. let ap = ap\<lparr>ap_ParMerkleIndex := uint temp\<rparr> in
     rd_try (ReadVarUint 0) ap (\<lambda>count.
     rd_obj (\<lambda>e. e) (read_make 32 0 count (Uint256_Deserialize 0)) (\<lambda>xs. ap\<lparr>ap_ParCoinBaseMerkle := xs\<rparr>) (\<lambda>xs.
     let ap = ap\<lparr>ap_ParCoinBaseMerkle := xs\<rparr> in
     rd_obj (\<lambda>e. e) (BtcBlockHeader_Deserialize (ap_ParBlockHeader ap)) (\<lambda>b. ap\<lparr>ap_ParBlockHeader := b\<rparr>) (\<lambda>b.
     rd_ret (ap\<lparr>ap_ParBlockHeader := b\<rparr>))))))))))"

section \<open>Checking a proof\<close>

abbreviation (input) AuxPowChainID :: int where "AuxPowChainID \<equiv> 1"

definition pchMergedMiningHeader :: "byte list" where
  "pchMergedMiningHeader = [0xfa, 0xbe, 0x6d, 0x6d]"

fun CheckMerkleBranch_loop :: "Uint256 \<Rightarrow> Uint256 list \<Rightarrow> int \<Rightarrow> Uint256" where
  "CheckMerkleBranch_loop hash [] index = hash"
| "CheckMerkleBranch_loop hash (it # merkleBranch) index =
     CheckMerkleBranch_loop
       (if index mod 2 = 1 then hash256 (Uint256_ToArray it @ Uint256_ToArray hash)
        else hash256 (Uint256_ToArray hash @ Uint256_ToArray it))
       merkleBranch (index div 2)"

definition CheckMerkleBranch :: "Uint256 \<Rightarrow> Uint256 list \<Rightarrow> int \<Rightarrow> Uint256" where
  "CheckMerkleBranch hash merkleBranch index =
     (if index = - 1 then 0 else CheckMerkleBranch_loop hash merkleBranch index)"

text \<open>\<^verbatim>\<open>1 << uint32(h)\<close> on 32 bits, which is zero from 32 on.\<close>

definition shl1 :: "nat \<Rightarrow> u32" where
  "shl1 h = push_bit (unat (word_of_nat h :: u32)) 1"

text \<open>The remainder by zero panics.\<close>

definition GetExpectedIndex :: "u32 \<Rightarrow> int \<Rightarrow> nat \<Rightarrow> int go" where
  "GetExpectedIndex nonce chainId h =
     (let rand = nonce;
          rand = rand * 1103515245 + 12345;
          rand = rand + word_of_int chainId;
          rand = rand * 1103515245 + 12345
      in if shl1 h = 0 then panic else Some (uint (rand mod shl1 h)))"

text \<open>
  A hexadecimal string is the list of its digits' values, so that \<^verbatim>\<open>hex.EncodeToString\<close>
  splits each byte in two; \<open>list_index\<close> is \<^verbatim>\<open>strings.Index\<close>.
\<close>

definition hex_digits :: "byte list \<Rightarrow> nat list" where
  "hex_digits bs = concat (map (\<lambda>b. [unat b div 16, unat b mod 16]) bs)"

fun list_index :: "'a list \<Rightarrow> 'a list \<Rightarrow> int" where
  "list_index s pat =
     (if take (length pat) s = pat then 0
      else case s of [] \<Rightarrow> - 1
           | _ # s' \<Rightarrow> (let i = list_index s' pat in if i = - 1 then - 1 else i + 1))"

declare list_index.simps [simp del]

definition AuxPow_Check :: "AuxPow \<Rightarrow> Uint256 \<Rightarrow> int \<Rightarrow> bool go" where
  "AuxPow_Check ap hashAuxBlock chainId = do {
     h \<leftarrow> BtcTx_Hash (ap_ParCoinbaseTx ap);
     (if CheckMerkleBranch h (ap_ParCoinBaseMerkle ap) (ap_ParMerkleIndex ap)
           \<noteq> bh_MerkleRoot (ap_ParBlockHeader ap)
      then Some False
      else
        let auxRootHash = CheckMerkleBranch hashAuxBlock (ap_AuxMerkleBranch ap) (ap_AuxMerkleIndex ap)
        in case btx_TxIn (ap_ParCoinbaseTx ap) of
             [] \<Rightarrow> panic
           | None # _ \<Rightarrow> panic
           | Some ti # _ \<Rightarrow>
               let script = bti_SignatureScript ti;
                   scriptStr = hex_digits script;
                   auxRootHashStr = hex_digits (Uint256_ToArray auxRootHash);
                   pchStr = hex_digits pchMergedMiningHeader;
                   headerIndex = list_index scriptStr pchStr;
                   rootHashIndex = list_index scriptStr auxRootHashStr
               in if headerIndex = - 1 \<or> rootHashIndex = - 1 then Some False
                  else if list_index (drop (nat headerIndex + 2) scriptStr) pchStr \<noteq> - 1 then Some False
                  else if headerIndex + int (length pchStr) \<noteq> rootHashIndex then Some False
                  else
                    let ri = nat rootHashIndex + length auxRootHashStr
                    in if int (length scriptStr) - int ri < 8 then Some False
                       else do {
                         s1 \<leftarrow> go_slice script (ri div 2) (ri div 2 + 4);
                         (let size = (get_le s1 :: u32); merkleHeight = length (ap_AuxMerkleBranch ap)
                          in if size \<noteq> shl1 merkleHeight then Some False
                             else do {
                               s2 \<leftarrow> go_slice script (ri div 2 + 4) (ri div 2 + 8);
                               e \<leftarrow> GetExpectedIndex (get_le s2) chainId merkleHeight;
                               Some (ap_AuxMerkleIndex ap = e) }) }) }"

section \<open>Round trips\<close>

lemmas aux_rt = u256.roundtrip serialization_rt

lemma rd_full_exact: "length xs = n \<Longrightarrow> rd_full n (Rd k (xs @ rest)) = Some (xs, None, Rd k rest)"
  by (simp add: rd_full_def rd_ReadFull_exact)

interpretation btchdr: fixed_codec BtcBlockHeader_Serialize "BtcBlockHeader_Deserialize z" 80
  by unfold_locales
     (simp_all add: BtcBlockHeader_Serialize_def BtcBlockHeader_Deserialize_def rd_run aux_rt
        u256.width uint32.width Let_def)

interpretation btcop: fixed_codec BtcWriteOutPoint "BtcReadOutPoint z" 36
  by unfold_locales
     (simp_all add: BtcWriteOutPoint_def BtcReadOutPoint_def rd_run rd_full_exact Uint256_array_bij Let_def)

interpretation btcin: codec BtcWriteTxIn "BtcReadTxIn z" "\<lambda>ti. bytes_ok (bti_SignatureScript ti)"
  by unfold_locales
     (simp add: BtcWriteTxIn_def BtcReadTxIn_def rd_run btcop.roundtrip aux_rt rd_full_exact Let_def)

interpretation btcout: codec BtcWriteTxOut "BtcReadTxOut z" "\<lambda>to. bytes_ok (bto_PkScript to)"
  by unfold_locales
     (simp add: BtcWriteTxOut_def BtcReadTxOut_def rd_run aux_rt rd_full_exact Let_def)

text \<open>Pointers to values of a codec: a list without nil entries is read back by \<open>read_make\<close>.\<close>

lemma write_ptrs_Some: "write_ptrs f (map Some xs) = Some (concat (map f xs))"
  by (induction xs) auto

lemma ptr_list:
  assumes "list_all (\<lambda>p. \<exists>x. p = Some x \<and> P x) ps"
  shows "\<exists>xs. ps = map Some xs \<and> list_all P xs"
  using assms
proof (induction ps)
  case (Cons p ps)
  then obtain x xs where "p = Some x" "P x" "ps = map Some xs" "list_all P xs" by auto
  then show ?case by (intro exI [of _ "x # xs"]) simp
qed simp

context codec
begin

lemma read_make_ptrs:
  assumes "list_all ok xs" and "roomy k rest" and "8 * length xs \<le> maxAlloc"
  shows "read_make 8 None (word_of_nat (length xs)) (rd_ptr des) (Rd k (concat (map ser xs) @ rest))
    = Some (map Some xs, None, Rd k rest)"
proof -
  have "unat (word_of_nat (length xs) :: u64) = length xs"
    by (rule unat_of_nat_small) (use assms(3) in \<open>simp add: maxAlloc_def\<close>)
  moreover have "read_fill None (length xs) (rd_ptr des) (Rd k (concat (map ser xs) @ rest))
      = Some (map Some xs, None, Rd k rest)"
    using assms(1,2) by (induction xs) (auto simp: rd_ptr_def rd_run roundtrip)
  ultimately show ?thesis using assms(3) by (simp add: read_make_def go_make_def)
qed

end

fun all_ptrs :: "('a \<Rightarrow> bool) \<Rightarrow> 'a option list \<Rightarrow> bool" where
  "all_ptrs P [] = True"
| "all_ptrs P (None # ps) = False"
| "all_ptrs P (Some x # ps) = (P x \<and> all_ptrs P ps)"

lemma all_ptrs_list: "all_ptrs P ps \<Longrightarrow> \<exists>xs. ps = map Some xs \<and> list_all P xs"
  by (induction P ps rule: all_ptrs.induct) (auto intro: exI [of _ "_ # _"])

definition btctx_ok :: "BtcTx \<Rightarrow> bool" where
  "btctx_ok tx \<longleftrightarrow>
     all_ptrs (\<lambda>ti. bytes_ok (bti_SignatureScript ti)) (btx_TxIn tx) \<and> 8 * length (btx_TxIn tx) \<le> maxAlloc \<and>
     all_ptrs (\<lambda>to. bytes_ok (bto_PkScript to)) (btx_TxOut tx) \<and> 8 * length (btx_TxOut tx) \<le> maxAlloc"

lemma BtcTx_roundtrip:
  assumes "btctx_ok tx"
  shows "\<exists>bs. BtcTx_Serialize tx = Some bs \<and>
    (\<forall>k rest. BtcTx_Deserialize z (Rd k (bs @ rest)) = Some (tx, None, Rd k rest))"
proof -
  obtain ins where ins: "btx_TxIn tx = map Some ins" "list_all (\<lambda>ti. bytes_ok (bti_SignatureScript ti)) ins"
    "8 * length ins \<le> maxAlloc"
    using assms all_ptrs_list by (force simp: btctx_ok_def)
  obtain outs where outs: "btx_TxOut tx = map Some outs" "list_all (\<lambda>to. bytes_ok (bto_PkScript to)) outs"
    "8 * length outs \<le> maxAlloc"
    using assms all_ptrs_list by (force simp: btctx_ok_def)
  have room: "roomy k (WriteVarUint n @ rest)" "roomy k (put_le 4 (w :: u32) @ rest)" for k n rest w
    by (simp_all add: roomy_def)
  show ?thesis
    by (simp add: BtcTx_Serialize_def BtcTx_Deserialize_def ins outs write_ptrs_Some rd_run rd_full_exact
        aux_rt btcin.read_make_ptrs btcout.read_make_ptrs room Let_def)
qed

definition auxpow_ok :: "AuxPow \<Rightarrow> bool" where
  "auxpow_ok ap \<longleftrightarrow>
     btctx_ok (ap_ParCoinbaseTx ap) \<and>
     32 * length (ap_AuxMerkleBranch ap) \<le> maxAlloc \<and> 32 * length (ap_ParCoinBaseMerkle ap) \<le> maxAlloc \<and>
     0 \<le> ap_AuxMerkleIndex ap \<and> ap_AuxMerkleIndex ap < 2 ^ 32 \<and>
     0 \<le> ap_ParMerkleIndex ap \<and> ap_ParMerkleIndex ap < 2 ^ 32"

lemma uint_word_of_int32: "0 \<le> i \<Longrightarrow> i < 2 ^ 32 \<Longrightarrow> uint (word_of_int i :: u32) = i"
  by (simp add: uint_word_of_int take_bit_int_eq_self)

lemma read_make_hashes:
  assumes "32 * length hs \<le> maxAlloc" and "roomy k rest"
  shows "read_make 32 0 (word_of_nat (length hs)) (Uint256_Deserialize 0) (Rd k (concat (map Uint256_Serialize hs) @ rest))
    = Some (hs, None, Rd k rest)"
proof -
  have "unat (word_of_nat (length hs) :: u64) = length hs"
    by (rule unat_of_nat_small) (use assms(1) in \<open>simp add: maxAlloc_def\<close>)
  then show ?thesis using assms u256.any.read_fill_roundtrip [of hs k rest 0]
    by (simp add: read_make_def go_make_def)
qed

lemma AuxPow_codec:
  assumes "auxpow_ok ap"
  shows "\<exists>bs. AuxPow_Serialize ap = Some bs \<and>
    (\<forall>k rest. AuxPow_Deserialize z (Rd k (bs @ rest)) = Some (ap, None, Rd k rest))"
proof -
  obtain tb where tb: "BtcTx_Serialize (ap_ParCoinbaseTx ap) = Some tb"
    "\<And>k rest. BtcTx_Deserialize (ap_ParCoinbaseTx z) (Rd k (tb @ rest)) = Some (ap_ParCoinbaseTx ap, None, Rd k rest)"
    using BtcTx_roundtrip [of "ap_ParCoinbaseTx ap" "ap_ParCoinbaseTx z"] assms
    by (auto simp: auxpow_ok_def)
  have room: "roomy k (WriteUint32 n @ rest)" "roomy k (BtcBlockHeader_Serialize h @ rest)" for k n rest h
    by (simp_all add: roomy_def WriteUint32_def BtcBlockHeader_Serialize_def)
  show ?thesis using assms
    by (simp add: AuxPow_Serialize_def AuxPow_Deserialize_def tb rd_run aux_rt room read_make_hashes
        uint_word_of_int32 btchdr.roundtrip auxpow_ok_def Let_def)
qed

definition new_AuxPow :: AuxPow where
  "new_AuxPow =
     \<lparr>ap_AuxMerkleBranch = [], ap_AuxMerkleIndex = 0,
      ap_ParCoinbaseTx = \<lparr>btx_Version = 0, btx_TxIn = [], btx_TxOut = [], btx_LockTime = 0\<rparr>,
      ap_ParCoinBaseMerkle = [], ap_ParMerkleIndex = 0,
      ap_ParBlockHeader = \<lparr>bh_Version = 0, bh_PrevBlock = 0, bh_MerkleRoot = 0, bh_Timestamp = 0, bh_Bits = 0, bh_Nonce = 0\<rparr>,
      ap_ParentHash = 0\<rparr>"

lemma new_AuxPow_ok: "auxpow_ok new_AuxPow"
  by (simp add: auxpow_ok_def new_AuxPow_def btctx_ok_def)

section \<open>What the check establishes\<close>

lemma list_index_found:
  "list_index s pat \<noteq> - 1 \<Longrightarrow>
     0 \<le> list_index s pat \<and>
     take (length pat) (drop (nat (list_index s pat)) s) = pat \<and> nat (list_index s pat) + length pat \<le> length s"
proof (induction s)
  case Nil
  then show ?case by (simp add: list_index.simps split: if_splits)
next
  case (Cons x s)
  show ?case
  proof (cases "take (length pat) (x # s) = pat")
    case True
    then have "length pat \<le> length (x # s)" by (metis length_take min.cobounded1)
    then show ?thesis using True by (simp add: list_index.simps [of "x # s"])
  next
    case False
    then have ne: "list_index s pat \<noteq> - 1"
      using Cons.prems by (simp add: list_index.simps [of "x # s"] Let_def split: if_splits)
    then have i: "list_index (x # s) pat = list_index s pat + 1"
      using False by (simp add: list_index.simps [of "x # s"] Let_def)
    note ih = Cons.IH [OF ne]
    have n: "nat (list_index (x # s) pat) = Suc (nat (list_index s pat))"
      using ih by (simp add: i nat_add_distrib)
    have "take (length pat) (drop (nat (list_index s pat)) s) = pat" using ih by blast
    moreover have "Suc (nat (list_index s pat)) + length pat \<le> length (x # s)" using ih by simp
    moreover have "0 \<le> list_index (x # s) pat" using ih i by linarith
    ultimately show ?thesis unfolding n drop_Suc_Cons by blast
  qed
qed

lemma list_index_at:
  assumes "list_index s pat \<noteq> - 1"
  shows "\<exists>pre post. s = pre @ pat @ post \<and> length pre = nat (list_index s pat)"
proof (intro exI conjI)
  let ?i = "nat (list_index s pat)"
  note f = list_index_found [OF assms]
  show "s = take ?i s @ pat @ drop (length pat) (drop ?i s)"
    using f by (metis append_take_drop_id)
  show "length (take ?i s) = ?i" using f by simp
qed

lemma length_hex_digits [simp]: "length (hex_digits bs) = 2 * length bs"
  by (induction bs) (auto simp: hex_digits_def)

lemma shl1_small: "h < 32 \<Longrightarrow> unat (shl1 h) = 2 ^ h"
proof -
  assume h: "h < 32"
  have "unat (word_of_nat h :: u32) = h" by (rule unat_of_nat_small) (use h in simp)
  moreover have "unat (push_bit h (1 :: u32)) = 2 ^ h"
  proof -
    have "(2 :: nat) ^ h < 2 ^ 32" using h by (intro power_strict_increasing) simp_all
    then show ?thesis
      using unat_of_nat_small [of "2 ^ h", where 'a = 32] by (simp add: push_bit_eq_mult)
  qed
  ultimately show ?thesis by (simp add: shl1_def)
qed

lemma shl1_big: "32 \<le> h \<Longrightarrow> h < 2 ^ 32 \<Longrightarrow> shl1 h = 0"
  by (simp add: shl1_def unat_of_nat_small push_bit_eq_mult exp_eq_zero_iff)

text \<open>
  The expected index: below 32 levels it is a position in the auxiliary tree; from 32
  levels on the remainder by zero panics.
\<close>

lemma GetExpectedIndex_range:
  "h < 32 \<Longrightarrow> \<exists>i. GetExpectedIndex nonce chainId h = Some i \<and> 0 \<le> i \<and> i < 2 ^ h"
proof -
  assume h: "h < 32"
  have ne: "shl1 h \<noteq> 0" using shl1_small [OF h] by auto
  have "uint (x mod shl1 h) < 2 ^ h" for x
  proof -
    have "unat (x mod shl1 h) < unat (shl1 h)" using ne by (simp add: unat_mod unat_gt_0)
    then have "int (unat (x mod shl1 h)) < int (2 ^ h)" unfolding shl1_small [OF h] by (simp only: of_nat_less_iff)
    then show ?thesis by simp
  qed
  then show ?thesis using ne by (simp add: GetExpectedIndex_def Let_def)
qed

lemma GetExpectedIndex_panics: "32 \<le> h \<Longrightarrow> h < 2 ^ 32 \<Longrightarrow> GetExpectedIndex nonce chainId h = panic"
  by (simp add: GetExpectedIndex_def Let_def shl1_big)

text \<open>The search for a collision among the strings hashed along two branches.\<close>

definition branch_step :: "Uint256 \<Rightarrow> Uint256 \<Rightarrow> int \<Rightarrow> byte list" where
  "branch_step hash it index =
     (if index mod 2 = 1 then Uint256_ToArray it @ Uint256_ToArray hash
      else Uint256_ToArray hash @ Uint256_ToArray it)"

fun branch_collision ::
  "Uint256 \<Rightarrow> Uint256 list \<Rightarrow> Uint256 \<Rightarrow> Uint256 list \<Rightarrow> int \<Rightarrow> (byte list \<times> byte list) option"
where
  "branch_collision h (a # as) g (b # bs) i =
     (let x = branch_step h a i; y = branch_step g b i
      in if x \<noteq> y \<and> sha256 x = sha256 y then Some (x, y)
         else branch_collision (hash256 x) as (hash256 y) bs (i div 2))"
| "branch_collision h _ g _ i = None"

lemma loop_step:
  "CheckMerkleBranch_loop h (a # as) i = CheckMerkleBranch_loop (hash256 (branch_step h a i)) as (i div 2)"
  by (simp add: branch_step_def)

lemma branch_step_inj: "branch_step h a i = branch_step g b i \<Longrightarrow> h = g \<and> a = b"
  by (auto simp: branch_step_def split: if_splits)

lemma hash256_eq_iff: "hash256 x = hash256 y \<longleftrightarrow> sha256 x = sha256 y"
  by (metis hash256_array Uint256_ToArray_inj)

lemma branch_binding:
  "length as = length bs \<Longrightarrow> CheckMerkleBranch_loop h as i = CheckMerkleBranch_loop g bs i \<Longrightarrow>
     (case branch_collision h as g bs i of
        None \<Rightarrow> h = g \<and> as = bs
      | Some (x, y) \<Rightarrow> x \<noteq> y \<and> sha256 x = sha256 y)"
proof (induction h as g bs i rule: branch_collision.induct)
  case (1 h a as g b bs i)
  let ?x = "branch_step h a i" and ?y = "branch_step g b i"
  show ?case
  proof (cases "?x \<noteq> ?y \<and> sha256 ?x = sha256 ?y")
    case True
    then show ?thesis by simp
  next
    case False
    have "length as = length bs" using 1(2) by simp
    moreover have "CheckMerkleBranch_loop (hash256 ?x) as (i div 2) = CheckMerkleBranch_loop (hash256 ?y) bs (i div 2)"
      using 1(3) unfolding loop_step .
    ultimately have ih: "case branch_collision (hash256 ?x) as (hash256 ?y) bs (i div 2) of
        None \<Rightarrow> hash256 ?x = hash256 ?y \<and> as = bs
      | Some (x, y) \<Rightarrow> x \<noteq> y \<and> sha256 x = sha256 y"
      using 1(1) [OF refl refl False] by blast
    have eq: "branch_collision h (a # as) g (b # bs) i = branch_collision (hash256 ?x) as (hash256 ?y) bs (i div 2)"
      by (simp only: branch_collision.simps Let_def False if_False)
    have "hash256 ?x = hash256 ?y \<Longrightarrow> h = g \<and> a = b"
      using False branch_step_inj by (auto simp: hash256_eq_iff)
    then show ?thesis using ih unfolding eq by (auto split: option.splits)
  qed
qed auto

text \<open>
  C19. A merkle branch binds its leaf: two branches of the same length at the same index that
  lead to the same root start from the same hash and are equal, unless a collision of
  SHA-256 is found among the strings hashed along them.
\<close>

theorem CheckMerkleBranch_binding:
  assumes "length as = length bs" and "i \<noteq> - 1"
    and "CheckMerkleBranch h as i = CheckMerkleBranch g bs i"
  shows "case branch_collision h as g bs i of
      None \<Rightarrow> h = g \<and> as = bs
    | Some (x, y) \<Rightarrow> x \<noteq> y \<and> sha256 x = sha256 y"
  using branch_binding [OF assms(1)] assms(2,3) by (simp add: CheckMerkleBranch_def)

theorem CheckMerkleBranch_binding_witness:
  "case branch_collision 5 [6, 7] 5 [6, 7] 2 of
      None \<Rightarrow> (5 :: Uint256) = 5 \<and> [6, 7 :: Uint256] = [6, 7]
    | Some (x, y) \<Rightarrow> x \<noteq> y \<and> sha256 x = sha256 y"
  by (rule CheckMerkleBranch_binding) simp_all

text \<open>
  C18. An accepted proof ties the block to the parent header: the coinbase hash is in the
  parent's merkle root, and the coinbase script contains the merged-mining tag
  immediately followed by the root of the auxiliary tree, which the block's hash leads to
  through the given branch, and then by the size of that tree and a nonce that
  determines the block's slot in it.
\<close>

theorem AuxPow_Check_sound:
  assumes "AuxPow_Check ap h chainId = Some True"
  shows "\<exists>cb ti tis pre post size nonce.
    BtcTx_Hash (ap_ParCoinbaseTx ap) = Some cb \<and>
    CheckMerkleBranch cb (ap_ParCoinBaseMerkle ap) (ap_ParMerkleIndex ap) = bh_MerkleRoot (ap_ParBlockHeader ap) \<and>
    btx_TxIn (ap_ParCoinbaseTx ap) = Some ti # tis \<and>
    hex_digits (bti_SignatureScript ti) =
      pre @ hex_digits pchMergedMiningHeader @
      hex_digits (Uint256_ToArray (CheckMerkleBranch h (ap_AuxMerkleBranch ap) (ap_AuxMerkleIndex ap))) @ post \<and>
    8 \<le> length post \<and>
    go_slice (bti_SignatureScript ti) ((length pre + 72) div 2) ((length pre + 72) div 2 + 4) = Some size \<and>
    go_slice (bti_SignatureScript ti) ((length pre + 72) div 2 + 4) ((length pre + 72) div 2 + 8) = Some nonce \<and>
    get_le size = shl1 (length (ap_AuxMerkleBranch ap)) \<and>
    GetExpectedIndex (get_le nonce) chainId (length (ap_AuxMerkleBranch ap)) = Some (ap_AuxMerkleIndex ap)"
proof -
  define root where "root = hex_digits (Uint256_ToArray (CheckMerkleBranch h (ap_AuxMerkleBranch ap) (ap_AuxMerkleIndex ap)))"
  define tag where "tag = hex_digits pchMergedMiningHeader"
  have lens: "length root = 64" "length tag = 8" by (simp_all add: root_def tag_def pchMergedMiningHeader_def)
  from assms obtain cb ti tis size nonce where
    cb: "BtcTx_Hash (ap_ParCoinbaseTx ap) = Some cb"
      "CheckMerkleBranch cb (ap_ParCoinBaseMerkle ap) (ap_ParMerkleIndex ap) = bh_MerkleRoot (ap_ParBlockHeader ap)"
      "btx_TxIn (ap_ParCoinbaseTx ap) = Some ti # tis"
    and ix: "list_index (hex_digits (bti_SignatureScript ti)) tag \<noteq> - 1"
      "list_index (hex_digits (bti_SignatureScript ti)) root \<noteq> - 1"
      "list_index (hex_digits (bti_SignatureScript ti)) tag + 8 = list_index (hex_digits (bti_SignatureScript ti)) root"
    and post: "8 \<le> int (2 * length (bti_SignatureScript ti)) - int (nat (list_index (hex_digits (bti_SignatureScript ti)) root) + 64)"
    and sl: "go_slice (bti_SignatureScript ti) ((nat (list_index (hex_digits (bti_SignatureScript ti)) root) + 64) div 2)
        ((nat (list_index (hex_digits (bti_SignatureScript ti)) root) + 64) div 2 + 4) = Some size"
      "go_slice (bti_SignatureScript ti) ((nat (list_index (hex_digits (bti_SignatureScript ti)) root) + 64) div 2 + 4)
        ((nat (list_index (hex_digits (bti_SignatureScript ti)) root) + 64) div 2 + 8) = Some nonce"
    and ok: "get_le size = shl1 (length (ap_AuxMerkleBranch ap))"
      "GetExpectedIndex (get_le nonce) chainId (length (ap_AuxMerkleBranch ap)) = Some (ap_AuxMerkleIndex ap)"
    unfolding AuxPow_Check_def Let_def root_def [symmetric] tag_def [symmetric] lens
    by (auto simp: lens split: if_splits list.splits option.splits bind_splits)
  let ?s = "hex_digits (bti_SignatureScript ti)"
  obtain pre q where pre: "?s = pre @ tag @ q" "length pre = nat (list_index ?s tag)"
    using list_index_at [OF ix(1)] by blast
  obtain pre2 post2 where pre2: "?s = pre2 @ root @ post2" "length pre2 = nat (list_index ?s root)"
    using list_index_at [OF ix(2)] by blast
  have "0 \<le> list_index ?s tag" using list_index_found [OF ix(1)] by blast
  then have l2: "length pre2 = length pre + 8" using pre(2) pre2(2) ix(3) by linarith
  have "pre2 = pre @ tag"
    using pre(1) pre2(1) l2 lens(2) by (metis append.assoc append_eq_append_conv length_append)
  then have s: "?s = pre @ tag @ root @ post2" using pre2(1) by simp
  have "length ?s = length pre + 72 + length post2" using arg_cong [OF s, of length] lens by simp
  then have "2 * length (bti_SignatureScript ti) = length pre + 72 + length post2" by simp
  then have "8 \<le> length post2" using post pre2(2) l2 by linarith
  moreover have "nat (list_index ?s root) + 64 = length pre + 72" using pre2(2) l2 by simp
  ultimately show ?thesis using cb ok sl s unfolding tag_def root_def by metis
qed

definition sample_script :: "byte list" where
  "sample_script = pchMergedMiningHeader @ replicate 32 0 @ [1, 0, 0, 0, 9, 0, 0, 0]"

definition sample_btctx :: BtcTx where
  "sample_btctx = NewBtcTx
     [Some \<lparr>bti_PreviousOutPoint = \<lparr>op_Hash = 0, op_Index = 0\<rparr>, bti_SignatureScript = sample_script, bti_Sequence = 0\<rparr>] []"

definition with_parent :: "BtcTx \<Rightarrow> AuxPow" where
  "with_parent tx = new_AuxPow\<lparr>ap_ParCoinbaseTx := tx,
     ap_ParBlockHeader := (ap_ParBlockHeader new_AuxPow)
       \<lparr>bh_MerkleRoot := (case BtcTx_Hash tx of Some h \<Rightarrow> h | None \<Rightarrow> 0)\<rparr>\<rparr>"

lemma zero_array: "Uint256_ToArray 0 = replicate 32 0"
proof -
  have "le_bytes n 0 = replicate n 0" for n by (induction n) auto
  then show ?thesis by (simp add: Uint256_ToArray_def put_le_def)
qed

lemma sample_index:
  "list_index (hex_digits sample_script) (hex_digits pchMergedMiningHeader) = 0"
  "list_index (hex_digits sample_script) (hex_digits (replicate 32 0)) = 8"
  "list_index (drop 2 (hex_digits sample_script)) (hex_digits pchMergedMiningHeader) = - 1"
  by code_simp+

lemma sample_accepted: "AuxPow_Check (with_parent sample_btctx) 0 AuxPowChainID = Some True"
proof -
  obtain cb where cb: "BtcTx_Hash sample_btctx = Some cb"
    by (simp add: BtcTx_Hash_def BtcTx_Serialize_def sample_btctx_def NewBtcTx_def)
  have "shl1 0 = 1" by (simp add: shl1_def)
  moreover have "go_slice sample_script 36 40 = Some [1, 0, 0, 0]" "go_slice sample_script 40 44 = Some [9, 0, 0, 0]"
    by (simp_all add: go_slice_def sample_script_def pchMergedMiningHeader_def numeral_eq_Suc)
  moreover have "length (hex_digits sample_script) = 88" "length (hex_digits pchMergedMiningHeader) = 8"
    by (simp_all add: sample_script_def pchMergedMiningHeader_def)
  moreover have "get_le [1, 0, 0, 0] = (1 :: u32)" by (simp add: get_le_def)
  moreover have "GetExpectedIndex n c 0 = Some 0" for n c
    using GetExpectedIndex_range [of 0 n c] by auto
  moreover have "btx_TxIn sample_btctx = [Some \<lparr>bti_PreviousOutPoint = \<lparr>op_Hash = 0, op_Index = 0\<rparr>,
      bti_SignatureScript = sample_script, bti_Sequence = 0\<rparr>]"
    by (simp add: sample_btctx_def NewBtcTx_def)
  ultimately show ?thesis
    by (simp add: AuxPow_Check_def with_parent_def new_AuxPow_def cb CheckMerkleBranch_def zero_array sample_index
        sample_index(3) [unfolded numeral_2_eq_2] Let_def)
qed

theorem AuxPow_Check_sound_witness:
  "\<exists>ti tis pre post.
    btx_TxIn sample_btctx = Some ti # tis \<and>
    hex_digits (bti_SignatureScript ti) =
      pre @ hex_digits pchMergedMiningHeader @ hex_digits (Uint256_ToArray (CheckMerkleBranch 0 [] 0)) @ post \<and>
    8 \<le> length post"
  using AuxPow_Check_sound [OF sample_accepted] by (auto simp: with_parent_def new_AuxPow_def)

text \<open>
  A proof whose parent coinbase has no inputs makes the check panic as soon as the parent
  header's merkle root is that coinbase: the first input is read without a test.
\<close>

theorem AuxPow_Check_no_inputs_panics:
  assumes "btx_TxIn (ap_ParCoinbaseTx ap) = []" and "BtcTx_Hash (ap_ParCoinbaseTx ap) = Some cb"
    and "CheckMerkleBranch cb (ap_ParCoinBaseMerkle ap) (ap_ParMerkleIndex ap) = bh_MerkleRoot (ap_ParBlockHeader ap)"
  shows "AuxPow_Check ap h chainId = panic"
  using assms by (simp add: AuxPow_Check_def)

theorem AuxPow_Check_no_inputs_panics_witness:
  "AuxPow_Check (with_parent (NewBtcTx [] [])) 0 AuxPowChainID = panic"
proof -
  obtain cb where cb: "BtcTx_Hash (NewBtcTx [] []) = Some cb"
    by (simp add: BtcTx_Hash_def BtcTx_Serialize_def NewBtcTx_def)
  show ?thesis
    by (rule AuxPow_Check_no_inputs_panics [of _ cb])
       (use cb in \<open>simp_all add: with_parent_def new_AuxPow_def NewBtcTx_def CheckMerkleBranch_def\<close>)
qed

text \<open>
  The slot computation is total exactly for branches shorter than 32; a longer branch,
  which the sender of a block chooses, makes it panic with a remainder by zero, and for a
  shorter one the slot lies in the auxiliary tree.
\<close>

theorem GetExpectedIndex_total:
  assumes "h < 2 ^ 32"
  shows "case GetExpectedIndex nonce chainId h of
      None \<Rightarrow> 32 \<le> h
    | Some i \<Rightarrow> h < 32 \<and> 0 \<le> i \<and> i < 2 ^ h"
  using assms GetExpectedIndex_range [of h nonce chainId] GetExpectedIndex_panics [of h nonce chainId]
  by (cases "h < 32") auto

theorem GetExpectedIndex_total_witness:
  "case GetExpectedIndex 6 1 2 of None \<Rightarrow> 32 \<le> (2 :: nat) | Some i \<Rightarrow> (2 :: nat) < 32 \<and> 0 \<le> i \<and> i < 2 ^ 2"
  by (rule GetExpectedIndex_total) simp

text \<open>C31. A merged-mining proof is read back as it was written.\<close>

theorem AuxPow_roundtrip:
  assumes "auxpow_ok ap"
  shows "\<exists>bs. AuxPow_Serialize ap = Some bs \<and>
    AuxPow_Deserialize new_AuxPow (Rd k (bs @ rest)) = Some (ap, None, Rd k rest)"
  using AuxPow_codec [OF assms, of new_AuxPow] by blast

theorem AuxPow_roundtrip_witness:
  "\<exists>bs. AuxPow_Serialize (with_parent sample_btctx) = Some bs \<and>
    AuxPow_Deserialize new_AuxPow (Rd BytesReader (bs @ [])) = Some (with_parent sample_btctx, None, Rd BytesReader [])"
  by (rule AuxPow_roundtrip)
     (simp add: auxpow_ok_def with_parent_def sample_btctx_def NewBtcTx_def btctx_ok_def bytes_ok_def
        sample_script_def pchMergedMiningHeader_def maxAlloc_def new_AuxPow_def)

end
