(* ===== verification/Merkle.thy ===== *)
theory Merkle
  imports Common_Types
begin

text \<open>
  \<^verbatim>\<open>crypto/merkleTree.go\<close>: the tree over the hashes of a block's transactions, built level by
  level, an odd last node being paired with itself. The root is shown equal to a direct
  recursion on hash lists, the depth is logarithmic, and the root binds the list: two
  lists of the same length with the same root are equal or exhibit a collision of
  SHA-256. It does not bind the length, since a repeated last element is invisible.
\<close>

section \<open>The tree\<close>

definition DOUBLE_SHA256 :: "Uint256 list \<Rightarrow> Uint256" where
  "DOUBLE_SHA256 s = hash256 (sha256 (concat (map Uint256_Serialize s)))"

datatype MerkleTreeNode =
  MerkleTreeNode (mt_Hash: Uint256) (mt_Left: "MerkleTreeNode option") (mt_Right: "MerkleTreeNode option")

record MerkleTree =
  mt_Depth :: nat
  mt_Root :: MerkleTreeNode

definition IsLeaf :: "MerkleTreeNode \<Rightarrow> bool" where
  "IsLeaf t \<longleftrightarrow> mt_Left t = None \<and> mt_Right t = None"

definition generateLeaves :: "Uint256 list \<Rightarrow> MerkleTreeNode list" where
  "generateLeaves hashes = map (\<lambda>d. MerkleTreeNode d None None) hashes"

fun levelUp :: "MerkleTreeNode list \<Rightarrow> MerkleTreeNode list" where
  "levelUp (a # b # nodes) =
     MerkleTreeNode (DOUBLE_SHA256 [mt_Hash a, mt_Hash b]) (Some a) (Some b) # levelUp nodes"
| "levelUp [a] = [MerkleTreeNode (DOUBLE_SHA256 [mt_Hash a, mt_Hash a]) (Some a) (Some a)]"
| "levelUp [] = []"

lemma length_levelUp: "length (levelUp nodes) = (length nodes + 1) div 2"
  by (induction nodes rule: levelUp.induct) auto

function build_levels :: "MerkleTreeNode list \<Rightarrow> nat \<Rightarrow> MerkleTreeNode list \<times> nat" where
  "build_levels nodes height =
     (if length nodes > 1 then build_levels (levelUp nodes) (height + 1) else (nodes, height))"
  by pat_completeness auto
termination
  by (relation "measure (\<lambda>(nodes, height). length nodes)") (auto simp: length_levelUp)

declare build_levels.simps [simp del]

definition NewMerkleTree :: "Uint256 list \<Rightarrow> MerkleTree option \<times> goerr option" where
  "NewMerkleTree hashes =
     (if hashes = []
      then (None, NewDetailErr (Some (ErrNew ''NewMerkleTree input no item error.'')) ErrNoCode '''')
      else case build_levels (generateLeaves hashes) 1 of
             (nodes, height) \<Rightarrow> (Some \<lparr>mt_Depth = height, mt_Root = hd nodes\<rparr>, None))"

definition ComputeRoot :: "Uint256 list \<Rightarrow> Uint256 \<times> goerr option" where
  "ComputeRoot hashes =
     (if hashes = []
      then (0, NewDetailErr (Some (ErrNew ''NewMerkleTree input no item error.'')) ErrNoCode '''')
      else if length hashes = 1 then (hd hashes, None)
      else case NewMerkleTree hashes of
             (Some tree, _) \<Rightarrow> (mt_Hash (mt_Root tree), None)
           | (None, e) \<Rightarrow> (0, e))"

section \<open>The root without the tree\<close>

fun hash_level :: "Uint256 list \<Rightarrow> Uint256 list" where
  "hash_level (a # b # hs) = DOUBLE_SHA256 [a, b] # hash_level hs"
| "hash_level [a] = [DOUBLE_SHA256 [a, a]]"
| "hash_level [] = []"

lemma length_hash_level: "length (hash_level hs) = (length hs + 1) div 2"
  by (induction hs rule: hash_level.induct) auto

function merkle_root :: "Uint256 list \<Rightarrow> Uint256" where
  "merkle_root hs = (if length hs > 1 then merkle_root (hash_level hs) else hd hs)"
  by pat_completeness auto
termination
  by (relation "measure length") (auto simp: length_hash_level)

declare merkle_root.simps [simp del]

lemma levelUp_refines: "map mt_Hash (levelUp nodes) = hash_level (map mt_Hash nodes)"
  by (induction nodes rule: levelUp.induct) auto

lemma build_levels_root:
  "nodes \<noteq> [] \<Longrightarrow> fst (build_levels nodes height) \<noteq> [] \<and>
     mt_Hash (hd (fst (build_levels nodes height))) = merkle_root (map mt_Hash nodes)"
proof (induction nodes height rule: build_levels.induct)
  case (1 nodes height)
  show ?case
  proof (cases "length nodes > 1")
    case True
    then have "levelUp nodes \<noteq> []"
      using length_levelUp [of nodes] by auto
    then have "mt_Hash (hd (fst (build_levels (levelUp nodes) (height + 1)))) =
        merkle_root (hash_level (map mt_Hash nodes))"
      "fst (build_levels (levelUp nodes) (height + 1)) \<noteq> []"
      using 1 True by (simp_all add: levelUp_refines)
    then show ?thesis using True
      by (simp add: build_levels.simps [of nodes] merkle_root.simps [of "map mt_Hash nodes"])
  next
    case False
    then show ?thesis using 1(2)
      by (simp add: build_levels.simps [of nodes] merkle_root.simps [of "map mt_Hash nodes"] hd_map)
  qed
qed

lemma map_Hash_leaves [simp]: "map mt_Hash (generateLeaves hs) = hs"
  by (simp add: generateLeaves_def o_def)

lemma length_leaves [simp]: "length (generateLeaves hs) = length hs"
  by (simp add: generateLeaves_def)

lemma generateLeaves_Nil [simp]: "generateLeaves hs = [] \<longleftrightarrow> hs = []"
  by (simp add: generateLeaves_def)

lemma ComputeRoot_merkle_root:
  assumes "hs \<noteq> []"
  shows "ComputeRoot hs = (merkle_root hs, None)"
proof (cases "length hs = 1")
  case True
  then show ?thesis using assms by (simp add: ComputeRoot_def merkle_root.simps [of hs])
next
  case False
  have "mt_Hash (hd (fst (build_levels (generateLeaves hs) 1))) = merkle_root hs"
    using build_levels_root [of "generateLeaves hs" 1] assms by simp
  then show ?thesis using assms False
    by (simp add: ComputeRoot_def NewMerkleTree_def split_beta)
qed

section \<open>Depth\<close>

lemma build_levels_depth:
  assumes "nodes \<noteq> []"
  shows "\<exists>d. snd (build_levels nodes height) = height + d \<and> length nodes \<le> 2 ^ d \<and>
    (0 < d \<longrightarrow> 2 ^ (d - 1) < length nodes)"
  using assms
proof (induction nodes height rule: build_levels.induct)
  case (1 nodes height)
  show ?case
  proof (cases "length nodes > 1")
    case True
    define m where "m = length (levelUp nodes)"
    have m: "m = (length nodes + 1) div 2" unfolding m_def by (rule length_levelUp)
    then have "levelUp nodes \<noteq> []" using True m_def by auto
    then obtain d where d: "snd (build_levels (levelUp nodes) (height + 1)) = height + 1 + d"
      "m \<le> 2 ^ d" "0 < d \<longrightarrow> 2 ^ (d - 1) < m"
      using 1 True unfolding m_def by blast
    have "length nodes \<le> 2 * m" using m by linarith
    also have "\<dots> \<le> 2 ^ Suc d" using d(2) by simp
    finally have up: "length nodes \<le> 2 ^ Suc d" .
    have low: "2 ^ d < length nodes"
    proof (cases d)
      case 0
      then show ?thesis using True by simp
    next
      case (Suc e)
      then have "2 ^ e + 1 \<le> m" using d(3) by simp
      then have "2 * 2 ^ e + 2 \<le> 2 * m" by linarith
      also have "\<dots> \<le> length nodes + 1" using m by linarith
      finally show ?thesis using Suc by simp
    qed
    show ?thesis using True up low d(1) by (subst build_levels.simps) (auto intro!: exI [of _ "Suc d"])
  next
    case False
    then show ?thesis using 1(2) by (subst build_levels.simps) (auto intro!: exI [of _ 0])
  qed
qed

section \<open>Binding\<close>

text \<open>
  A search for a collision of SHA-256 among the strings hashed for two lists. That it
  returns nothing is the assumption under which the root binds the list.
\<close>

definition pair_collision :: "Uint256 list \<Rightarrow> Uint256 list \<Rightarrow> (byte list \<times> byte list) option" where
  "pair_collision u v =
     (let x = concat (map Uint256_Serialize u); y = concat (map Uint256_Serialize v)
      in if DOUBLE_SHA256 u = DOUBLE_SHA256 v \<and> x \<noteq> y
         then (if sha256 x = sha256 y then Some (x, y) else Some (sha256 x, sha256 y))
         else None)"

fun level_collision :: "Uint256 list \<Rightarrow> Uint256 list \<Rightarrow> (byte list \<times> byte list) option" where
  "level_collision (a # b # xs) (c # d # ys) =
     (case pair_collision [a, b] [c, d] of Some p \<Rightarrow> Some p | None \<Rightarrow> level_collision xs ys)"
| "level_collision [a] [c] = pair_collision [a, a] [c, c]"
| "level_collision _ _ = None"

function merkle_collision :: "Uint256 list \<Rightarrow> Uint256 list \<Rightarrow> (byte list \<times> byte list) option" where
  "merkle_collision xs ys =
     (if length xs = length ys \<and> length xs > 1
      then (case level_collision xs ys of
              Some p \<Rightarrow> Some p
            | None \<Rightarrow> merkle_collision (hash_level xs) (hash_level ys))
      else None)"
  by pat_completeness auto
termination
  by (relation "measure (\<lambda>(xs, ys). length xs)") (auto simp: length_hash_level)

declare merkle_collision.simps [simp del]

lemma pair_collision_real: "pair_collision u v = Some (x, y) \<Longrightarrow> x \<noteq> y \<and> sha256 x = sha256 y"
proof -
  assume c: "pair_collision u v = Some (x, y)"
  let ?x = "concat (map Uint256_Serialize u)" and ?y = "concat (map Uint256_Serialize v)"
  have "sha256 (sha256 ?x) = sha256 (sha256 ?y)" if "DOUBLE_SHA256 u = DOUBLE_SHA256 v"
    using that by (metis DOUBLE_SHA256_def hash256_array)
  then show ?thesis using c by (auto simp: pair_collision_def Let_def split: if_splits)
qed

lemma level_collision_real: "level_collision xs ys = Some (x, y) \<Longrightarrow> x \<noteq> y \<and> sha256 x = sha256 y"
  by (induction xs ys rule: level_collision.induct)
     (auto dest: pair_collision_real split: option.splits)

lemma merkle_collision_real: "merkle_collision xs ys = Some (x, y) \<Longrightarrow> x \<noteq> y \<and> sha256 x = sha256 y"
proof (induction xs ys rule: merkle_collision.induct)
  case (1 xs ys)
  have len: "length xs = length ys \<and> length xs > 1"
    using 1(2) by (subst (asm) merkle_collision.simps) (simp split: if_splits)
  show ?case
  proof (cases "level_collision xs ys")
    case None
    then have "merkle_collision (hash_level xs) (hash_level ys) = Some (x, y)"
      using 1(2) len by (subst (asm) merkle_collision.simps) simp
    then show ?thesis by (rule 1(1) [OF len None])
  next
    case (Some p)
    then have "p = (x, y)" using 1(2) len by (subst (asm) merkle_collision.simps) simp
    then show ?thesis using Some level_collision_real by blast
  qed
qed

lemma pair_inj:
  "pair_collision [a, b] [c, d] = None \<Longrightarrow> DOUBLE_SHA256 [a, b] = DOUBLE_SHA256 [c, d] \<Longrightarrow> a = c \<and> b = d"
  by (auto simp: pair_collision_def Let_def Uint256_Serialize_def split: if_splits)

lemma level_inj:
  "level_collision xs ys = None \<Longrightarrow> length xs = length ys \<Longrightarrow> hash_level xs = hash_level ys \<Longrightarrow> xs = ys"
  by (induction xs ys rule: level_collision.induct) (auto dest!: pair_inj split: option.splits)

lemma merkle_root_inj:
  "merkle_collision xs ys = None \<Longrightarrow> xs \<noteq> [] \<Longrightarrow> length xs = length ys \<Longrightarrow>
     merkle_root xs = merkle_root ys \<Longrightarrow> xs = ys"
proof (induction xs ys rule: merkle_collision.induct)
  case (1 xs ys)
  show ?case
  proof (cases "length xs > 1")
    case True
    then have "level_collision xs ys = None" "merkle_collision (hash_level xs) (hash_level ys) = None"
      using 1(2,4) by (subst (asm) merkle_collision.simps, simp split: option.splits)+
    moreover have "hash_level xs \<noteq> []" using length_hash_level [of xs] True by auto
    moreover have "merkle_root (hash_level xs) = merkle_root (hash_level ys)"
      using 1(4,5) True by (simp add: merkle_root.simps [of xs] merkle_root.simps [of ys])
    ultimately show ?thesis using 1(1,4) True level_inj [of xs ys] by (simp add: length_hash_level)
  next
    case False
    then obtain a b where "xs = [a]" "ys = [b]"
      using 1(3,4) by (cases xs; cases ys) auto
    then show ?thesis using 1(5) by (simp add: merkle_root.simps)
  qed
qed

text \<open>
  C17. The merkle root commits to the transaction hashes: two non-empty lists of the same
  length with the same root are equal, unless the strings hashed for them contain a
  collision of SHA-256, which is then computed.
\<close>

theorem ComputeRoot_binding:
  assumes "xs \<noteq> []" and "length xs = length ys" and "ComputeRoot xs = ComputeRoot ys"
  shows "case merkle_collision xs ys of
      None \<Rightarrow> xs = ys
    | Some (x, y) \<Rightarrow> x \<noteq> y \<and> sha256 x = sha256 y"
proof -
  have "merkle_root xs = merkle_root ys"
    using assms ComputeRoot_merkle_root [of xs] ComputeRoot_merkle_root [of ys]
    by (metis length_0_conv prod.inject)
  then show ?thesis
    using assms merkle_root_inj [of xs ys] merkle_collision_real [of xs ys] by (auto split: option.splits)
qed

theorem ComputeRoot_binding_witness:
  "case merkle_collision [5, 6, 7] [5, 6, 7] of
      None \<Rightarrow> [5, 6, 7 :: Uint256] = [5, 6, 7]
    | Some (x, y) \<Rightarrow> x \<noteq> y \<and> sha256 x = sha256 y"
  by (rule ComputeRoot_binding) simp_all

lemma hash_level_dup: "odd (length hs) \<Longrightarrow> hash_level (hs @ [last hs]) = hash_level hs"
  by (induction hs rule: hash_level.induct) auto

text \<open>
  C35. The root does not commit to the number of transactions: appending a copy of the last
  hash to a list of odd length, of at least three hashes, leaves the root unchanged.
\<close>

theorem ComputeRoot_duplicate:
  assumes "odd (length hs)" and "1 < length hs"
  shows "ComputeRoot (hs @ [last hs]) = ComputeRoot hs"
proof -
  have ne: "hs \<noteq> []" using assms by auto
  then have "merkle_root (hs @ [last hs]) = merkle_root (hash_level hs)"
    using assms by (simp add: merkle_root.simps [of "hs @ [last hs]"] hash_level_dup)
  also have "\<dots> = merkle_root hs" using assms by (simp add: merkle_root.simps [of hs])
  finally show ?thesis using ne by (simp add: ComputeRoot_merkle_root)
qed

theorem ComputeRoot_duplicate_witness:
  "ComputeRoot [1, 2, 3, 3] = ComputeRoot [1, 2, 3]"
  using ComputeRoot_duplicate [of "[1, 2, 3]"] by simp

text \<open>
  The tree is built for every non-empty list; its depth is the least \<open>d + 1\<close> with
  \<open>length hs \<le> 2 ^ d\<close>, and its root is the root of the hash lists.
\<close>

theorem NewMerkleTree_shape:
  assumes "hs \<noteq> []"
  shows "\<exists>t d. NewMerkleTree hs = (Some t, None) \<and> mt_Depth t = Suc d \<and> length hs \<le> 2 ^ d \<and>
    (0 < d \<longrightarrow> 2 ^ (d - 1) < length hs) \<and> mt_Hash (mt_Root t) = merkle_root hs"
  using assms build_levels_depth [of "generateLeaves hs" 1] build_levels_root [of "generateLeaves hs" 1]
  by (auto simp: NewMerkleTree_def length_leaves split: prod.splits)

theorem NewMerkleTree_shape_witness:
  "\<exists>t d. NewMerkleTree [1, 2, 3] = (Some t, None) \<and> mt_Depth t = Suc d \<and> length [1, 2, 3 :: Uint256] \<le> 2 ^ d \<and>
    (0 < d \<longrightarrow> 2 ^ (d - 1) < length [1, 2, 3 :: Uint256]) \<and> mt_Hash (mt_Root t) = merkle_root [1, 2, 3]"
  by (rule NewMerkleTree_shape) simp

end
