(* ===== verification/Block_Model.thy ===== *)
theory Block_Model
  imports Transaction_Ops AuxPow Merkle
begin

text \<open>
  \<^verbatim>\<open>core/ledger/blockdata.go\<close>, \<^verbatim>\<open>block.go\<close> and \<^verbatim>\<open>header.go\<close>: block headers, blocks and their
  wire and storage codings, the block hash, the genesis block and the merkle root of the
  transactions. The unused fields \<^verbatim>\<open>Program\<close> and \<^verbatim>\<open>hash\<close> of \<^verbatim>\<open>Blockdata\<close> are left out.
\<close>

section \<open>Headers\<close>

record Blockdata =
  bd_Version :: u32
  bd_PrevBlockHash :: Uint256
  bd_TransactionsRoot :: Uint256
  bd_Timestamp :: u32
  bd_Bits :: u32
  bd_Height :: u32
  bd_Nonce :: u32
  bd_AuxPow :: AuxPow

definition new_Blockdata :: Blockdata where
  "new_Blockdata =
     \<lparr>bd_Version = 0, bd_PrevBlockHash = 0, bd_TransactionsRoot = 0, bd_Timestamp = 0, bd_Bits = 0,
      bd_Height = 0, bd_Nonce = 0, bd_AuxPow = new_AuxPow\<rparr>"

definition Blockdata_SerializeUnsigned :: "Blockdata \<Rightarrow> byte list" where
  "Blockdata_SerializeUnsigned bd =
     WriteUint32 (bd_Version bd) @ Uint256_Serialize (bd_PrevBlockHash bd) @
     Uint256_Serialize (bd_TransactionsRoot bd) @ WriteUint32 (bd_Timestamp bd) @
     WriteUint32 (bd_Bits bd) @ WriteUint32 (bd_Nonce bd) @ WriteUint32 (bd_Height bd)"

definition Blockdata_Serialize :: "Blockdata \<Rightarrow> byte list go" where
  "Blockdata_Serialize bd = do {
     ap \<leftarrow> AuxPow_Serialize (bd_AuxPow bd);
     Some (Blockdata_SerializeUnsigned bd @ ap @ [1]) }"

definition Blockdata_DeserializeUnsigned :: "Blockdata \<Rightarrow> Blockdata rdr" where
  "Blockdata_DeserializeUnsigned bd =
     rd_try_as (Detail ''Blockdata item Version Deserialize failed.'') ReadUint32 bd (\<lambda>temp.
     let bd = bd\<lparr>bd_Version := temp\<rparr> in
     rd_try_as (Detail ''Blockdata item preBlock Deserialize failed.'') (Uint256_Deserialize 0) bd (\<lambda>preBlock.
     let bd = bd\<lparr>bd_PrevBlockHash := preBlock\<rparr> in
     rd_try (Uint256_Deserialize 0) bd (\<lambda>txRoot.
     let bd = bd\<lparr>bd_TransactionsRoot := txRoot\<rparr> in
     rd_ign ReadUint32 (\<lambda>temp. let bd = bd\<lparr>bd_Timestamp := temp\<rparr> in
     rd_ign ReadUint32 (\<lambda>temp. let bd = bd\<lparr>bd_Bits := temp\<rparr> in
     rd_ign ReadUint32 (\<lambda>temp. let bd = bd\<lparr>bd_Nonce := temp\<rparr> in
     rd_ign ReadUint32 (\<lambda>temp. rd_ret (bd\<lparr>bd_Height := temp\<rparr>))))))))"

text \<open>The errors of the header fields and of the merged-mining proof are dropped.\<close>

definition Blockdata_Deserialize :: "Blockdata \<Rightarrow> Blockdata rdr" where
  "Blockdata_Deserialize bd =
     rd_ign (Blockdata_DeserializeUnsigned bd) (\<lambda>bd.
     rd_ign (AuxPow_Deserialize (bd_AuxPow bd)) (\<lambda>ap.
     let bd = bd\<lparr>bd_AuxPow := ap\<rparr>;
         bad = Detail '''' (ErrNew ''Blockdata Deserialize get format error.'')
     in (\<lambda>r. case rd_Read 1 r of (p, _, r') \<Rightarrow>
               if p \<noteq> [] then (if p ! 0 \<noteq> 1 then Some (bd, Some bad, r') else Some (bd, None, r'))
               else Some (bd, Some bad, r'))))"

definition Blockdata_Hash :: "Blockdata \<Rightarrow> Uint256" where
  "Blockdata_Hash bd = hash256 (sha256 (Blockdata_SerializeUnsigned bd))"

text \<open>A header on the wire is the block data followed by the character 0; any byte is accepted there.\<close>

definition Header_Serialize :: "Blockdata \<Rightarrow> byte list go" where
  "Header_Serialize h = do { bs \<leftarrow> Blockdata_Serialize h; Some (bs @ [0x30]) }"

definition Header_Deserialize :: "Blockdata rdr" where
  "Header_Deserialize =
     rd_ign (Blockdata_Deserialize new_Blockdata) (\<lambda>h. rd_try rd_full1 h (\<lambda>flag. rd_ret h))"

section \<open>Blocks\<close>

record Block =
  bk_Blockdata :: "Blockdata option"
  bk_Transactions :: "Transaction list"
  bk_hash :: "Uint256 option"

definition new_Block :: Block where
  "new_Block = \<lparr>bk_Blockdata = None, bk_Transactions = [], bk_hash = None\<rparr>"

fun write_txs :: "Transaction list \<Rightarrow> byte list go" where
  "write_txs [] = Some []"
| "write_txs (t # ts) = do { (bs, err) \<leftarrow> Transaction_Serialize t; rest \<leftarrow> write_txs ts; Some (bs @ rest) }"

definition Block_Serialize :: "Block \<Rightarrow> byte list go" where
  "Block_Serialize b =
     (case bk_Blockdata b of
        None \<Rightarrow> panic
      | Some bd \<Rightarrow> do {
          hd \<leftarrow> Blockdata_Serialize bd;
          txs \<leftarrow> write_txs (bk_Transactions b);
          Some (hd @ WriteUint32 (word_of_nat (length (bk_Transactions b))) @ txs) })"

text \<open>The loop of \<^verbatim>\<open>Deserialize\<close>: errors are dropped, every transaction is hashed.\<close>

primrec read_txs :: "nat \<Rightarrow> (Transaction \<times> Uint256) list rdr" where
  "read_txs 0 = rd_ret []"
| "read_txs (Suc n) =
     rd_ign (Transaction_Deserialize new_Transaction) (\<lambda>t r.
       case Transaction_Hash t of
         None \<Rightarrow> panic
       | Some (h, t') \<Rightarrow> rd_ign (read_txs n) (\<lambda>ts. rd_ret ((t', h) # ts)) r)"

text \<open>The end of both deserializers: the root is recomputed from the transaction hashes.\<close>

definition set_root :: "Block \<Rightarrow> Blockdata \<Rightarrow> Uint256 list \<Rightarrow> Block rdr" where
  "set_root b bd tharray =
     (case ComputeRoot tharray of
        (root, err) \<Rightarrow>
          let b = b\<lparr>bk_Blockdata := Some (bd\<lparr>bd_TransactionsRoot := root\<rparr>)\<rparr>
          in case err of
               Some e \<Rightarrow> rd_fail b (Detail ''Block Deserialize merkleTree compute failed'' e)
             | None \<Rightarrow> rd_ret b)"

definition Block_Deserialize :: "Block \<Rightarrow> Block rdr" where
  "Block_Deserialize b =
     (let bd0 = (case bk_Blockdata b of None \<Rightarrow> new_Blockdata | Some bd \<Rightarrow> bd) in
      rd_ign (Blockdata_Deserialize bd0) (\<lambda>bd.
      let b = b\<lparr>bk_Blockdata := Some bd\<rparr> in
      rd_try ReadUint32 b (\<lambda>Len.
      rd_ign (read_txs (unat Len)) (\<lambda>ths.
      set_root (b\<lparr>bk_Transactions := bk_Transactions b @ map fst ths\<rparr>) bd (map snd ths)))))"

fun trim_txs :: "Transaction list \<Rightarrow> byte list go" where
  "trim_txs [] = Some []"
| "trim_txs (t # ts) =
     do { (h, _) \<leftarrow> Transaction_Hash t; rest \<leftarrow> trim_txs ts; Some (Uint256_Serialize h @ rest) }"

definition Block_Trim :: "Block \<Rightarrow> byte list go" where
  "Block_Trim b =
     (case bk_Blockdata b of
        None \<Rightarrow> panic
      | Some bd \<Rightarrow> do {
          hd \<leftarrow> Blockdata_Serialize bd;
          txs \<leftarrow> trim_txs (bk_Transactions b);
          Some (hd @ WriteUint32 (word_of_nat (length (bk_Transactions b))) @ txs) })"

text \<open>One variable holds the hash of every round: a failed read repeats the last one.\<close>

primrec read_hashes :: "nat \<Rightarrow> Uint256 \<Rightarrow> Uint256 list rdr" where
  "read_hashes 0 txhash = rd_ret []"
| "read_hashes (Suc n) txhash =
     rd_ign (Uint256_Deserialize txhash) (\<lambda>h. rd_ign (read_hashes n h) (\<lambda>hs. rd_ret (h # hs)))"

definition FromTrimmedData :: "Block \<Rightarrow> Block rdr" where
  "FromTrimmedData b =
     (let bd0 = (case bk_Blockdata b of None \<Rightarrow> new_Blockdata | Some bd \<Rightarrow> bd) in
      rd_ign (Blockdata_Deserialize bd0) (\<lambda>bd.
      let b = b\<lparr>bk_Blockdata := Some bd\<rparr> in
      rd_try ReadUint32 b (\<lambda>Len.
      rd_ign (read_hashes (unat Len) 0) (\<lambda>hs.
      set_root (b\<lparr>bk_Transactions := bk_Transactions b @ map (\<lambda>h. new_Transaction\<lparr>tx_hash := Some h\<rparr>) hs\<rparr>) bd hs))))"

definition Block_GetSize :: "Block \<Rightarrow> int go" where
  "Block_GetSize b = do { bs \<leftarrow> Block_Serialize b; Some (int (length bs)) }"

definition Block_Hash :: "Block \<Rightarrow> (Uint256 \<times> Block) go" where
  "Block_Hash b =
     (case bk_hash b of
        Some h \<Rightarrow> Some (h, b)
      | None \<Rightarrow>
          (case bk_Blockdata b of
             None \<Rightarrow> panic
           | Some bd \<Rightarrow> Some (Blockdata_Hash bd, b\<lparr>bk_hash := Some (Blockdata_Hash bd)\<rparr>)))"

fun hash_txs :: "Transaction list \<Rightarrow> (Uint256 list \<times> Transaction list) go" where
  "hash_txs [] = Some ([], [])"
| "hash_txs (t # ts) =
     do { (h, t') \<leftarrow> Transaction_Hash t; (hs, ts') \<leftarrow> hash_txs ts; Some (h # hs, t' # ts') }"

definition RebuildMerkleRoot :: "Block \<Rightarrow> (Block \<times> goerr option) go" where
  "RebuildMerkleRoot b = do {
     (hs, ts) \<leftarrow> hash_txs (bk_Transactions b);
     (let b = b\<lparr>bk_Transactions := ts\<rparr>
      in case ComputeRoot hs of
           (_, Some e) \<Rightarrow> Some (b, Some (Detail ''[Block] , RebuildMerkleRoot ComputeRoot failed.'' e))
         | (hash, None) \<Rightarrow>
             (case bk_Blockdata b of
                None \<Rightarrow> panic
              | Some bd \<Rightarrow> Some (b\<lparr>bk_Blockdata := Some (bd\<lparr>bd_TransactionsRoot := hash\<rparr>)\<rparr>, None))) }"

section \<open>The genesis block\<close>

definition FoundationAddress :: string where
  "FoundationAddress = ''ENvQCxmdXR8p134Crymff94BNbKicFJBLv''"

definition systemToken :: Transaction where
  "systemToken = new_Transaction
     \<lparr>tx_TxType := RegisterAsset, tx_PayloadVersion := 0,
      tx_Payload := Some (PRegisterAsset
        \<lparr>ra_Asset = new_Asset\<lparr>as_Name := [0x45, 0x4c, 0x41], as_Precision := 0x08, as_AssetType := 0x00\<rparr>,
         ra_Amount = 0, ra_Controller = 0\<rparr>)\<rparr>"

text \<open>\<open>rnd\<close> is the value of \<^verbatim>\<open>rand.Uint64()\<close>; the time stamp is 2017-10-01 00:00:00 UTC.\<close>

definition GenesisBlockInit ::
  "(string \<Rightarrow> string \<times> goerr option) \<Rightarrow> (string \<Rightarrow> string \<times> goerr option) \<Rightarrow> u64
     \<Rightarrow> (Block option \<times> goerr option) go"
where
  "GenesisBlockInit b58enc b58dec rnd = do {
     (foundationProgramHash, err) \<leftarrow> ToScriptHash b58enc b58dec FoundationAddress;
     (case err of
        Some e \<Rightarrow> Some (None, Some e)
      | None \<Rightarrow> do {
          (assetID, systemToken) \<leftarrow> Transaction_Hash systemToken;
          let trans = (NewCoinBaseTransaction [] 0)
                \<lparr>tx_Outputs := [\<lparr>to_AssetID = assetID, to_Value = 3300 * 10000 * 100000000,
                               to_ProgramHash = foundationProgramHash\<rparr>],
                 tx_Attributes := [NewTxAttribute 0x00 (rev (put_le 8 rnd))]\<rparr>;
          (hs, ts) \<leftarrow> hash_txs [trans, systemToken];
          (case ComputeRoot hs of
             (_, Some e) \<Rightarrow> Some (None, Some (Detail ''[GenesisBlock], merkle root error'' e))
           | (merkleRoot, None) \<Rightarrow>
               Some (Some \<lparr>bk_Blockdata = Some (new_Blockdata
                             \<lparr>bd_TransactionsRoot := merkleRoot, bd_Timestamp := 1506816000,
                              bd_Bits := 0x1d03ffff, bd_Nonce := 2083236893\<rparr>),
                           bk_Transactions = ts, bk_hash = None\<rparr>, None)) }) }"

section \<open>Round trips\<close>

definition blockdata_ok :: "Blockdata \<Rightarrow> bool" where
  "blockdata_ok bd \<longleftrightarrow> auxpow_ok (bd_AuxPow bd)"

lemma Blockdata_unsigned_rt:
  "Blockdata_DeserializeUnsigned z (Rd k (Blockdata_SerializeUnsigned bd @ rest)) =
     Some (bd\<lparr>bd_AuxPow := bd_AuxPow z\<rparr>, None, Rd k rest)"
  by (simp add: Blockdata_SerializeUnsigned_def Blockdata_DeserializeUnsigned_def rd_run field_rt Let_def)

lemma Blockdata_codec:
  assumes "blockdata_ok bd"
  shows "\<exists>bs. Blockdata_Serialize bd = Some bs \<and>
    (\<forall>z k rest. Blockdata_Deserialize z (Rd k (bs @ rest)) = Some (bd, None, Rd k rest))"
proof -
  have "\<exists>ab. AuxPow_Serialize (bd_AuxPow bd) = Some ab \<and>
      (\<forall>z k rest. AuxPow_Deserialize z (Rd k (ab @ rest)) = Some (bd_AuxPow bd, None, Rd k rest))"
    using AuxPow_codec assms unfolding blockdata_ok_def by (metis option.inject)
  then obtain ab where ab: "AuxPow_Serialize (bd_AuxPow bd) = Some ab"
    "\<And>z k rest. AuxPow_Deserialize z (Rd k (ab @ rest)) = Some (bd_AuxPow bd, None, Rd k rest)"
    by blast
  then show ?thesis
    by (simp add: Blockdata_Serialize_def Blockdata_Deserialize_def Blockdata_unsigned_rt rd_run rd_Read.simps Let_def)
qed

definition txid :: "Transaction \<Rightarrow> Uint256" where
  "txid t = (case Transaction_Hash t of Some (h, _) \<Rightarrow> h | None \<Rightarrow> 0)"

definition hashed :: "Transaction \<Rightarrow> Transaction" where
  "hashed t = t\<lparr>tx_hash := Some (txid t)\<rparr>"

lemma Transaction_Hash_ok:
  assumes "transaction_ok t"
  shows "Transaction_Hash t = Some (txid t, hashed t)"
proof -
  obtain bs where "SerializeUnsigned t = Some (bs, None)" using unsigned_roundtrip [OF assms] by blast
  moreover have "tx_hash t = None" using assms by (simp add: transaction_ok_def)
  ultimately show ?thesis by (simp add: txid_def hashed_def Transaction_Hash_def GetHashData_def Let_def)
qed

lemma write_txs_ok: "list_all transaction_ok ts \<Longrightarrow> write_txs ts = Some (concat (map tx_wire ts))"
proof (induction ts)
  case (Cons t ts)
  have "Transaction_Serialize t = Some (tx_wire t, None)"
    using Transaction_codec [of t BytesBuffer "[]"] Cons.prems by simp
  then show ?case using Cons by simp
qed simp

lemma read_txs_ok:
  "list_all transaction_ok ts \<Longrightarrow> roomy k rest \<Longrightarrow>
     read_txs (length ts) (Rd k (concat (map tx_wire ts) @ rest)) =
       Some (map (\<lambda>t. (hashed t, txid t)) ts, None, Rd k rest)"
  by (induction ts) (simp_all add: rd_run txn.roundtrip Transaction_Hash_ok)

lemma trim_txs_ok: "list_all transaction_ok ts \<Longrightarrow> trim_txs ts = Some (concat (map Uint256_Serialize (map txid ts)))"
  by (induction ts) (simp_all add: Transaction_Hash_ok)

lemma read_hashes_ok:
  "read_hashes (length hs) z (Rd k (concat (map Uint256_Serialize hs) @ rest)) = Some (hs, None, Rd k rest)"
  by (induction hs arbitrary: z) (simp_all add: rd_run u256.roundtrip)

text \<open>
  A block with a header and between 1 and \<open>2 ^ 32 - 1\<close> transactions, without a cached hash. Its merkle
  root may be any number.
\<close>

definition block_ok :: "Block \<Rightarrow> bool" where
  "block_ok b \<longleftrightarrow>
     (case bk_Blockdata b of None \<Rightarrow> False | Some bd \<Rightarrow> blockdata_ok bd) \<and>
     bk_Transactions b \<noteq> [] \<and> list_all transaction_ok (bk_Transactions b) \<and>
     length (bk_Transactions b) < 2 ^ 32 \<and> bk_hash b = None"

text \<open>The header with the merkle root of the block's transactions, as both deserializers set it.\<close>

definition rooted :: "Block \<Rightarrow> Blockdata option" where
  "rooted b = map_option (\<lambda>bd. bd\<lparr>bd_TransactionsRoot := merkle_root (map txid (bk_Transactions b))\<rparr>) (bk_Blockdata b)"

text \<open>What the bytes of a block keep of it.\<close>

definition wire_block :: "Block \<Rightarrow> Block" where
  "wire_block b = b\<lparr>bk_Transactions := map wire_form (bk_Transactions b), bk_hash := None\<rparr>"

lemma write_txs_wire: "write_txs (map wire_form ts) = write_txs ts"
  by (induction ts) (simp_all add: Serialize_wire_form)

lemma Block_Serialize_wire: "Block_Serialize (wire_block b) = Block_Serialize b"
proof -
  have "bk_Blockdata (wire_block b) = bk_Blockdata b" "bk_Transactions (wire_block b) = map wire_form (bk_Transactions b)"
    by (simp_all add: wire_block_def)
  then show ?thesis unfolding Block_Serialize_def by (simp only: write_txs_wire length_map)
qed

lemma set_root_ok:
  "hs \<noteq> [] \<Longrightarrow> set_root b bd hs r = Some (b\<lparr>bk_Blockdata := Some (bd\<lparr>bd_TransactionsRoot := merkle_root hs\<rparr>)\<rparr>, None, r)"
  by (simp add: set_root_def ComputeRoot_merkle_root Let_def)

lemma set_root_same:
  "hs \<noteq> [] \<Longrightarrow> bd_TransactionsRoot bd = merkle_root hs \<Longrightarrow> set_root b bd hs r = Some (b\<lparr>bk_Blockdata := Some bd\<rparr>, None, r)"
  by (cases bd) (simp add: set_root_ok)

lemma len32: "n < 2 ^ 32 \<Longrightarrow> unat (word_of_nat n :: u32) = n"
  by (rule unat_of_nat_small) simp

lemma block_codec:
  assumes "block_ok b"
  shows "\<exists>bs. Block_Serialize b = Some bs \<and> (\<forall>k rest. roomy k rest \<longrightarrow>
    Block_Deserialize new_Block (Rd k (bs @ rest)) =
      Some (b\<lparr>bk_Blockdata := rooted b, bk_Transactions := map hashed (bk_Transactions b)\<rparr>, None, Rd k rest))"
proof -
  obtain bd where bd: "bk_Blockdata b = Some bd" "blockdata_ok bd"
    using assms by (auto simp: block_ok_def split: option.splits)
  obtain hb where hb: "Blockdata_Serialize bd = Some hb"
    "\<And>z k rest. Blockdata_Deserialize z (Rd k (hb @ rest)) = Some (bd, None, Rd k rest)"
    using Blockdata_codec [OF bd(2)] by blast
  have "bk_Transactions b \<noteq> []" "list_all transaction_ok (bk_Transactions b)"
    "length (bk_Transactions b) < 2 ^ 32" "bk_hash b = None"
    using assms by (simp_all add: block_ok_def)
  then show ?thesis using bd hb
    by (simp add: Block_Serialize_def Block_Deserialize_def new_Block_def write_txs_ok rd_run field_rt len32
        read_txs_ok set_root_ok o_def rooted_def Let_def)
qed

text \<open>
  C14. A block whose transactions can be written is read back from what \<^verbatim>\<open>Serialize\<close> wrote: with
  the same header but for the merkle root, which is the one of the transactions whatever the header had,
  with what the bytes keep of its transactions, whose hashes are now cached, and nothing after the
  block is consumed.
\<close>

theorem Block_roundtrip:
  assumes "block_ok (wire_block b)" and "roomy k rest"
  shows "\<exists>bs bd. Block_Serialize b = Some bs \<and> bk_Blockdata b = Some bd \<and>
    Block_Deserialize new_Block (Rd k (bs @ rest)) =
      Some (\<lparr>bk_Blockdata = Some (bd\<lparr>bd_TransactionsRoot := merkle_root (map (txid \<circ> wire_form) (bk_Transactions b))\<rparr>),
             bk_Transactions = map (hashed \<circ> wire_form) (bk_Transactions b), bk_hash = None\<rparr>, None, Rd k rest)"
proof -
  obtain bd where bd: "bk_Blockdata b = Some bd"
    using assms(1) by (auto simp: block_ok_def wire_block_def split: option.splits)
  obtain bs where "Block_Serialize b = Some bs" "Block_Deserialize new_Block (Rd k (bs @ rest)) =
      Some ((wire_block b)\<lparr>bk_Blockdata := rooted (wire_block b), bk_Transactions := map hashed (bk_Transactions (wire_block b))\<rparr>,
            None, Rd k rest)"
    using block_codec [OF assms(1)] assms(2) unfolding Block_Serialize_wire by blast
  then show ?thesis using bd by (simp add: wire_block_def rooted_def)
qed

text \<open>
  C30. The storage form of a block keeps the header and the transaction hashes: read back, it
  is the block with every transaction replaced by an empty one that carries the hash, and with the
  merkle root of these hashes.
\<close>

theorem Trim_roundtrip:
  assumes "block_ok b"
  shows "\<exists>bs. Block_Trim b = Some bs \<and>
    FromTrimmedData new_Block (Rd k (bs @ rest)) =
      Some (b\<lparr>bk_Blockdata := rooted b,
              bk_Transactions := map (\<lambda>t. new_Transaction\<lparr>tx_hash := Some (txid t)\<rparr>) (bk_Transactions b)\<rparr>,
            None, Rd k rest)"
proof -
  obtain bd where bd: "bk_Blockdata b = Some bd" "blockdata_ok bd"
    using assms by (auto simp: block_ok_def split: option.splits)
  obtain hb where hb: "Blockdata_Serialize bd = Some hb"
    "\<And>z k rest. Blockdata_Deserialize z (Rd k (hb @ rest)) = Some (bd, None, Rd k rest)"
    using Blockdata_codec [OF bd(2)] by blast
  have "bk_Transactions b \<noteq> []" "list_all transaction_ok (bk_Transactions b)"
    "length (bk_Transactions b) < 2 ^ 32" "bk_hash b = None"
    using assms by (simp_all add: block_ok_def)
  then show ?thesis using bd hb read_hashes_ok [of "map txid (bk_Transactions b)" 0 k rest]
    by (simp add: Block_Trim_def FromTrimmedData_def new_Block_def trim_txs_ok rd_run field_rt len32
        set_root_ok o_def rooted_def Let_def)
qed

text \<open>A block whose header has another merkle root, and whose transactions have fees and a cached hash.\<close>

definition sample_block :: Block where
  "sample_block =
     \<lparr>bk_Blockdata = Some (new_Blockdata\<lparr>bd_TransactionsRoot := 5, bd_Timestamp := 7, bd_Height := 3\<rparr>),
      bk_Transactions = [sample_tx, sample_tx], bk_hash = None\<rparr>"

definition cached_block :: Block where
  "cached_block = sample_block\<lparr>bk_Transactions := [sample_tx\<lparr>tx_Fee := 3, tx_hash := Some 8\<rparr>, sample_tx], bk_hash := Some 9\<rparr>"

lemma sample_block_ok: "block_ok sample_block" "wire_block cached_block = sample_block"
proof -
  show "block_ok sample_block"
    using sample_tx_ok new_AuxPow_ok by (simp add: sample_block_def block_ok_def blockdata_ok_def new_Blockdata_def)
  show "wire_block cached_block = sample_block"
    by (simp add: wire_block_def cached_block_def sample_block_def wire_form_def sample_tx_def new_Transaction_def)
qed

theorem Block_roundtrip_witness:
  "\<exists>bs bd. Block_Serialize cached_block = Some bs \<and> bk_Blockdata cached_block = Some bd \<and>
    Block_Deserialize new_Block (Rd BytesReader (bs @ [1])) =
      Some (\<lparr>bk_Blockdata = Some (bd\<lparr>bd_TransactionsRoot := merkle_root (map (txid \<circ> wire_form) (bk_Transactions cached_block))\<rparr>),
             bk_Transactions = map (hashed \<circ> wire_form) (bk_Transactions cached_block), bk_hash = None\<rparr>, None, Rd BytesReader [1])"
  by (rule Block_roundtrip) (simp_all add: sample_block_ok)

theorem Trim_roundtrip_witness:
  "\<exists>bs. Block_Trim sample_block = Some bs \<and>
    FromTrimmedData new_Block (Rd BytesReader (bs @ [])) =
      Some (sample_block\<lparr>bk_Blockdata := rooted sample_block,
              bk_Transactions := map (\<lambda>t. new_Transaction\<lparr>tx_hash := Some (txid t)\<rparr>) (bk_Transactions sample_block)\<rparr>,
            None, Rd BytesReader [])"
  by (rule Trim_roundtrip [OF sample_block_ok(1)])

end
