(* ===== verification/Difficulty.thy ===== *)
theory Difficulty
  imports Block_Model
begin

text \<open>
  \<^verbatim>\<open>core/ledger/difficulty.go\<close>, the work of a block and the median of past time stamps from
  \<^verbatim>\<open>blockchain.go\<close>, and the chain parameters of \<^verbatim>\<open>common/config/config.go\<close>. The node that a
  pointer denotes, with its ancestors reached through \<^verbatim>\<open>Parent\<close>, is a list of nodes; the nil
  pointer is the empty list. Arbitrary-precision integers are \<open>int\<close>.
\<close>

unbundle bit_operations_syntax

section \<open>Chain parameters\<close>

text \<open>Durations are in seconds.\<close>

record ChainParams =
  cp_Name :: string
  cp_PowLimit :: int
  cp_PowLimitBits :: u32
  cp_TargetTimespan :: int
  cp_TargetTimePerBlock :: int
  cp_AdjustmentFactor :: int
  cp_MaxOrphanBlocks :: nat
  cp_MinMemoryNodes :: u32
  cp_SpendCoinbaseSpan :: u32

definition mainNet :: ChainParams where
  "mainNet = \<lparr>cp_Name = ''MainNet'', cp_PowLimit = 2 ^ 255 - 1, cp_PowLimitBits = 0x1f0008ff,
     cp_TargetTimespan = 60 * 2 * 720, cp_TargetTimePerBlock = 60 * 2, cp_AdjustmentFactor = 4,
     cp_MaxOrphanBlocks = 10000, cp_MinMemoryNodes = 20160, cp_SpendCoinbaseSpan = 100\<rparr>"

definition testNet :: ChainParams where
  "testNet = \<lparr>cp_Name = ''TestNet'', cp_PowLimit = 2 ^ 255 - 1, cp_PowLimitBits = 0x1e1da5ff,
     cp_TargetTimespan = 10 * 10, cp_TargetTimePerBlock = 10, cp_AdjustmentFactor = 4,
     cp_MaxOrphanBlocks = 10000, cp_MinMemoryNodes = 20160, cp_SpendCoinbaseSpan = 100\<rparr>"

definition regNet :: ChainParams where
  "regNet = \<lparr>cp_Name = ''RegNet'', cp_PowLimit = 2 ^ 255 - 1, cp_PowLimitBits = 0x207fffff,
     cp_TargetTimespan = 1 * 10, cp_TargetTimePerBlock = 1, cp_AdjustmentFactor = 4,
     cp_MaxOrphanBlocks = 10000, cp_MinMemoryNodes = 20160, cp_SpendCoinbaseSpan = 100\<rparr>"

definition targetTimespan :: "ChainParams \<Rightarrow> int" where
  "targetTimespan cp = cp_TargetTimespan cp"

definition blocksPerRetarget :: "ChainParams \<Rightarrow> u32" where
  "blocksPerRetarget cp = word_of_int (cp_TargetTimespan cp div cp_TargetTimePerBlock cp)"

definition minRetargetTimespan :: "ChainParams \<Rightarrow> int" where
  "minRetargetTimespan cp = cp_TargetTimespan cp div cp_AdjustmentFactor cp"

definition maxRetargetTimespan :: "ChainParams \<Rightarrow> int" where
  "maxRetargetTimespan cp = cp_TargetTimespan cp * cp_AdjustmentFactor cp"

section \<open>Compact targets\<close>

definition CompactToBig :: "u32 \<Rightarrow> int" where
  "CompactToBig compact =
     (let mantissa = compact AND 0x007fffff;
          isNegative = (compact AND 0x00800000 \<noteq> 0);
          exponent = unat (drop_bit 24 compact);
          bn = (if exponent \<le> 3 then uint (drop_bit (8 * (3 - exponent)) mantissa)
                else push_bit (8 * (exponent - 3)) (uint mantissa))
      in if isNegative then - bn else bn)"

text \<open>\<^verbatim>\<open>n.Bits()[0]\<close> is the lowest 64-bit word of the magnitude; \<^verbatim>\<open>Rsh\<close> rounds down.\<close>

definition BigToCompact :: "int \<Rightarrow> u32" where
  "BigToCompact n =
     (if n = 0 then 0
      else
        let exponent = length (big_Bytes n);
            mantissa = (if exponent \<le> 3 then push_bit (8 * (3 - exponent)) (word_of_int \<bar>n\<bar> :: u32)
                        else word_of_int \<bar>drop_bit (8 * (exponent - 3)) n\<bar>);
            (mantissa, exponent) =
              (if mantissa AND 0x00800000 \<noteq> 0 then (drop_bit 8 mantissa, exponent + 1) else (mantissa, exponent));
            compact = push_bit 24 (word_of_nat exponent) OR mantissa
        in if n < 0 then compact OR 0x00800000 else compact)"

definition HashToBig :: "Uint256 \<Rightarrow> int" where
  "HashToBig hash = int (be_val (reverse_loop (Uint256_ToArray hash) 0 31))"

definition CalcWork :: "u32 \<Rightarrow> int" where
  "CalcWork bits =
     (let difficultyNum = CompactToBig bits
      in if difficultyNum \<le> 0 then 0 else 2 ^ 256 div (difficultyNum + 1))"

section \<open>Block nodes\<close>

text \<open>Nodes refer to each other by address; \<^verbatim>\<open>Parent\<close> may be nil.\<close>

record BlockNode =
  bn_Hash :: Uint256
  bn_ParentHash :: Uint256
  bn_Height :: u32
  bn_Version :: u32
  bn_Bits :: u32
  bn_Timestamp :: u32
  bn_WorkSum :: int
  bn_InMainChain :: bool
  bn_Parent :: "nat option"
  bn_Children :: "nat list"

definition NewBlockNode :: "Blockdata \<Rightarrow> Uint256 \<Rightarrow> BlockNode" where
  "NewBlockNode blockHeader blockSha =
     \<lparr>bn_Hash = blockSha, bn_ParentHash = bd_PrevBlockHash blockHeader, bn_Height = bd_Height blockHeader,
      bn_Version = bd_Version blockHeader, bn_Bits = bd_Bits blockHeader, bn_Timestamp = bd_Timestamp blockHeader,
      bn_WorkSum = CalcWork (bd_Bits blockHeader), bn_InMainChain = False, bn_Parent = None, bn_Children = []\<rparr>"

section \<open>Retargeting\<close>

text \<open>The clamp of the measured timespan.\<close>

definition adjustTimespan :: "ChainParams \<Rightarrow> int \<Rightarrow> int" where
  "adjustTimespan cp actualTimespan =
     (if actualTimespan < minRetargetTimespan cp then minRetargetTimespan cp
      else if actualTimespan > maxRetargetTimespan cp then maxRetargetTimespan cp
      else actualTimespan)"

definition CalcNextRequiredDifficulty :: "ChainParams \<Rightarrow> BlockNode list \<Rightarrow> (u32 \<times> goerr option) go" where
  "CalcNextRequiredDifficulty cp chain =
     (case chain of
        [] \<Rightarrow> panic
      | prevNode # _ \<Rightarrow>
          if bn_Height prevNode = 0 \<or> cp_Name cp = ''RegNet'' then Some (cp_PowLimitBits cp, None)
          else if blocksPerRetarget cp = 0 then panic
          else if (bn_Height prevNode + 1) mod blocksPerRetarget cp \<noteq> 0 then Some (bn_Bits prevNode, None)
          else
            let height = bn_Height prevNode - blocksPerRetarget cp + 1
            in if height > bn_Height prevNode
               then Some (0, Some (ErrNew ''unable to obtain previous retarget block''))
               else
                 (case dropWhile (\<lambda>n. bn_Height n \<noteq> height) chain of
                    [] \<Rightarrow> panic
                  | firstNode # _ \<Rightarrow>
                      let actualTimespan = uint (bn_Timestamp prevNode - bn_Timestamp firstNode);
                          adjustedTimespan = adjustTimespan cp actualTimespan;
                          oldTarget = CompactToBig (bn_Bits prevNode);
                          newTarget = oldTarget * adjustedTimespan div targetTimespan cp;
                          newTarget = (if newTarget > cp_PowLimit cp then cp_PowLimit cp else newTarget)
                      in Some (BigToCompact newTarget, None)))"

abbreviation (input) medianTimeBlocks :: nat where "medianTimeBlocks \<equiv> 11"

text \<open>The time is in seconds since 1970.\<close>

definition CalcPastMedianTime :: "BlockNode list \<Rightarrow> int go" where
  "CalcPastMedianTime chain =
     (let timestamps = sort (map (\<lambda>n. uint (bn_Timestamp n)) (take medianTimeBlocks chain));
          numNodes = length timestamps
      in if numNodes div 2 < length timestamps then Some (timestamps ! (numNodes div 2)) else panic)"

section \<open>Lemmas on compact targets\<close>

lemma unat_drop_bit32: "unat (drop_bit n (w :: u32)) = unat w div 2 ^ n"
proof -
  have "take_bit 32 (unat w) = unat w" using unsigned_less [of w] by (simp add: take_bit_nat_eq_self_iff)
  then show ?thesis by (simp only: unsigned_drop_bit_eq) (simp add: drop_bit_eq_div)
qed

lemma compact_parts:
  "unat (c AND 0x007fffff :: u32) = unat c mod 2 ^ 23"
  "(c AND 0x00800000 \<noteq> (0 :: u32)) \<longleftrightarrow> odd (unat c div 2 ^ 23)"
  "unat (drop_bit 24 c :: u32) = unat c div 2 ^ 24"
proof -
  have "c AND 0x007fffff = take_bit 23 c" by (simp add: take_bit_eq_mask mask_eq_exp_minus_1)
  then show "unat (c AND 0x007fffff :: u32) = unat c mod 2 ^ 23"
    by (simp only: unsigned_take_bit_eq) (simp add: take_bit_eq_mod)
  have "c AND 0x00800000 = c AND 2 ^ 23" by simp
  then have "(c AND 0x00800000 \<noteq> (0 :: u32)) \<longleftrightarrow> bit c 23"
    using and_exp_eq_0_iff_not_bit [of c 23] by simp
  also have "\<dots> \<longleftrightarrow> bit (unat c) 23" by (simp add: bit_unsigned_iff)
  finally show "(c AND 0x00800000 \<noteq> (0 :: u32)) \<longleftrightarrow> odd (unat c div 2 ^ 23)"
    by (simp add: bit_iff_odd)
  show "unat (drop_bit 24 c :: u32) = unat c div 2 ^ 24"
    by (rule unat_drop_bit32)
qed

definition compact_nat :: "nat \<Rightarrow> int" where
  "compact_nat c =
     (let m = c mod 2 ^ 23; e = c div 2 ^ 24;
          v = (if e \<le> 3 then m div 256 ^ (3 - e) else m * 256 ^ (e - 3))
      in if odd (c div 2 ^ 23) then - int v else int v)"

lemma CompactToBig_nat: "CompactToBig c = compact_nat (unat c)"
proof -
  have "uint (drop_bit (8 * (3 - e)) (c AND 0x007fffff :: u32)) = int ((unat c mod 2 ^ 23) div 256 ^ (3 - e))" for e
    by (simp only: uint_nat unat_drop_bit32 compact_parts pow256)
  moreover have "push_bit (8 * (e - 3)) (uint (c AND 0x007fffff :: u32)) = int ((unat c mod 2 ^ 23) * 256 ^ (e - 3))" for e
    by (simp only: uint_nat compact_parts pow256 push_bit_eq_mult of_nat_mult of_nat_power of_nat_numeral)
  ultimately show ?thesis
    unfolding CompactToBig_def compact_nat_def Let_def compact_parts by simp
qed

lemma or_disjoint:
  assumes "unat (m :: u32) < 2 ^ 24" and "e < 256"
  shows "unat (push_bit 24 (word_of_nat e) OR m) = e * 2 ^ 24 + unat m"
proof -
  have p: "unat (push_bit 24 (word_of_nat e :: u32)) = e * 2 ^ 24"
  proof -
    have "e * 2 ^ 24 < 2 ^ 32" using assms(2) by simp
    then have "unat (word_of_nat (e * 2 ^ 24) :: u32) = e * 2 ^ 24"
      by (intro unat_of_nat_small) simp
    moreover have "push_bit 24 (word_of_nat e :: u32) = word_of_nat (e * 2 ^ 24)"
      by (simp add: push_bit_eq_mult)
    ultimately show ?thesis by simp
  qed
  have "\<not> bit (push_bit 24 (word_of_nat e :: u32)) n \<or> \<not> bit m n" for n
  proof (cases "n < 24")
    case True
    then show ?thesis by (simp add: bit_push_bit_iff)
  next
    case False
    have "unat m div 2 ^ n = 0"
      using assms(1) False by (metis div_less linorder_not_less order_less_le_trans power_increasing_iff one_less_numeral_iff semiring_norm(76))
    then have "\<not> bit (unat m) n" by (simp add: bit_iff_odd)
    then show ?thesis by (auto simp: bit_unsigned_iff dest: bit_imp_possible_bit)
  qed
  then have "push_bit 24 (word_of_nat e) OR m = push_bit 24 (word_of_nat e) + m"
    by (rule disjunctive_add [symmetric])
  moreover have "e * 2 ^ 24 + unat m < 2 ^ 32" using assms by simp
  ultimately show ?thesis using p by (simp add: unat_word_ariths(1))
qed

text \<open>The mantissa and exponent that a positive target is coded with, as natural numbers.\<close>

definition raw_mantissa :: "nat \<Rightarrow> nat" where
  "raw_mantissa n = (let e = num_bytes n in if e \<le> 3 then n * 256 ^ (3 - e) else n div 256 ^ (e - 3))"

lemma raw_mantissa_bounds:
  assumes "0 < n"
  shows "2 ^ 16 \<le> raw_mantissa n" and "raw_mantissa n < 2 ^ 24"
proof -
  define e where "e = num_bytes n"
  have up: "n < 256 ^ e" and low: "256 ^ (e - 1) \<le> n"
    using num_bytes_upper [of n] num_bytes_lower [OF assms] by (simp_all add: e_def)
  have e: "0 < e" using assms by (simp add: e_def num_bytes_Suc)
  have "2 ^ 16 \<le> raw_mantissa n \<and> raw_mantissa n < 2 ^ 24"
  proof (cases "e \<le> 3")
    case True
    have "(256::nat) ^ e * 256 ^ (3 - e) = 256 ^ 3" "(256::nat) ^ (e - 1) * 256 ^ (3 - e) = 256 ^ 2"
      using True e by (simp_all flip: power_add)
    moreover have "n * 256 ^ (3 - e) < 256 ^ e * 256 ^ (3 - e)" using up by simp
    moreover have "256 ^ (e - 1) * 256 ^ (3 - e) \<le> n * 256 ^ (3 - e)" using low by simp
    moreover have "raw_mantissa n = n * 256 ^ (3 - e)" using True by (simp add: raw_mantissa_def e_def)
    ultimately show ?thesis by simp
  next
    case False
    have "3 + (e - 3) = e" "2 + (e - 3) = e - 1" using False by simp_all
    then have "(256::nat) ^ e = 256 ^ 3 * 256 ^ (e - 3)" "(256::nat) ^ (e - 1) = 256 ^ 2 * 256 ^ (e - 3)"
      by (metis power_add)+
    then have "n < 256 ^ 3 * 256 ^ (e - 3)" "256 ^ 2 * 256 ^ (e - 3) \<le> n" using up low by simp_all
    then have "n div 256 ^ (e - 3) < 256 ^ 3" "256 ^ 2 \<le> n div 256 ^ (e - 3)"
      by (simp_all only: div_less_iff_less_mult less_eq_div_iff_mult_less_eq zero_less_power zero_less_numeral)
    then show ?thesis using False by (simp add: raw_mantissa_def Let_def e_def)
  qed
  then show "2 ^ 16 \<le> raw_mantissa n" and "raw_mantissa n < 2 ^ 24" by simp_all
qed

lemma length_big_Bytes: "length (big_Bytes (int n)) = num_bytes n"
  by (simp add: big_Bytes_def)

lemma BigToCompact_mantissa:
  assumes "0 < n"
  shows "unat (if num_bytes n \<le> 3 then push_bit (8 * (3 - num_bytes n)) (word_of_int \<bar>int n\<bar> :: u32)
      else word_of_int \<bar>drop_bit (8 * (num_bytes n - 3)) (int n)\<bar>) = raw_mantissa n"
proof -
  have small: "unat (word_of_nat (raw_mantissa n) :: u32) = raw_mantissa n"
    by (rule unat_of_nat_small) (use raw_mantissa_bounds [OF assms] in simp)
  show ?thesis
  proof (cases "num_bytes n \<le> 3")
    case True
    have "push_bit (8 * (3 - num_bytes n)) (word_of_int (int n) :: u32) = word_of_nat (raw_mantissa n)"
      using True by (simp add: raw_mantissa_def push_bit_eq_mult pow256)
    then show ?thesis using True small by simp
  next
    case False
    have "drop_bit (8 * (num_bytes n - 3)) (int n) = int (raw_mantissa n)"
      using False by (simp add: raw_mantissa_def Let_def drop_bit_eq_div pow256 zdiv_int)
    then show ?thesis using False small by simp
  qed
qed

definition compact_code :: "nat \<Rightarrow> nat" where
  "compact_code n =
     (let m = raw_mantissa n; e = num_bytes n
      in if 2 ^ 23 \<le> m then (e + 1) * 2 ^ 24 + m div 256 else e * 2 ^ 24 + m)"

lemma BigToCompact_code:
  assumes "0 < n" and "num_bytes n < 255"
  shows "unat (BigToCompact (int n)) = compact_code n"
proof -
  define M :: u32 where "M = (if num_bytes n \<le> 3 then push_bit (8 * (3 - num_bytes n)) (word_of_int \<bar>int n\<bar>)
      else word_of_int \<bar>drop_bit (8 * (num_bytes n - 3)) (int n)\<bar>)"
  have M: "unat M = raw_mantissa n" unfolding M_def by (rule BigToCompact_mantissa [OF assms(1)])
  note b = raw_mantissa_bounds [OF assms(1)]
  have "raw_mantissa n div 2 ^ 23 \<in> {0, 1}" using b(2) by (auto simp: less_mult_imp_div_less)
  then have hi: "(M AND 0x00800000 \<noteq> 0) \<longleftrightarrow> 2 ^ 23 \<le> raw_mantissa n"
    unfolding compact_parts M using div_eq_0_iff [of "raw_mantissa n" "2 ^ 23"] by auto
  have "BigToCompact (int n) =
      (if M AND 0x00800000 \<noteq> 0 then push_bit 24 (word_of_nat (num_bytes n + 1)) OR drop_bit 8 M
       else push_bit 24 (word_of_nat (num_bytes n)) OR M)"
    using assms(1) unfolding BigToCompact_def Let_def length_big_Bytes M_def [symmetric] by simp
  moreover have "unat (push_bit 24 (word_of_nat (num_bytes n + 1)) OR drop_bit 8 M) =
      (num_bytes n + 1) * 2 ^ 24 + raw_mantissa n div 256"
  proof -
    have "unat (drop_bit 8 M) = raw_mantissa n div 256" by (simp only: unat_drop_bit32 M) simp
    then show ?thesis using or_disjoint [of "drop_bit 8 M" "num_bytes n + 1"] b(2) assms(2)
      by (simp add: less_mult_imp_div_less)
  qed
  moreover have "unat (push_bit 24 (word_of_nat (num_bytes n)) OR M) = num_bytes n * 2 ^ 24 + raw_mantissa n"
    using or_disjoint [of M "num_bytes n"] M b(2) assms(2) by simp
  ultimately show ?thesis unfolding compact_code_def Let_def using hi by auto
qed


lemma compact_nat_parts: "m < 2 ^ 23 \<Longrightarrow>
   compact_nat (e * 2 ^ 24 + m) = int (if e \<le> 3 then m div 256 ^ (3 - e) else m * 256 ^ (e - 3))"
proof -
  assume m: "m < 2 ^ 23"
  have "(e * 2 ^ 24 + m) mod 2 ^ 23 = m" using m by (simp add: mod_add_left_eq [symmetric])
  moreover have "(e * 2 ^ 24 + m) div 2 ^ 24 = e" using m by simp
  moreover have "(e * 2 ^ 24 + m) div 2 ^ 23 = 2 * e"
  proof -
    have "e * 2 ^ 24 + m = m + (2 * e) * 2 ^ 23" by simp
    then have "(e * 2 ^ 24 + m) div 2 ^ 23 = (m + (2 * e) * 2 ^ 23) div 2 ^ 23" by (rule arg_cong)
    also have "\<dots> = 2 * e + m div 2 ^ 23" by (rule div_mult_self1) simp
    also have "\<dots> = 2 * e" using m by simp
    finally show ?thesis .
  qed
  ultimately show ?thesis by (simp add: compact_nat_def)
qed

text \<open>
  Coding a positive target rounds it down to a multiple of a power of 256 that is at most
  its 2 to the 15th part.
\<close>

lemma compact_code_rounds:
  assumes "0 < n"
  shows "\<exists>k. compact_nat (compact_code n) = int (n div 256 ^ k * 256 ^ k) \<and> (k = 0 \<or> 2 ^ 15 \<le> n div 256 ^ k)"
proof -
  define e where "e = num_bytes n"
  define m where "m = raw_mantissa n"
  have b: "2 ^ 16 \<le> m" "m < 2 ^ 24" using raw_mantissa_bounds [OF assms] by (simp_all add: m_def)
  have m: "m = (if e \<le> 3 then n * 256 ^ (3 - e) else n div 256 ^ (e - 3))"
    by (simp add: m_def raw_mantissa_def e_def)
  have code: "compact_code n = (if 2 ^ 23 \<le> m then (e + 1) * 2 ^ 24 + m div 256 else e * 2 ^ 24 + m)"
    by (simp add: compact_code_def m_def e_def Let_def)
  show ?thesis
  proof (cases "2 ^ 23 \<le> m")
    case False
    then have v: "compact_nat (compact_code n) = int (if e \<le> 3 then m div 256 ^ (3 - e) else m * 256 ^ (e - 3))"
      using compact_nat_parts [of m e] by (simp add: code)
    show ?thesis
    proof (cases "e \<le> 3")
      case True
      then show ?thesis using v m by (intro exI [of _ 0]) simp
    next
      case big: False
      then show ?thesis using v m b(1) by (intro exI [of _ "e - 3"]) simp
    qed
  next
    case True
    have "m div 256 < 2 ^ 23" using b(2) by (simp add: less_mult_imp_div_less)
    then have v: "compact_nat (compact_code n) =
        int (if e + 1 \<le> 3 then m div 256 div 256 ^ (3 - (e + 1)) else m div 256 * 256 ^ (e + 1 - 3))"
      using True compact_nat_parts [of "m div 256" "e + 1"] by (simp only: code if_True)
    have half: "2 ^ 15 \<le> m div 256" using True by (simp add: less_eq_div_iff_mult_less_eq)
    consider "e \<le> 2" | "e = 3" | "3 < e" by linarith
    then show ?thesis
    proof cases
      case 1
      have "(3 - e) = Suc (2 - e)" using 1 by simp
      then have "m = n * 256 ^ (2 - e) * 256" using m 1 by simp
      then have "m div 256 div 256 ^ (2 - e) = n" by simp
      moreover have "3 - (e + 1) = 2 - e" "e + 1 \<le> 3" using 1 by simp_all
      ultimately have "compact_nat (compact_code n) = int n" unfolding v by (simp only: if_True)
      then show ?thesis by (intro exI [of _ 0]) simp
    next
      case 2
      then show ?thesis using v m half by (intro exI [of _ 1]) simp
    next
      case 3
      have "Suc (e - 3) = e + 1 - 3" using 3 by simp
      then have "(256::nat) ^ (e - 3) * 256 = 256 ^ (e + 1 - 3)" by (metis power_Suc2)
      then have "m div 256 = n div 256 ^ (e + 1 - 3)" using m 3 by (simp add: div_mult2_eq [symmetric])
      then show ?thesis using v 3 half by (intro exI [of _ "e + 1 - 3"]) simp
    qed
  qed
qed

lemma num_bytes_less: "n < 256 ^ k \<Longrightarrow> num_bytes n \<le> k"
proof (cases "n = 0")
  case False
  assume "n < 256 ^ k"
  with num_bytes_lower [of n] False have "256 ^ (num_bytes n - 1) < (256::nat) ^ k"
    by (metis bot_nat_0.not_eq_extremum order_le_less_trans)
  then have "num_bytes n - 1 < k" by (rule power_less_imp_less_exp [rotated]) simp
  then show ?thesis by simp
qed simp

lemma compact_rounding:
  assumes "0 < n" and "n < 256 ^ 254"
  shows "0 < CompactToBig (BigToCompact n)" and "CompactToBig (BigToCompact n) \<le> n"
    and "n * (2 ^ 15 - 1) \<le> CompactToBig (BigToCompact n) * 2 ^ 15"
proof -
  define N where "N = nat n"
  have N: "n = int N" "0 < N" using assms(1) by (simp_all add: N_def)
  have "N < 256 ^ 254" using assms by (simp add: N_def nat_less_iff)
  then have "num_bytes N < 255" using num_bytes_less [of N 254] by linarith
  then obtain k where k: "CompactToBig (BigToCompact n) = int (N div 256 ^ k * 256 ^ k)"
    "k = 0 \<or> 2 ^ 15 \<le> N div 256 ^ k"
    using compact_code_rounds [OF N(2)] BigToCompact_code [OF N(2)] by (auto simp: CompactToBig_nat N(1))
  define q where "q = N div 256 ^ k"
  have split: "N = q * 256 ^ k + N mod 256 ^ k" by (simp only: q_def div_mult_mod_eq)
  have r: "N mod 256 ^ k < 256 ^ k" by simp
  have q: "0 < q" using k(2) N(2) by (auto simp: q_def)
  show "0 < CompactToBig (BigToCompact n)" using k(1) q by (simp add: q_def)
  have "int (N div 256 ^ k * 256 ^ k) \<le> int N" by (simp only: of_nat_le_iff div_times_less_eq_dividend)
  then show "CompactToBig (BigToCompact n) \<le> n" using k(1) N(1) by simp
  have "N * (2 ^ 15 - 1) \<le> q * 256 ^ k * 2 ^ 15"
  proof (cases "k = 0")
    case True
    then show ?thesis using split by simp
  next
    case False
    then have q15: "2 ^ 15 \<le> q" using k(2) by (simp add: q_def)
    have "(N mod 256 ^ k) * (2 ^ 15 - 1) \<le> 256 ^ k * q" by (intro mult_mono) (use r q15 in simp_all)
    then have "(N mod 256 ^ k) * (2 ^ 15 - 1) \<le> q * 256 ^ k" by (simp only: mult.commute)
    moreover have "N * (2 ^ 15 - 1) = q * 256 ^ k * (2 ^ 15 - 1) + (N mod 256 ^ k) * (2 ^ 15 - 1)"
      using split by (metis add_mult_distrib)
    ultimately show ?thesis by (simp add: algebra_simps)
  qed
  then have "int (N * (2 ^ 15 - 1)) \<le> int (q * 256 ^ k * 2 ^ 15)" by (simp only: of_nat_le_iff)
  then show "n * (2 ^ 15 - 1) \<le> CompactToBig (BigToCompact n) * 2 ^ 15"
    using k(1) N(1) unfolding q_def by simp
qed

lemma BigToCompact_0 [simp]: "BigToCompact 0 = 0"
  by (simp add: BigToCompact_def)

lemma CompactToBig_0 [simp]: "CompactToBig 0 = 0"
  by (simp add: CompactToBig_def)

lemma HashToBig_uint: "HashToBig h = uint h"
proof -
  have "reverse_loop (Uint256_ToArray h) 0 31 = rev (Uint256_ToArray h)"
    using BytesReverse_rev [of "Uint256_ToArray h"] unfolding BytesReverse_def length_ToArray by simp
  moreover have "be_val (rev (Uint256_ToArray h)) = unat h"
    unfolding Uint256_ToArray_def by (rule be_val_rev_put_le) simp
  ultimately show ?thesis by (simp add: HashToBig_def)
qed

section \<open>Properties\<close>

text \<open>
  C21. Packing a positive target into 32 bits and unpacking it loses at most one part in 2 to
  the 15: the result is positive, never above the target, and never below it by more.
\<close>

theorem compact_precision:
  assumes "0 < n" and "n < 256 ^ 254"
  shows "0 < CompactToBig (BigToCompact n) \<and> CompactToBig (BigToCompact n) \<le> n \<and>
    n * (2 ^ 15 - 1) \<le> CompactToBig (BigToCompact n) * 2 ^ 15"
  using compact_rounding [OF assms] by blast

theorem compact_precision_witness:
  "0 < CompactToBig (BigToCompact (2 ^ 255 - 1)) \<and> CompactToBig (BigToCompact (2 ^ 255 - 1)) \<le> 2 ^ 255 - 1 \<and>
    (2 ^ 255 - 1) * (2 ^ 15 - 1) \<le> CompactToBig (BigToCompact (2 ^ 255 - 1)) * 2 ^ 15"
  by (rule compact_precision) simp_all

text \<open>
  C22. A target is represented by one canonical code only: a code with clear sign bit, a
  mantissa of at least two to the 15 and an exponent from 3 to 254 is the code of the
  target it denotes.
\<close>

theorem compact_canonical:
  assumes "2 ^ 15 \<le> m" and "m < 2 ^ 23" and "3 \<le> e" and "e < 255"
    and "unat c = e * 2 ^ 24 + m"
  shows "BigToCompact (CompactToBig c) = c"
proof -
  define n where "n = m * 256 ^ (e - 3)"
  have big: "CompactToBig c = int n"
    using compact_nat_parts [OF assms(2), of e] assms(3) by (cases "e = 3") (simp_all add: CompactToBig_nat assms(5) n_def)
  have n: "0 < n" using assms(1) by (simp add: n_def)
  have "compact_code n = e * 2 ^ 24 + m \<and> num_bytes n < 255"
  proof (cases "2 ^ 16 \<le> m")
    case True
    have e: "e = Suc (2 + (e - 3))" using assms(3) by simp
    have "num_bytes n = Suc (2 + (e - 3))"
    proof (rule num_bytes_unique)
      have "256 ^ 2 * 256 ^ (e - 3) \<le> m * 256 ^ (e - 3)" using True by (intro mult_right_mono) simp_all
      then show "256 ^ (2 + (e - 3)) \<le> n" unfolding n_def power_add .
      have "m * 256 ^ (e - 3) < 256 ^ 3 * 256 ^ (e - 3)" using assms(2) by simp
      then show "n < 256 ^ Suc (2 + (e - 3))" unfolding n_def by (simp add: power_add)
    qed
    then have nb: "num_bytes n = e" using e by simp
    then have "raw_mantissa n = m" using assms(3) by (cases "e = 3") (simp_all add: raw_mantissa_def n_def)
    then show ?thesis using nb assms(2,4) by (simp add: compact_code_def Let_def)
  next
    case False
    have e: "e - 1 = Suc (1 + (e - 3))" using assms(3) by simp
    have "num_bytes n = Suc (1 + (e - 3))"
    proof (rule num_bytes_unique)
      have "256 ^ 1 * 256 ^ (e - 3) \<le> m * 256 ^ (e - 3)" using assms(1) by (intro mult_right_mono) simp_all
      then show "256 ^ (1 + (e - 3)) \<le> n" unfolding n_def power_add .
      have "m * 256 ^ (e - 3) < 256 ^ 2 * 256 ^ (e - 3)" using False by simp
      then show "n < 256 ^ Suc (1 + (e - 3))" unfolding n_def by (simp add: power_add)
    qed
    then have nb: "num_bytes n = e - 1" using e by simp
    have "raw_mantissa n = m * 256"
    proof (cases "e = 3")
      case True
      then show ?thesis using nb by (simp add: raw_mantissa_def n_def)
    next
      case e4: False
      show ?thesis
      proof (cases "e = 4")
        case True
        then show ?thesis using nb by (simp add: raw_mantissa_def n_def)
      next
        case False
        then have "e - 3 = Suc (e - 1 - 3)" using assms(3) e4 by simp
        then have "n = m * 256 * 256 ^ (e - 1 - 3)" by (simp add: n_def)
        moreover have "\<not> e - 1 \<le> 3" using assms(3) e4 False by simp
        ultimately show ?thesis using nb by (simp add: raw_mantissa_def)
      qed
    qed
    moreover have "2 ^ 23 \<le> m * 256" using assms(1) by simp
    ultimately show ?thesis using nb assms(3,4) by (simp add: compact_code_def Let_def)
  qed
  then have "unat (BigToCompact (CompactToBig c)) = unat c"
    using BigToCompact_code [OF n] assms(5) by (simp add: big)
  then show ?thesis by (simp add: word_unat_eq_iff)
qed

theorem compact_canonical_witness:
  "BigToCompact (CompactToBig 0x1e1da5ff) = 0x1e1da5ff"
  by (rule compact_canonical [where m = "0x1da5ff" and e = "0x1e"]) simp_all

text \<open>
  More work for a smaller target: the work of a block is positive exactly for the
  targets between 1 and 2 to the 256 minus one, and never grows with the target.
\<close>

theorem CalcWork_antimono:
  "(0 < CalcWork b \<longleftrightarrow> 0 < CompactToBig b \<and> CompactToBig b < 2 ^ 256) \<and>
   (0 < CompactToBig b \<longrightarrow> CompactToBig b \<le> CompactToBig b' \<longrightarrow> CalcWork b' \<le> CalcWork b)"
proof (intro conjI impI)
  show "0 < CalcWork b \<longleftrightarrow> 0 < CompactToBig b \<and> CompactToBig b < 2 ^ 256"
    by (auto simp: CalcWork_def Let_def pos_imp_zdiv_pos_iff)
  show "CalcWork b' \<le> CalcWork b" if "0 < CompactToBig b" "CompactToBig b \<le> CompactToBig b'"
    using that by (auto simp: CalcWork_def Let_def intro!: zdiv_mono2)
qed

theorem CalcWork_antimono_witness:
  "0 < CompactToBig 0x04000001 \<and> CalcWork 0x04000002 \<le> CalcWork 0x04000001"
proof -
  have "CompactToBig 0x04000001 = 256" "CompactToBig 0x04000002 = 512"
    by (simp_all add: CompactToBig_nat compact_nat_def)
  then show ?thesis using CalcWork_antimono [of "0x04000001" "0x04000002"] by simp
qed

text \<open>The parameters for which retargeting makes sense, which hold for the three networks.\<close>

definition params_ok :: "ChainParams \<Rightarrow> bool" where
  "params_ok cp \<longleftrightarrow>
     0 < cp_TargetTimespan cp \<and> 1 \<le> cp_AdjustmentFactor cp \<and>
     0 < cp_PowLimit cp \<and> cp_PowLimit cp < 256 ^ 254 \<and> blocksPerRetarget cp \<noteq> 0"

lemma nets_ok: "params_ok mainNet" "params_ok testNet" "params_ok regNet"
  by (simp_all add: params_ok_def mainNet_def testNet_def regNet_def blocksPerRetarget_def)

lemma adjustTimespan_bounds:
  "params_ok cp \<Longrightarrow> minRetargetTimespan cp \<le> adjustTimespan cp t \<and> adjustTimespan cp t \<le> maxRetargetTimespan cp"
proof -
  assume p: "params_ok cp"
  then have "cp_TargetTimespan cp div cp_AdjustmentFactor cp \<le> cp_TargetTimespan cp"
    using zdiv_mono2 [of "cp_TargetTimespan cp" 1 "cp_AdjustmentFactor cp"] by (simp add: params_ok_def)
  also have "\<dots> \<le> cp_TargetTimespan cp * cp_AdjustmentFactor cp"
    using p by (simp add: params_ok_def)
  finally show ?thesis
    by (auto simp: adjustTimespan_def minRetargetTimespan_def maxRetargetTimespan_def)
qed

text \<open>The new target before it is packed.\<close>

lemma retarget_range:
  fixes old t :: int and cp
  assumes "params_ok cp" and "0 \<le> old"
  defines "n \<equiv> old * adjustTimespan cp t div targetTimespan cp"
  shows "old * minRetargetTimespan cp div targetTimespan cp \<le> n" and "n \<le> old * cp_AdjustmentFactor cp"
    and "0 \<le> n"
proof -
  note b = adjustTimespan_bounds [OF assms(1), of t]
  have T: "0 < targetTimespan cp" using assms(1) by (simp add: params_ok_def targetTimespan_def)
  show "old * minRetargetTimespan cp div targetTimespan cp \<le> n"
    unfolding n_def using b T assms(2) by (intro zdiv_mono1 mult_left_mono) simp_all
  have "n \<le> old * maxRetargetTimespan cp div targetTimespan cp"
    unfolding n_def using b T assms(2) by (intro zdiv_mono1 mult_left_mono) simp_all
  also have "\<dots> = old * cp_AdjustmentFactor cp"
    using T by (simp add: maxRetargetTimespan_def targetTimespan_def)
  finally show "n \<le> old * cp_AdjustmentFactor cp" .
  have "0 \<le> minRetargetTimespan cp"
    using assms(1) by (simp add: minRetargetTimespan_def params_ok_def pos_imp_zdiv_nonneg_iff)
  then show "0 \<le> n" unfolding n_def using b T assms(2)
    by (intro pos_imp_zdiv_nonneg_iff [THEN iffD2] mult_nonneg_nonneg) simp_all
qed

text \<open>
  C20. At a retarget height the new difficulty is computed whenever the first node of the
  period is an ancestor, and it changes by a bounded factor: the new target is at most
  the old one times the adjustment factor and at most the proof-of-work limit, and at
  least the smaller of that limit and the old target scaled by the least timespan, up
  to the precision of the compact form.
\<close>

theorem retarget_bounds:
  fixes cp prev rest
  defines "height \<equiv> bn_Height prev - blocksPerRetarget cp + 1"
    and "old \<equiv> CompactToBig (bn_Bits prev)"
  assumes "params_ok cp" and "cp_Name cp \<noteq> ''RegNet''" and "bn_Height prev \<noteq> 0" and "0 < old"
    and "(bn_Height prev + 1) mod blocksPerRetarget cp = 0" and "height \<le> bn_Height prev"
    and "first \<in> set (prev # rest)" and "bn_Height first = height"
  shows "\<exists>bits. CalcNextRequiredDifficulty cp (prev # rest) = Some (bits, None) \<and>
    CompactToBig bits \<le> cp_PowLimit cp \<and> CompactToBig bits \<le> old * cp_AdjustmentFactor cp \<and>
    min (cp_PowLimit cp) (old * minRetargetTimespan cp div targetTimespan cp) * (2 ^ 15 - 1)
      \<le> CompactToBig bits * 2 ^ 15"
proof -
  have "dropWhile (\<lambda>n. bn_Height n \<noteq> height) (prev # rest) \<noteq> []"
    using assms(9,10) unfolding dropWhile_eq_Nil_conv by blast
  then obtain f fs where f: "dropWhile (\<lambda>n. bn_Height n \<noteq> height) (prev # rest) = f # fs"
    by (meson list.exhaust)
  define t where "t = uint (bn_Timestamp prev - bn_Timestamp f)"
  define n0 where "n0 = old * adjustTimespan cp t div targetTimespan cp"
  define n where "n = (if n0 > cp_PowLimit cp then cp_PowLimit cp else n0)"
  note r = retarget_range [OF assms(3), of old t, folded n0_def]
  have n: "min (cp_PowLimit cp) (old * minRetargetTimespan cp div targetTimespan cp) \<le> n"
    "n \<le> old * cp_AdjustmentFactor cp" "n \<le> cp_PowLimit cp" "0 \<le> n" "n < 256 ^ 254"
    using r assms(3,6) by (auto simp: n_def params_ok_def)
  have calc: "CalcNextRequiredDifficulty cp (prev # rest) = Some (BigToCompact n, None)"
    using assms(3-8) f
    by (simp add: CalcNextRequiredDifficulty_def params_ok_def Let_def height_def [symmetric] not_less
        n_def n0_def t_def old_def)
  have packed: "CompactToBig (BigToCompact n) \<le> n" "n * (2 ^ 15 - 1) \<le> CompactToBig (BigToCompact n) * 2 ^ 15"
    using compact_rounding [of n] n(4,5) by (cases "n = 0"; simp)+
  have "min (cp_PowLimit cp) (old * minRetargetTimespan cp div targetTimespan cp) * (2 ^ 15 - 1)
      \<le> n * (2 ^ 15 - 1)"
    using n(1) by (intro mult_right_mono) simp_all
  then show ?thesis using calc packed n(2,3) by force
qed

definition sample_node :: "u32 \<Rightarrow> u32 \<Rightarrow> BlockNode" where
  "sample_node h t = \<lparr>bn_Hash = ucast h, bn_ParentHash = 0, bn_Height = h, bn_Version = 0, bn_Bits = 0x1e1da5ff,
     bn_Timestamp = t, bn_WorkSum = 1, bn_InMainChain = True, bn_Parent = None, bn_Children = []\<rparr>"

definition sample_chain :: "BlockNode list" where
  "sample_chain = map (\<lambda>h. sample_node h (1000 + 10 * h)) [18, 17, 16, 15, 14, 13, 12, 11, 10]"

lemma sample_bits: "CompactToBig 0x1e1da5ff = 0x1da5ff * 256 ^ 27"
  by (simp add: CompactToBig_nat compact_nat_def)

theorem retarget_bounds_witness:
  "\<exists>bits. CalcNextRequiredDifficulty testNet (sample_node 19 1190 # sample_chain) = Some (bits, None) \<and>
    CompactToBig bits \<le> cp_PowLimit testNet \<and> CompactToBig bits \<le> 0x1da5ff * 256 ^ 27 * 4"
  using retarget_bounds [of testNet "sample_node 19 1190" "sample_node 10 1100" sample_chain] nets_ok(2) sample_bits
  by (auto simp: sample_node_def sample_chain_def testNet_def blocksPerRetarget_def)

text \<open>
  The timespan of a period is an unsigned difference: when the last block of a period is
  stamped before its first one, the difference wraps to a huge value, so the difficulty is
  eased by the full factor instead of being raised.
\<close>

theorem retarget_negative_timespan:
  assumes "tprev < tfirst" and "uint tfirst - uint tprev < 2 ^ 32 - maxRetargetTimespan mainNet"
  shows "adjustTimespan mainNet (uint ((tprev :: u32) - tfirst)) = maxRetargetTimespan mainNet"
proof -
  have "uint (tprev - tfirst) = uint tprev - uint tfirst + 2 ^ 32"
    using assms(1) by (simp add: uint_sub_if' word_less_def)
  then show ?thesis using assms(2)
    by (simp add: adjustTimespan_def maxRetargetTimespan_def minRetargetTimespan_def mainNet_def)
qed

theorem retarget_negative_timespan_witness:
  "adjustTimespan mainNet (uint ((1000 :: u32) - 1001)) = maxRetargetTimespan mainNet"
  by (rule retarget_negative_timespan) (simp_all add: maxRetargetTimespan_def mainNet_def)

lemma sorted_count_le:
  assumes "sorted xs" and "i < length xs"
  shows "Suc i \<le> length (filter (\<lambda>x. x \<le> xs ! i) xs)" and "length xs - i \<le> length (filter (\<lambda>x. xs ! i \<le> x) xs)"
proof -
  have split: "xs = take (Suc i) xs @ drop (Suc i) xs" "xs = take i xs @ drop i xs" by simp_all
  have "filter (\<lambda>x. x \<le> xs ! i) (take (Suc i) xs) = take (Suc i) xs"
    using assms by (intro filter_True) (auto simp: in_set_conv_nth sorted_nth_mono)
  then show "Suc i \<le> length (filter (\<lambda>x. x \<le> xs ! i) xs)"
    using assms(2) by (subst split(1)) (simp only: filter_append length_append, simp)
  have "filter (\<lambda>x. xs ! i \<le> x) (drop i xs) = drop i xs"
    using assms by (intro filter_True) (auto simp: in_set_conv_nth sorted_nth_mono)
  then show "length xs - i \<le> length (filter (\<lambda>x. xs ! i \<le> x) xs)"
    using assms(2) by (subst split(2)) (simp only: filter_append length_append, simp)
qed

lemma length_filter_sort: "length (filter P (sort xs)) = length (filter P xs)"
  by (simp add: filter_sort)

text \<open>
  C27. The median of the time stamps of the last eleven nodes: it is one of them, more than
  half of them are not later, and at least half are not earlier.
\<close>

theorem CalcPastMedianTime_median:
  fixes chain
  defines "ts \<equiv> map (\<lambda>n. uint (bn_Timestamp n)) (take medianTimeBlocks chain)"
  assumes "chain \<noteq> []"
  shows "\<exists>m. CalcPastMedianTime chain = Some m \<and> m \<in> set ts \<and>
    length ts < 2 * length (filter (\<lambda>t. t \<le> m) ts) \<and> length ts \<le> 2 * length (filter (\<lambda>t. m \<le> t) ts)"
proof -
  define s where "s = sort ts"
  define i where "i = length s div 2"
  have "ts \<noteq> []" using assms(2) by (simp add: ts_def)
  then have i: "i < length s" by (simp add: i_def s_def div_less_dividend)
  have med: "CalcPastMedianTime chain = Some (s ! i)"
    using i by (simp add: CalcPastMedianTime_def Let_def ts_def [symmetric] s_def i_def)
  have "s ! i \<in> set ts" using i by (metis nth_mem s_def set_sort)
  moreover have "Suc i \<le> length (filter (\<lambda>t. t \<le> s ! i) ts)" "length s - i \<le> length (filter (\<lambda>t. s ! i \<le> t) ts)"
    using sorted_count_le [OF _ i] unfolding s_def length_filter_sort by simp_all
  moreover have "length s = length ts" by (simp add: s_def)
  ultimately show ?thesis using med i_def by (intro exI [of _ "s ! i"]) auto
qed

theorem CalcPastMedianTime_median_witness:
  "\<exists>m. CalcPastMedianTime sample_chain = Some m \<and> m \<in> set (map (\<lambda>n. uint (bn_Timestamp n)) (take medianTimeBlocks sample_chain))"
  using CalcPastMedianTime_median [of sample_chain] by (auto simp: sample_chain_def)

end
