(* ===== verification/Tx_Validator.thy ===== *)
theory Tx_Validator
  imports Difficulty
begin

text \<open>
  \<^verbatim>\<open>core/ledger/txValidator.go\<close>: the checks of a single transaction, those that need no
  history (\<open>CheckTransactionSanity\<close>) and those against the ledger
  (\<open>CheckTransactionContext\<close>). What they ask of the ledger, the configuration, the
  address coding and the signature verification is collected in the record \<open>ledger_env\<close>.
  Where the code iterates over a Go map, whose order is random, the model uses the order
  of the outputs: only the choice among several error messages depends on it.
\<close>

record ledger_env =
  le_getTx :: tx_lookup
  le_getAsset :: "Uint256 \<Rightarrow> (goerr + Asset) go"
  le_isTxHashDuplicate :: "Uint256 \<Rightarrow> bool"
  le_isDoubleSpend :: "Transaction \<Rightarrow> bool"
  le_height :: u32
  le_AssetID :: Uint256
  le_b58enc :: "string \<Rightarrow> string \<times> goerr option"
  le_verify :: "Transaction \<Rightarrow> (bool \<times> goerr option) go"
  le_MaxBlockSize :: int
  le_MaxTxInBlock :: int
  le_MinTxFee :: int
  le_CoMining :: bool
  le_params :: ChainParams

section \<open>Checks without history\<close>

definition CheckTransactionSize :: "ledger_env \<Rightarrow> Transaction \<Rightarrow> goerr option go" where
  "CheckTransactionSize env txn = do {
     size \<leftarrow> Transaction_GetSize txn;
     Some (if size \<le> 0 \<or> size > le_MaxBlockSize env then Some (ErrNew ''Invalid transaction size'') else None) }"

text \<open>The loop over the inputs, with the inputs already seen.\<close>

fun check_inputs :: "UTXOTxInput list \<Rightarrow> UTXOTxInput list \<Rightarrow> goerr option" where
  "check_inputs seen [] = None"
| "check_inputs seen (u # us) =
     (if Uint256_CompareTo (ui_ReferTxID u) 0 = 0 \<and> ui_ReferTxOutputIndex u = - 1
      then Some (ErrNew ''invalid transaction input'')
      else if list_ex (\<lambda>v. ui_ReferTxID u = ui_ReferTxID v \<and> ui_ReferTxOutputIndex u = ui_ReferTxOutputIndex v) seen
      then Some (ErrNew ''duplicated transaction inputs'')
      else check_inputs (seen @ [u]) us)"

definition CheckTransactionInput :: "Transaction \<Rightarrow> goerr option" where
  "CheckTransactionInput txn =
     (if IsCoinBaseTx txn
      then (case tx_UTXOInputs txn of
              [u] \<Rightarrow> if Uint256_CompareTo (ui_ReferTxID u) 0 \<noteq> 0 \<or> ui_ReferTxOutputIndex u \<noteq> - 1
                     then Some (ErrNew ''invalid coinbase input'') else None
            | _ \<Rightarrow> Some (ErrNew ''coinbase must has only one input''))
      else if tx_UTXOInputs txn = [] then Some (ErrNew ''transaction has no inputs'')
      else check_inputs [] (tx_UTXOInputs txn))"

fun check_coinbase_outputs :: "ledger_env \<Rightarrow> bool \<Rightarrow> TxOutput list \<Rightarrow> goerr option" where
  "check_coinbase_outputs env found [] =
     (if \<not> found then Some (ErrNew ''no foundation address in coinbase output'') else None)"
| "check_coinbase_outputs env found (out # outs) =
     (if to_AssetID out \<noteq> le_AssetID env then Some (ErrNew ''asset ID in coinbase is invalid'')
      else check_coinbase_outputs env
             (if fst (Uint160_ToAddress (le_b58enc env) (to_ProgramHash out)) = FoundationAddress then True else found)
             outs)"

definition CheckTransactionOutput :: "ledger_env \<Rightarrow> Transaction \<Rightarrow> goerr option" where
  "CheckTransactionOutput env txn =
     (if IsCoinBaseTx txn
      then (if length (tx_Outputs txn) < 2 then Some (ErrNew ''coinbase output is not enough, at least 2'')
            else check_coinbase_outputs env False (tx_Outputs txn))
      else if tx_Outputs txn = [] then Some (ErrNew ''transaction has no outputs'') else None)"

text \<open>
  \<^verbatim>\<open>int64(math.Pow(10, 8-float64(precision)))\<close> is zero for a precision above eight, and the
  remainder by zero panics.
\<close>

definition checkAmountPrecise :: "Fixed64 \<Rightarrow> byte \<Rightarrow> bool go" where
  "checkAmountPrecise amount precision =
     (if unat precision \<le> 8 then Some (\<not> (10 ^ (8 - unat precision) dvd sint amount)) else panic)"

fun check_precision :: "ledger_env \<Rightarrow> TxOutput list \<Rightarrow> goerr option go" where
  "check_precision env [] = Some None"
| "check_precision env (out # outs) = do {
     r \<leftarrow> le_getAsset env (to_AssetID out);
     (case r of
        Inl err \<Rightarrow> Some (Some (ErrNew ''The asset not exist in local blockchain.''))
      | Inr asset \<Rightarrow> do {
          bad \<leftarrow> checkAmountPrecise (to_Value out) (as_Precision asset);
          (if bad then Some (Some (ErrNew ''The precision of asset is incorrect.''))
           else check_precision env outs) }) }"

definition CheckAssetPrecision :: "ledger_env \<Rightarrow> Transaction \<Rightarrow> goerr option go" where
  "CheckAssetPrecision env tx =
     (if tx_Outputs tx = [] then Some None else check_precision env (tx_Outputs tx))"

text \<open>The assets of the result map, in the order of the outputs and then of the references.\<close>

definition result_assets :: "ledger_env \<Rightarrow> Transaction \<Rightarrow> Uint256 list" where
  "result_assets env tx =
     map to_AssetID (tx_Outputs tx) @
     (case GetReference (le_getTx env) tx of
        Some (Inr refs) \<Rightarrow> map (\<lambda>(_, out). to_AssetID out) refs
      | _ \<Rightarrow> [])"

definition CheckTransactionBalance :: "ledger_env \<Rightarrow> Transaction \<Rightarrow> goerr option go" where
  "CheckTransactionBalance env tx =
     (if list_ex (\<lambda>v. to_Value v <=s 0) (tx_Outputs tx)
      then Some (Some (ErrNew ''Invalide transaction UTXO output.''))
      else do {
        r \<leftarrow> GetTransactionResults (le_getTx env) tx;
        Some (case r of
              Inl err \<Rightarrow> Some err
            | Inr results \<Rightarrow>
                if list_ex (\<lambda>k. case results k of
                                  None \<Rightarrow> False
                                | Some v \<Rightarrow> v <s word_of_int (le_MinTxFee env)) (result_assets env tx)
                then Some (ErrNew ''AssetID in Transfer transactions, input <= output .'')
                else None) })"

definition CheckAttributeProgram :: "Transaction \<Rightarrow> goerr option" where
  "CheckAttributeProgram tx = None"

definition CheckTransactionContracts :: "ledger_env \<Rightarrow> Transaction \<Rightarrow> goerr option go" where
  "CheckTransactionContracts env tx = do {
     (flag, err) \<leftarrow> le_verify env tx;
     Some (if flag \<and> err = None then None else err) }"

definition CheckTransactionPayload :: "Transaction \<Rightarrow> goerr option go" where
  "CheckTransactionPayload tx =
     (case tx_Payload tx of
        Some (PRegisterAsset pld) \<Rightarrow>
          if as_Precision (ra_Asset pld) < 0 \<or> as_Precision (ra_Asset pld) > 8
          then Some (Some (ErrNew ''Invalide asset Precision.''))
          else do {
            bad \<leftarrow> checkAmountPrecise (ra_Amount pld) (as_Precision (ra_Asset pld));
            Some (if bad then Some (ErrNew ''Invalide asset value,out of precise.'') else None) }
      | Some PTransferAsset \<Rightarrow> Some None
      | Some (PRecord _) \<Rightarrow> Some None
      | Some (PDeployCode _) \<Rightarrow> Some None
      | Some (PCoinBase _) \<Rightarrow> Some None
      | None \<Rightarrow> Some (Some (ErrNew ''[txValidator],invalidate transaction payload type.'')))"

definition CheckTransactionSanity :: "ledger_env \<Rightarrow> Transaction \<Rightarrow> ErrCode go" where
  "CheckTransactionSanity env txn = do {
     e \<leftarrow> CheckTransactionSize env txn;
     (if e \<noteq> None then Some ErrTransactionSize
      else if CheckTransactionInput txn \<noteq> None then Some ErrInvalidInput
      else if CheckTransactionOutput env txn \<noteq> None then Some ErrInvalidOutput
      else do {
        e \<leftarrow> CheckAssetPrecision env txn;
        (if e \<noteq> None then Some ErrAssetPrecision
         else if CheckAttributeProgram txn \<noteq> None then Some ErrAttributeProgram
         else do {
           e \<leftarrow> CheckTransactionPayload txn;
           (if e \<noteq> None then Some ErrTransactionPayload
            else if IsCoinBaseTx txn then Some ErrNoError
            else do {
              e \<leftarrow> CheckTransactionBalance env txn;
              (if e \<noteq> None then Some ErrTransactionBalance
               else do {
                 e \<leftarrow> CheckTransactionContracts env txn;
                 Some (if e \<noteq> None then ErrTransactionContracts else ErrNoError) }) }) }) }) }"

section \<open>Checks against the ledger\<close>

fun check_references :: "ledger_env \<Rightarrow> UTXOTxInput list \<Rightarrow> ErrCode go" where
  "check_references env [] = Some ErrNoError"
| "check_references env (input # inputs) = do {
     r \<leftarrow> le_getTx env (ui_ReferTxID input);
     (case r of
        Inl err \<Rightarrow> Some ErrUnknownReferedTxn
      | Inr (referTxn, _) \<Rightarrow>
          let index = unat (ui_ReferTxOutputIndex input)
          in if index \<ge> length (tx_Outputs referTxn) then panic
             else if to_Value (tx_Outputs referTxn ! index) <=s 0 then Some ErrInvalidReferedTxn
             else if IsCoinBaseTx referTxn \<and>
                     le_height env - tx_LockTime referTxn < cp_SpendCoinbaseSpan (le_params env)
             then Some ErrIneffectiveCoinbase
             else check_references env inputs) }"

definition CheckTransactionContext :: "ledger_env \<Rightarrow> Transaction \<Rightarrow> ErrCode go" where
  "CheckTransactionContext env txn = do {
     (h, _) \<leftarrow> Transaction_Hash txn;
     (if le_isTxHashDuplicate env h then Some ErrTxHashDuplicate
      else if IsCoinBaseTx txn then Some ErrNoError
      else if le_isDoubleSpend env txn then Some ErrDoubleSpend
      else check_references env (tx_UTXOInputs txn)) }"

section \<open>Lemmas\<close>

definition int_sum :: "Uint256 \<Rightarrow> TxOutput list \<Rightarrow> int" where
  "int_sum a vs = sum_list (map (\<lambda>v. sint (to_Value v)) (filter (\<lambda>v. to_AssetID v = a) vs))"

lemma asset_sum_word: "asset_sum a vs = word_of_int (int_sum a vs)"
proof -
  have "sum_list (map to_Value ws) = word_of_int (sum_list (map (\<lambda>v. sint (to_Value v)) ws))" for ws
    by (induction ws) (simp_all add: wi_hom_add [symmetric])
  then show ?thesis by (simp add: asset_sum_def int_sum_def)
qed

lemma sint_word_of_int64: "- (2 ^ 63) \<le> i \<Longrightarrow> i < 2 ^ 63 \<Longrightarrow> sint (word_of_int i :: i64) = i"
  by (simp add: signed_of_int signed_take_bit_int_eq_self)

lemma compare_zero: "Uint256_CompareTo h 0 = 0 \<longleftrightarrow> h = 0"
  by (simp add: Uint256_CompareTo_sign word_gt_0)

definition outpoint :: "UTXOTxInput \<Rightarrow> Uint256 \<times> u16" where
  "outpoint u = (ui_ReferTxID u, ui_ReferTxOutputIndex u)"

lemma check_inputs_step:
  "check_inputs seen (u # us) =
     (if outpoint u = (0, - 1) then Some (ErrNew ''invalid transaction input'')
      else if outpoint u \<in> outpoint ` set seen then Some (ErrNew ''duplicated transaction inputs'')
      else check_inputs (seen @ [u]) us)"
proof -
  have "list_ex (\<lambda>v. ui_ReferTxID u = ui_ReferTxID v \<and> ui_ReferTxOutputIndex u = ui_ReferTxOutputIndex v) seen
      \<longleftrightarrow> outpoint u \<in> outpoint ` set seen"
    by (auto simp: list_ex_iff outpoint_def)
  then show ?thesis by (simp add: compare_zero outpoint_def)
qed

lemma check_inputs_None:
  "distinct (map outpoint seen) \<Longrightarrow>
     check_inputs seen us = None \<longleftrightarrow>
       distinct (map outpoint (seen @ us)) \<and> list_all (\<lambda>u. outpoint u \<noteq> (0, - 1)) us"
proof (induction us arbitrary: seen)
  case Nil
  then show ?case by simp
next
  case (Cons u us)
  show ?case
  proof (cases "outpoint u = (0, - 1) \<or> outpoint u \<in> outpoint ` set seen")
    case True
    then show ?thesis unfolding check_inputs_step by auto
  next
    case False
    then have "distinct (map outpoint (seen @ [u]))" using Cons.prems by simp
    with Cons.IH [OF this] False show ?thesis unfolding check_inputs_step by simp
  qed
qed

lemma results_exist: "GetReference getTx tx = Some (Inr refs) \<Longrightarrow> \<exists>res. GetTransactionResults getTx tx = Some (Inr res)"
  by (simp add: GetTransactionResults_def GetMergedAssetIDValueFromReference_def Let_def)

lemma results_at:
  assumes "GetReference getTx tx = Some (Inr refs)" and "GetTransactionResults getTx tx = Some (Inr res)"
    and "a \<in> set (map to_AssetID (tx_Outputs tx)) \<union> set (map (\<lambda>(_, out). to_AssetID out) refs)"
  shows "res a = Some (asset_sum a (map snd refs) - asset_sum a (tx_Outputs tx))"
proof -
  define outs where "outs = (\<exists>v\<in>set (tx_Outputs tx). to_AssetID v = a)"
  define ins where "ins = (\<exists>v\<in>set (map snd refs). to_AssetID v = a)"
  have "outs \<or> ins" using assms(3) by (force simp: outs_def ins_def)
  moreover have "\<not> outs \<Longrightarrow> asset_sum a (tx_Outputs tx) = 0" "\<not> ins \<Longrightarrow> asset_sum a (map snd refs) = 0"
    using asset_sum_none unfolding outs_def ins_def by blast+
  moreover have "merge_amounts Map.empty (tx_Outputs tx) a = (if outs then Some (asset_sum a (tx_Outputs tx)) else None)"
    "merge_amounts Map.empty (map snd refs) a = (if ins then Some (asset_sum a (map snd refs)) else None)"
    unfolding outs_def ins_def by (rule merge_amounts_empty)+
  ultimately show ?thesis using assms(1,2)
    by (auto simp: GetTransactionResults_def GetMergedAssetIDValueFromReference_def
        GetMergedAssetIDValueFromOutputs_def Let_def)
qed

section \<open>Properties\<close>

text \<open>
  The input check accepts a coinbase exactly when its only input is the null outpoint, and
  any other transaction exactly when it has inputs, they designate pairwise different
  outputs, and none is the null outpoint.
\<close>

theorem CheckTransactionInput_iff:
  "CheckTransactionInput txn = None \<longleftrightarrow>
     (if IsCoinBaseTx txn then map outpoint (tx_UTXOInputs txn) = [(0, - 1)]
      else tx_UTXOInputs txn \<noteq> [] \<and> distinct (map outpoint (tx_UTXOInputs txn)) \<and>
           (0, - 1) \<notin> outpoint ` set (tx_UTXOInputs txn))"
proof (cases "IsCoinBaseTx txn")
  case True
  then show ?thesis
    by (auto simp: CheckTransactionInput_def compare_zero outpoint_def split: list.splits)
next
  case False
  have "check_inputs [] (tx_UTXOInputs txn) = None \<longleftrightarrow>
      distinct (map outpoint (tx_UTXOInputs txn)) \<and> (0, - 1) \<notin> outpoint ` set (tx_UTXOInputs txn)"
    using check_inputs_None [of "[]" "tx_UTXOInputs txn"] by (force simp: list_all_iff)
  then show ?thesis using False by (simp add: CheckTransactionInput_def)
qed

text \<open>
  C13. A balance that is accepted and whose sums stay within 63 bits creates no value: for every
  asset of the transaction, what it spends exceeds what it creates by at least the fee.
\<close>

theorem CheckTransactionBalance_sound:
  assumes "CheckTransactionBalance env tx = Some None" and "GetReference (le_getTx env) tx = Some (Inr refs)"
    and "a \<in> set (result_assets env tx)"
    and "0 \<le> int_sum a (tx_Outputs tx)" and "int_sum a (tx_Outputs tx) < 2 ^ 63"
    and "0 \<le> int_sum a (map snd refs)" and "int_sum a (map snd refs) < 2 ^ 63"
    and "0 \<le> le_MinTxFee env" and "le_MinTxFee env < 2 ^ 63"
  shows "int_sum a (tx_Outputs tx) + le_MinTxFee env \<le> int_sum a (map snd refs)"
proof -
  obtain res where res: "GetTransactionResults (le_getTx env) tx = Some (Inr res)"
    and ok: "\<not> list_ex (\<lambda>k. case res k of None \<Rightarrow> False | Some v \<Rightarrow> v <s word_of_int (le_MinTxFee env)) (result_assets env tx)"
    using assms(1) by (auto simp: CheckTransactionBalance_def split: if_splits sum.splits bind_splits)
  have "a \<in> set (map to_AssetID (tx_Outputs tx)) \<union> set (map (\<lambda>(_, out). to_AssetID out) refs)"
    using assms(2,3) by (auto simp: result_assets_def)
  then have "res a = Some (asset_sum a (map snd refs) - asset_sum a (tx_Outputs tx))"
    by (rule results_at [OF assms(2) res])
  then have r: "res a = Some (word_of_int (int_sum a (map snd refs) - int_sum a (tx_Outputs tx)))"
    by (simp add: asset_sum_word)
  have "\<not> (word_of_int (int_sum a (map snd refs) - int_sum a (tx_Outputs tx)) :: i64) <s word_of_int (le_MinTxFee env)"
    using ok r assms(3) by (force simp: list_ex_iff)
  moreover have "sint (word_of_int (int_sum a (map snd refs) - int_sum a (tx_Outputs tx)) :: i64) =
      int_sum a (map snd refs) - int_sum a (tx_Outputs tx)"
    "sint (word_of_int (le_MinTxFee env) :: i64) = le_MinTxFee env"
    using assms(4-9) by (intro sint_word_of_int64; simp)+
  ultimately show ?thesis unfolding word_sless_alt by linarith
qed

definition sample_env :: ledger_env where
  "sample_env =
     \<lparr>le_getTx = sample_lookup, le_getAsset = (\<lambda>a. Some (Inr (new_Asset\<lparr>as_Precision := 8\<rparr>))),
      le_isTxHashDuplicate = (\<lambda>h. False), le_isDoubleSpend = (\<lambda>t. False), le_height = 500, le_AssetID = 9,
      le_b58enc = (\<lambda>s. (s, None)), le_verify = (\<lambda>t. Some (True, None)), le_MaxBlockSize = 8000000,
      le_MaxTxInBlock = 10000, le_MinTxFee = 5, le_CoMining = False, le_params = mainNet\<rparr>"

lemma sample_balance: "CheckTransactionBalance sample_env sample_tx = Some None"
  using sample_reference
  by (simp add: CheckTransactionBalance_def sample_env_def GetTransactionResults_def result_assets_def
      GetMergedAssetIDValueFromReference_def GetMergedAssetIDValueFromOutputs_def sample_tx_def new_Transaction_def
      word_sless_alt word_sle_eq)

theorem CheckTransactionBalance_sound_witness:
  "int_sum 9 (tx_Outputs sample_tx) + le_MinTxFee sample_env \<le> 100000007"
proof -
  have "int_sum 9 (tx_Outputs sample_tx) + le_MinTxFee sample_env
      \<le> int_sum 9 (map snd [(\<lparr>ui_ReferTxID = 77, ui_ReferTxOutputIndex = 1, ui_Sequence = 5\<rparr>,
           \<lparr>to_AssetID = 9, to_Value = 100000007, to_ProgramHash = 8\<rparr>)])"
    by (rule CheckTransactionBalance_sound [OF sample_balance])
       (use sample_reference in \<open>simp_all add: sample_env_def sample_tx_def new_Transaction_def int_sum_def result_assets_def\<close>)
  then show ?thesis by (simp add: int_sum_def)
qed

text \<open>
  C34. The balance check does not guard the sums against overflow: a transaction that spends a
  single output can create two outputs whose sum exceeds every 63-bit amount, and is
  accepted whatever the fee.
\<close>

theorem CheckTransactionBalance_overflow:
  assumes "GetReference (le_getTx env) tx = Some (Inr [(u, out)])"
    and "0 \<le> sint (to_Value out)" and "sint (to_Value out) < 2 ^ 61"
    and "0 \<le> le_MinTxFee env" and "le_MinTxFee env < 2 ^ 61"
    and "tx_Outputs tx = [\<lparr>to_AssetID = to_AssetID out, to_Value = word_of_int (2 ^ 63 - 1), to_ProgramHash = p\<rparr>,
       \<lparr>to_AssetID = to_AssetID out, to_Value = word_of_int (2 ^ 63 - 1 - le_MinTxFee env), to_ProgramHash = q\<rparr>]"
  shows "CheckTransactionBalance env tx = Some None \<and>
    int_sum (to_AssetID out) (tx_Outputs tx) = 2 ^ 64 - 2 - le_MinTxFee env \<and>
    int_sum (to_AssetID out) (map snd [(u, out)]) < 2 ^ 61"
proof -
  define fee where "fee = le_MinTxFee env"
  have fee: "0 \<le> fee" "fee < 2 ^ 61" using assms(4,5) by (simp_all add: fee_def)
  have v: "sint (word_of_int (2 ^ 63 - 1) :: i64) = 2 ^ 63 - 1"
    "sint (word_of_int (2 ^ 63 - 1 - fee) :: i64) = 2 ^ 63 - 1 - fee"
    "sint (word_of_int fee :: i64) = fee"
    by (rule sint_word_of_int64; use fee in simp)+
  obtain res where res: "GetTransactionResults (le_getTx env) tx = Some (Inr res)"
    using results_exist [OF assms(1)] by blast
  have outs: "tx_Outputs tx = [\<lparr>to_AssetID = to_AssetID out, to_Value = word_of_int (2 ^ 63 - 1), to_ProgramHash = p\<rparr>,
       \<lparr>to_AssetID = to_AssetID out, to_Value = word_of_int (2 ^ 63 - 1 - fee), to_ProgramHash = q\<rparr>]"
    using assms(6) by (simp only: fee_def)
  have sums: "int_sum (to_AssetID out) (tx_Outputs tx) = 2 ^ 64 - 2 - fee"
    "int_sum (to_AssetID out) (map snd [(u, out)]) = sint (to_Value out)"
    unfolding outs by (simp_all add: int_sum_def v [simplified])
  have "res (to_AssetID out) = Some (asset_sum (to_AssetID out) (map snd [(u, out)]) - asset_sum (to_AssetID out) (tx_Outputs tx))"
    by (rule results_at [OF assms(1) res]) simp
  also have "asset_sum (to_AssetID out) (map snd [(u, out)]) - asset_sum (to_AssetID out) (tx_Outputs tx) =
      (word_of_int (sint (to_Value out) - (2 ^ 64 - 2 - fee)) :: i64)"
    unfolding asset_sum_word sums by (simp only: of_int_diff)
  also have "\<dots> = word_of_int (sint (to_Value out) + 2 + fee)"
  proof -
    have "sint (to_Value out) - (2 ^ 64 - 2 - fee) = sint (to_Value out) + 2 + fee - 2 ^ LENGTH(64)" by simp
    then show ?thesis by (simp only: of_int_diff word_of_int_2p_len diff_zero)
  qed
  finally have r: "res (to_AssetID out) = Some (word_of_int (sint (to_Value out) + 2 + fee))" .
  have "sint (word_of_int (sint (to_Value out) + 2 + fee) :: i64) = sint (to_Value out) + 2 + fee"
    by (rule sint_word_of_int64; use assms(2,3) fee in simp)
  then have "\<not> (word_of_int (sint (to_Value out) + 2 + fee) :: i64) <s word_of_int fee"
    using assms(2) v(3) unfolding word_sless_alt by linarith
  moreover have "\<not> (word_of_int (2 ^ 63 - 1) :: i64) <=s 0" "\<not> (word_of_int (2 ^ 63 - 1 - fee) :: i64) <=s 0"
    using v fee unfolding word_sle_eq by simp_all
  ultimately have "CheckTransactionBalance env tx = Some None"
    unfolding CheckTransactionBalance_def result_assets_def assms(1) res outs fee_def [symmetric]
    by (simp add: r del: of_int_diff of_int_add)
  then show ?thesis using sums assms(3) by (simp add: fee_def)
qed

definition inflating_tx :: Transaction where
  "inflating_tx = sample_tx\<lparr>tx_Outputs :=
     [\<lparr>to_AssetID = 9, to_Value = word_of_int (2 ^ 63 - 1), to_ProgramHash = 1\<rparr>,
      \<lparr>to_AssetID = 9, to_Value = word_of_int (2 ^ 63 - 1 - 5), to_ProgramHash = 1\<rparr>]\<rparr>"

theorem CheckTransactionBalance_overflow_witness:
  "CheckTransactionBalance sample_env inflating_tx = Some None \<and> int_sum 9 (tx_Outputs inflating_tx) = 2 ^ 64 - 2 - 5"
proof -
  have "GetReference (le_getTx sample_env) inflating_tx =
     Some (Inr [(\<lparr>ui_ReferTxID = 77, ui_ReferTxOutputIndex = 1, ui_Sequence = 5\<rparr>,
           \<lparr>to_AssetID = 9, to_Value = 100000007, to_ProgramHash = 8\<rparr>)])"
    using sample_reference by (simp add: GetReference_def inflating_tx_def sample_env_def split: if_splits)
  from CheckTransactionBalance_overflow [OF this, of 1 1] show ?thesis
    by (simp add: sample_env_def inflating_tx_def)
qed

lemma check_coinbase_outputs_None:
  "check_coinbase_outputs env found outs = None \<longleftrightarrow>
     list_all (\<lambda>v. to_AssetID v = le_AssetID env) outs \<and>
     (found \<or> list_ex (\<lambda>v. fst (Uint160_ToAddress (le_b58enc env) (to_ProgramHash v)) = FoundationAddress) outs)"
  by (induction env found outs rule: check_coinbase_outputs.induct) auto

text \<open>
  C12. A coinbase that passes the history-free checks has one input, the null one, and at least two
  outputs, all of the chain's asset and one to the foundation. Every other transaction that passes
  them has distinct non-null inputs, at least one output, only positive outputs, a balance that is
  accepted and signatures that are verified.
\<close>

theorem CheckTransactionSanity_sound:
  assumes "CheckTransactionSanity env txn = Some ErrNoError"
  shows "if IsCoinBaseTx txn
    then map outpoint (tx_UTXOInputs txn) = [(0, - 1)] \<and> 2 \<le> length (tx_Outputs txn) \<and>
      list_all (\<lambda>v. to_AssetID v = le_AssetID env) (tx_Outputs txn) \<and>
      list_ex (\<lambda>v. fst (Uint160_ToAddress (le_b58enc env) (to_ProgramHash v)) = FoundationAddress) (tx_Outputs txn)
    else tx_UTXOInputs txn \<noteq> [] \<and> distinct (map outpoint (tx_UTXOInputs txn)) \<and>
      (0, - 1) \<notin> outpoint ` set (tx_UTXOInputs txn) \<and> tx_Outputs txn \<noteq> [] \<and>
      list_all (\<lambda>v. 0 < sint (to_Value v)) (tx_Outputs txn) \<and>
      CheckTransactionBalance env txn = Some None \<and>
      (\<exists>flag. le_verify env txn = Some (flag, None))"
proof (cases "IsCoinBaseTx txn")
  case True
  have "CheckTransactionInput txn = None" "CheckTransactionOutput env txn = None"
    using assms True by (auto simp: CheckTransactionSanity_def split: if_splits bind_splits)
  then show ?thesis using True
    by (auto simp: CheckTransactionInput_def CheckTransactionOutput_def check_coinbase_outputs_None compare_zero outpoint_def
        split: if_splits list.splits)
next
  case False
  have inp: "CheckTransactionInput txn = None" and outp: "CheckTransactionOutput env txn = None"
    and bal: "CheckTransactionBalance env txn = Some None" and con: "CheckTransactionContracts env txn = Some None"
    using assms False by (auto simp: CheckTransactionSanity_def split: if_splits bind_splits)
  have "tx_UTXOInputs txn \<noteq> [] \<and> check_inputs [] (tx_UTXOInputs txn) = None"
    using inp False by (auto simp: CheckTransactionInput_def split: if_splits)
  then have "tx_UTXOInputs txn \<noteq> [] \<and> distinct (map outpoint (tx_UTXOInputs txn)) \<and>
      (0, - 1) \<notin> outpoint ` set (tx_UTXOInputs txn)"
    using check_inputs_None [of "[]" "tx_UTXOInputs txn"] by (force simp: list_all_iff)
  moreover have "tx_Outputs txn \<noteq> []"
    using outp False by (auto simp: CheckTransactionOutput_def split: if_splits)
  moreover have "list_all (\<lambda>v. 0 < sint (to_Value v)) (tx_Outputs txn)"
    using bal by (auto simp: CheckTransactionBalance_def list_ex_iff list_all_iff word_sle_eq not_le split: if_splits)
  moreover have "\<exists>flag. le_verify env txn = Some (flag, None)"
    using con by (auto simp: CheckTransactionContracts_def split: prod.splits if_splits bind_splits)
  ultimately show ?thesis using bal False by simp
qed

lemma sample_sane: "CheckTransactionSanity sample_env sample_tx = Some ErrNoError"
proof -
  have "transaction_ok sample_tx" by (rule sample_tx_ok)
  then obtain bs where ser: "Transaction_Serialize sample_tx = Some (bs, None)"
    using Transaction_codec [of sample_tx BytesBuffer "[]"] by auto
  have "length (tx_wire sample_tx) = 117"
    by (simp add: tx_wire_def sample_tx_def new_Transaction_def Transaction_Serialize_def SerializeUnsigned_def
        TxAttribute_Serialize_def IsValidAttributeType_def UTXOTxInput_Serialize_def TxOutput_Serialize_def
        Program_Serialize_def WriteVarBytes_def WriteVarUint_def WriteUint8_def Uint256_Serialize_def
        Uint160_Serialize_def Fixed64_Serialize_def WriteUint16_def WriteUint32_def)
  then have size: "Transaction_GetSize sample_tx = Some 117"
    using ser by (simp add: Transaction_GetSize_def tx_wire_def)
  have inp: "CheckTransactionInput sample_tx = None"
    by (simp add: CheckTransactionInput_def IsCoinBaseTx_def sample_tx_def new_Transaction_def compare_zero)
  have pay: "CheckTransactionPayload sample_tx = Some None"
    by (simp add: CheckTransactionPayload_def sample_tx_def new_Transaction_def)
  have outp: "CheckTransactionOutput sample_env sample_tx = None" "CheckAssetPrecision sample_env sample_tx = Some None"
    by (simp_all add: CheckTransactionOutput_def IsCoinBaseTx_def CheckAssetPrecision_def checkAmountPrecise_def
        sample_env_def sample_tx_def new_Transaction_def new_Asset_def)
  have env: "le_MaxBlockSize sample_env = 8000000" "le_verify sample_env sample_tx = Some (True, None)"
    by (simp_all add: sample_env_def)
  show ?thesis
    by (simp add: CheckTransactionSanity_def CheckTransactionSize_def size inp pay outp env sample_balance
        CheckAttributeProgram_def CheckTransactionContracts_def)
qed

theorem CheckTransactionSanity_sound_witness:
  "tx_UTXOInputs sample_tx \<noteq> [] \<and> distinct (map outpoint (tx_UTXOInputs sample_tx)) \<and>
    list_all (\<lambda>v. 0 < sint (to_Value v)) (tx_Outputs sample_tx)"
  using CheckTransactionSanity_sound [OF sample_sane]
  by (simp add: IsCoinBaseTx_def sample_tx_def new_Transaction_def)

lemma check_references_ok:
  "check_references env us = Some ErrNoError \<Longrightarrow>
     list_all (\<lambda>u. \<exists>t h. le_getTx env (ui_ReferTxID u) = Some (Inr (t, h)) \<and>
        unat (ui_ReferTxOutputIndex u) < length (tx_Outputs t) \<and>
        0 < sint (to_Value (tx_Outputs t ! unat (ui_ReferTxOutputIndex u))) \<and>
        (IsCoinBaseTx t \<longrightarrow> cp_SpendCoinbaseSpan (le_params env) \<le> le_height env - tx_LockTime t)) us"
  by (induction us) (auto simp: Let_def word_sle_eq not_le not_less split: bind_splits sum.splits prod.splits if_splits)

text \<open>
  C23. A transaction that passes the checks against the ledger is new. Unless it is a coinbase, it is
  not reported as a double spend and refers only to existing outputs with a positive value; where
  such an output belongs to a coinbase, the height minus the lock time of that coinbase, an unsigned
  difference that may wrap, is at least the maturity span.
\<close>

theorem CheckTransactionContext_sound:
  assumes "CheckTransactionContext env txn = Some ErrNoError"
  shows "(\<exists>h t. Transaction_Hash txn = Some (h, t) \<and> \<not> le_isTxHashDuplicate env h) \<and>
    (IsCoinBaseTx txn \<or> \<not> le_isDoubleSpend env txn \<and>
     list_all (\<lambda>u. \<exists>t h. le_getTx env (ui_ReferTxID u) = Some (Inr (t, h)) \<and>
        unat (ui_ReferTxOutputIndex u) < length (tx_Outputs t) \<and>
        0 < sint (to_Value (tx_Outputs t ! unat (ui_ReferTxOutputIndex u))) \<and>
        (IsCoinBaseTx t \<longrightarrow> cp_SpendCoinbaseSpan (le_params env) \<le> le_height env - tx_LockTime t))
      (tx_UTXOInputs txn))"
  using assms check_references_ok [of env "tx_UTXOInputs txn"]
  by (auto simp: CheckTransactionContext_def split: if_splits bind_splits)

lemma sample_context: "CheckTransactionContext sample_env sample_tx = Some ErrNoError"
  using Transaction_Hash_ok [OF sample_tx_ok]
  by (simp add: CheckTransactionContext_def sample_env_def sample_lookup_def IsCoinBaseTx_def)
     (simp add: sample_tx_def new_Transaction_def sample_lookup_def word_sle_eq IsCoinBaseTx_def)

theorem CheckTransactionContext_sound_witness:
  "(\<exists>h t. Transaction_Hash sample_tx = Some (h, t) \<and> \<not> le_isTxHashDuplicate sample_env h) \<and>
   \<not> le_isDoubleSpend sample_env sample_tx"
  using CheckTransactionContext_sound [OF sample_context]
  by (simp add: IsCoinBaseTx_def sample_tx_def new_Transaction_def)

text \<open>
  The maturity of a coinbase is an unsigned difference of heights: a coinbase whose lock
  time is ahead of the chain, which its miner may choose freely, counts as mature at once.
\<close>

theorem coinbase_maturity_wraps:
  assumes "le_getTx env (ui_ReferTxID u) = Some (Inr (t, h))" and "IsCoinBaseTx t"
    and "unat (ui_ReferTxOutputIndex u) < length (tx_Outputs t)"
    and "0 < sint (to_Value (tx_Outputs t ! unat (ui_ReferTxOutputIndex u)))"
    and "le_params env = mainNet" and "tx_LockTime t = le_height env + 1"
  shows "check_references env [u] = Some ErrNoError"
  using assms by (simp add: word_sle_eq mainNet_def)

definition early_lookup :: tx_lookup where
  "early_lookup h = Some (Inr ((NewCoinBaseTransaction [] 501)\<lparr>tx_Outputs := [\<lparr>to_AssetID = 9, to_Value = 7, to_ProgramHash = 0\<rparr>]\<rparr>, 500))"

theorem coinbase_maturity_wraps_witness:
  "check_references (sample_env\<lparr>le_getTx := early_lookup\<rparr>) [\<lparr>ui_ReferTxID = 1, ui_ReferTxOutputIndex = 0, ui_Sequence = 0\<rparr>]
     = Some ErrNoError"
  by (rule coinbase_maturity_wraps
        [where t = "(NewCoinBaseTransaction [] 501)\<lparr>tx_Outputs := [\<lparr>to_AssetID = 9, to_Value = 7, to_ProgramHash = 0\<rparr>]\<rparr>" and h = 500])
     (simp_all add: early_lookup_def sample_env_def NewCoinBaseTransaction_def new_Transaction_def IsCoinBaseTx_def)

end
