(* ===== verification/Median_Time.thy ===== *)
theory Median_Time
  imports Go_Prelude
begin

text \<open>
  \<^verbatim>\<open>core/ledger/mediantime.go\<close>: the network-adjusted clock. Each source contributes one
  sample, the offset of its clock to ours; the median of the samples corrects the local
  clock when enough have been collected. Times are in seconds, sample times in nanoseconds;
  the local clock \<open>now\<close> is an argument. The mutex only serialises the operations.
\<close>

section \<open>State and operations\<close>

record medianTime =
  mt_knownIDs :: "string list"
  mt_offsets :: "int list"
  mt_offsetSecs :: int
  mt_invalidTimeChecked :: bool

abbreviation (input) maxAllowedOffsetSecs :: int where "maxAllowedOffsetSecs \<equiv> 70 * 60"
abbreviation (input) maxMedianTimeEntries :: nat where "maxMedianTimeEntries \<equiv> 200"

definition NewMedianTime :: medianTime where
  "NewMedianTime = \<lparr>mt_knownIDs = [], mt_offsets = [], mt_offsetSecs = 0, mt_invalidTimeChecked = False\<rparr>"

definition AdjustedTime :: "int \<Rightarrow> medianTime \<Rightarrow> int" where
  "AdjustedTime now m = now + mt_offsetSecs m"

definition Offset :: "medianTime \<Rightarrow> int" where
  "Offset m = mt_offsetSecs m"

text \<open>
  \<^verbatim>\<open>int64(timeVal.Sub(now).Seconds())\<close>: the difference in nanoseconds is held within 64 bits and truncated
  towards zero. \<^verbatim>\<open>Seconds\<close> goes through a \<^verbatim>\<open>float64\<close>, which may round the last microsecond of a second up when
  the difference is of many years; this rounding is left out.
\<close>

definition sub_seconds :: "int \<Rightarrow> int \<Rightarrow> int" where
  "sub_seconds timeVal now =
     (let d = max (- (2 ^ 63)) (min (2 ^ 63 - 1) (timeVal - now * 1000000000)) in sgn d * (\<bar>d\<bar> div 1000000000))"

definition AddTimeSample :: "int \<Rightarrow> string \<Rightarrow> int \<Rightarrow> medianTime \<Rightarrow> medianTime" where
  "AddTimeSample now sourceID timeVal m =
     (if sourceID \<in> set (mt_knownIDs m) then m
      else
        let m = m\<lparr>mt_knownIDs := sourceID # mt_knownIDs m\<rparr>;
            offsetSecs = sub_seconds timeVal now;
            offsets = (if length (mt_offsets m) = maxMedianTimeEntries then tl (mt_offsets m) else mt_offsets m)
                      @ [offsetSecs];
            numOffsets = length offsets;
            m = m\<lparr>mt_offsets := offsets\<rparr>;
            sortedOffsets = sort offsets
        in if numOffsets < 5 \<or> even numOffsets then m
           else
             let median = sortedOffsets ! (numOffsets div 2)
             in if \<bar>median\<bar> < maxAllowedOffsetSecs then m\<lparr>mt_offsetSecs := median\<rparr>
                else m\<lparr>mt_offsetSecs := 0, mt_invalidTimeChecked := True\<rparr>)"

text \<open>The states that a sequence of samples (local time, source, sample time) leads to.\<close>

inductive mt_reachable :: "medianTime \<Rightarrow> bool" where
  mt_new: "mt_reachable NewMedianTime"
| mt_sample: "mt_reachable m \<Longrightarrow> mt_reachable (AddTimeSample now src t m)"

section \<open>Invariant\<close>

definition mt_inv :: "medianTime \<Rightarrow> bool" where
  "mt_inv m \<longleftrightarrow>
     \<bar>mt_offsetSecs m\<bar> < maxAllowedOffsetSecs \<and> length (mt_offsets m) \<le> maxMedianTimeEntries \<and>
     distinct (mt_knownIDs m) \<and> length (mt_offsets m) = min (length (mt_knownIDs m)) maxMedianTimeEntries"

lemma mt_inv_new: "mt_inv NewMedianTime"
  by (simp add: mt_inv_def NewMedianTime_def)

lemma mt_inv_sample: "mt_inv m \<Longrightarrow> mt_inv (AddTimeSample now src t m)"
  by (auto simp: mt_inv_def AddTimeSample_def Let_def)

lemma mt_reachable_inv: "mt_reachable m \<Longrightarrow> mt_inv m"
  by (induction rule: mt_reachable.induct) (simp_all add: mt_inv_new mt_inv_sample)

text \<open>
  C28. Whatever samples the peers send, the adjusted clock stays within seventy minutes of the
  local one, at most 200 samples are kept, and every source counts once.
\<close>

theorem AdjustedTime_bounded:
  assumes "mt_reachable m"
  shows "\<bar>AdjustedTime now m - now\<bar> < maxAllowedOffsetSecs \<and> length (mt_offsets m) \<le> maxMedianTimeEntries \<and>
    distinct (mt_knownIDs m)"
  using mt_reachable_inv [OF assms] by (simp add: mt_inv_def AdjustedTime_def)

theorem AdjustedTime_bounded_witness:
  "\<bar>AdjustedTime 50 (AddTimeSample 10 ''peer'' 99000000000 NewMedianTime) - 50\<bar> < maxAllowedOffsetSecs"
  using AdjustedTime_bounded [OF mt_sample [OF mt_new]] by blast

text \<open>
  C29. Once 200 samples have been collected the offset is frozen: no further sample changes it,
  as the comment in the code announces.
\<close>

theorem offset_frozen:
  assumes "length (mt_offsets m) = maxMedianTimeEntries"
  shows "mt_offsetSecs (AddTimeSample now src t m) = mt_offsetSecs m \<and>
    length (mt_offsets (AddTimeSample now src t m)) = maxMedianTimeEntries"
  using assms by (auto simp: AddTimeSample_def Let_def)

theorem offset_frozen_witness:
  "mt_offsetSecs (AddTimeSample 0 ''a'' 7000000000 (NewMedianTime\<lparr>mt_offsets := replicate 200 3, mt_offsetSecs := 3\<rparr>)) = 3"
  using offset_frozen [of "NewMedianTime\<lparr>mt_offsets := replicate 200 3, mt_offsetSecs := 3\<rparr>" 0 "''a''" 7000000000]
  by simp

end
