(* ===== verification/Block_Validator.thy ===== *)
theory Block_Validator
  imports Tx_Validator Median_Time
begin

text \<open>
  \<^verbatim>\<open>core/ledger/blockValidator.go\<close>: the proof of work of a header, the checks of a block on its
  own (\<open>PowCheckBlockSanity\<close>) and against the node it extends
  (\<open>PowCheckBlockContext\<close>). The adjusted clock is the argument \<open>adj\<close>, in seconds; the node is
  the list of itself and its ancestors.
\<close>

abbreviation (input) MaxTimeOffsetSeconds :: int where "MaxTimeOffsetSeconds \<equiv> 2 * 60 * 60"

definition CheckProofOfWork :: "Blockdata \<Rightarrow> int \<Rightarrow> bool \<Rightarrow> goerr option" where
  "CheckProofOfWork bd powLimit isAuxPow =
     (let target = CompactToBig (bd_Bits bd)
      in if target \<le> 0
         then NewDetailErr (Some (ErrNew ''[BlockValidator] error'')) ErrNoCode
                ''[BlockValidator], block target difficulty is too low.''
         else if target > powLimit
         then NewDetailErr (Some (ErrNew ''[BlockValidator] error'')) ErrNoCode
                ''[BlockValidator], block target difficulty is higher than max of limit.''
         else
           let hash = (if isAuxPow then BtcBlockHeader_Hash (ap_ParBlockHeader (bd_AuxPow bd)) else Blockdata_Hash bd);
               hashNum = HashToBig hash
           in if hashNum > target
              then NewDetailErr (Some (ErrNew ''[BlockValidator] error'')) ErrNoCode
                     ''[BlockValidator], block target difficulty is higher than expected difficulty.''
              else None)"

text \<open>The loop that checks every transaction on its own.\<close>

fun all_sane :: "ledger_env \<Rightarrow> Transaction list \<Rightarrow> goerr option go" where
  "all_sane env [] = Some None"
| "all_sane env (t # ts) = do {
     c \<leftarrow> CheckTransactionSanity env t;
     (if c \<noteq> ErrNoError then Some (Some (ErrNew ''CheckTransactionSanity failed when verifiy block''))
      else all_sane env ts) }"

text \<open>
  The test that the time stamp has whole seconds never fails on a 32-bit number of seconds
  and is left out.
\<close>

definition PowCheckBlockSanity :: "ledger_env \<Rightarrow> int \<Rightarrow> int \<Rightarrow> Block \<Rightarrow> goerr option go" where
  "PowCheckBlockSanity env powLimit adj block =
     (case bk_Blockdata block of
        None \<Rightarrow> panic
      | Some header \<Rightarrow> do {
          proved \<leftarrow> (if le_CoMining env then AuxPow_Check (bd_AuxPow header) (Blockdata_Hash header) AuxPowChainID
                    else Some True);
          (if \<not> proved then Some (Some (ErrNew ''[PowCheckBlockSanity] block check proof is failed''))
           else if CheckProofOfWork header powLimit (le_CoMining env) \<noteq> None
           then Some (Some (ErrNew ''[PowCheckBlockSanity] block check proof is failed.''))
           else if uint (bd_Timestamp header) > adj + MaxTimeOffsetSeconds
           then Some (Some (ErrNew ''[PowCheckBlockSanity] block timestamp of is too far in the future''))
           else
             let transactions = bk_Transactions block; numTx = int (length transactions)
             in if numTx = 0
                then Some (Some (ErrNew ''[PowCheckBlockSanity]  block does not contain any transactions''))
                else if numTx > le_MaxTxInBlock env
                then Some (Some (ErrNew ''[PowCheckBlockSanity]  block contains too many transactions''))
                else do {
                  blockSize \<leftarrow> Block_GetSize block;
                  (if blockSize > le_MaxBlockSize env
                   then Some (Some (ErrNew ''[PowCheckBlockSanity] serialized block is too big''))
                   else if \<not> IsCoinBaseTx (hd transactions)
                   then Some (Some (ErrNew ''[PowCheckBlockSanity] first transaction in block is not a coinbase''))
                   else if list_ex IsCoinBaseTx (tl transactions)
                   then Some (Some (ErrNew ''[PowCheckBlockSanity] block contains second coinbase''))
                   else do {
                     (tharray, _) \<leftarrow> hash_txs transactions;
                     (case ComputeRoot tharray of
                        (_, Some e) \<Rightarrow> Some (Some (ErrNew ''[PowCheckBlockSanity] merkleTree compute failed''))
                      | (calcTransactionsRoot, None) \<Rightarrow>
                          if Uint256_CompareTo (bd_TransactionsRoot header) calcTransactionsRoot \<noteq> 0
                          then Some (Some (ErrNew ''[PowCheckBlockSanity] block merkle root is invalid''))
                          else if \<not> distinct tharray
                          then Some (Some (ErrNew ''[PowCheckBlockSanity] block contains duplicate transaction''))
                          else all_sane env transactions) }) }) })"

definition IsFinalizedTransaction :: "Transaction \<Rightarrow> u32 \<Rightarrow> bool" where
  "IsFinalizedTransaction msgTx blockHeight =
     (if tx_LockTime msgTx = 0 then True
      else if tx_LockTime msgTx < blockHeight then True
      else if list_ex (\<lambda>txIn. ui_Sequence txIn \<noteq> 0xFFFF) (tx_UTXOInputs msgTx) then False
      else True)"

definition PowCheckBlockContext :: "ChainParams \<Rightarrow> BlockNode list \<Rightarrow> Block \<Rightarrow> goerr option go" where
  "PowCheckBlockContext cp chain block =
     (case chain of
        [] \<Rightarrow> Some None
      | prevNode # _ \<Rightarrow>
          (case bk_Blockdata block of
             None \<Rightarrow> panic
           | Some header \<Rightarrow> do {
               (expectedDifficulty, err) \<leftarrow> CalcNextRequiredDifficulty cp chain;
               (if err \<noteq> None then Some err
                else if bd_Bits header \<noteq> expectedDifficulty
                then Some (Some (ErrNew ''block difficulty is not the expected''))
                else do {
                  medianTime \<leftarrow> CalcPastMedianTime chain;
                  (if \<not> uint (bd_Timestamp header) > medianTime
                   then Some (Some (ErrNew ''block timestamp is not after expected''))
                   else
                     let blockHeight = bn_Height prevNode + 1
                     in (case bk_Transactions block of
                           [] \<Rightarrow> panic
                         | _ # rest \<Rightarrow>
                             if list_ex (\<lambda>txn. \<not> IsFinalizedTransaction txn blockHeight) rest
                             then Some (Some (ErrNew ''block contains unfinalized transaction''))
                             else Some None)) }) }))"

section \<open>Properties\<close>

text \<open>
  The proof of work is accepted exactly when the claimed target is positive and within the
  limit and the hash, the parent's for merged mining, read as a little-endian number,
  does not exceed it.
\<close>

theorem CheckProofOfWork_iff:
  "CheckProofOfWork bd powLimit aux = None \<longleftrightarrow>
     0 < CompactToBig (bd_Bits bd) \<and> CompactToBig (bd_Bits bd) \<le> powLimit \<and>
     uint (if aux then BtcBlockHeader_Hash (ap_ParBlockHeader (bd_AuxPow bd)) else Blockdata_Hash bd)
       \<le> CompactToBig (bd_Bits bd)"
  by (auto simp: CheckProofOfWork_def HashToBig_uint Let_def)

lemma hash_txs_length: "hash_txs ts = Some (hs, ts') \<Longrightarrow> length hs = length ts"
  by (induction ts arbitrary: hs ts') (auto split: bind_splits)

lemma all_sane_ok: "all_sane env ts = Some None \<Longrightarrow> list_all (\<lambda>t. CheckTransactionSanity env t = Some ErrNoError) ts"
  by (induction ts) (auto split: bind_splits if_splits)

text \<open>
  C11. A block that passes the checks on its own has a valid proof of work, a time stamp at
  most two hours ahead of the adjusted clock, exactly one coinbase, its first transaction,
  the merkle root of its transactions in its header, pairwise different transaction hashes,
  and only transactions that pass their own checks.
\<close>

theorem PowCheckBlockSanity_sound:
  assumes "PowCheckBlockSanity env powLimit adj block = Some None"
  shows "\<exists>header cb txs hs ts'.
    bk_Blockdata block = Some header \<and> bk_Transactions block = cb # txs \<and>
    CheckProofOfWork header powLimit (le_CoMining env) = None \<and>
    (le_CoMining env \<longrightarrow> AuxPow_Check (bd_AuxPow header) (Blockdata_Hash header) AuxPowChainID = Some True) \<and>
    uint (bd_Timestamp header) \<le> adj + MaxTimeOffsetSeconds \<and>
    IsCoinBaseTx cb \<and> list_all (\<lambda>t. \<not> IsCoinBaseTx t) txs \<and>
    hash_txs (cb # txs) = Some (hs, ts') \<and> distinct hs \<and> bd_TransactionsRoot header = merkle_root hs \<and>
    list_all (\<lambda>t. CheckTransactionSanity env t = Some ErrNoError) (cb # txs)"
proof -
  obtain header where hd: "bk_Blockdata block = Some header"
    using assms by (auto simp: PowCheckBlockSanity_def split: option.splits)
  obtain cb txs where txs: "bk_Transactions block = cb # txs"
    using assms by (cases "bk_Transactions block") (auto simp: PowCheckBlockSanity_def hd split: bind_splits if_splits)
  obtain hs ts' where hs: "hash_txs (cb # txs) = Some (hs, ts')" and root: "ComputeRoot hs = (bd_TransactionsRoot header, None)"
    and dist: "distinct hs" and sane: "all_sane env (cb # txs) = Some None"
    and cb: "IsCoinBaseTx cb" "\<not> list_ex IsCoinBaseTx txs"
    and pow: "CheckProofOfWork header powLimit (le_CoMining env) = None"
      "le_CoMining env \<longrightarrow> AuxPow_Check (bd_AuxPow header) (Blockdata_Hash header) AuxPowChainID = Some True"
      "uint (bd_Timestamp header) \<le> adj + MaxTimeOffsetSeconds"
    using assms
    by (auto simp: PowCheckBlockSanity_def hd txs Let_def Uint256_CompareTo_sign simp del: hash_txs.simps all_sane.simps
        split: bind_splits if_splits prod.splits option.splits)
  have "hs \<noteq> []" using hash_txs_length [OF hs] by auto
  then have "bd_TransactionsRoot header = merkle_root hs" using root by (simp add: ComputeRoot_merkle_root)
  then show ?thesis
    using hd txs hs dist cb pow all_sane_ok [OF sane] by (auto simp: list_ex_iff list_all_iff)
qed

definition sample_coinbase :: Transaction where
  "sample_coinbase = (NewCoinBaseTransaction [] 3)
     \<lparr>tx_UTXOInputs := [\<lparr>ui_ReferTxID = 0, ui_ReferTxOutputIndex = 0xFFFF, ui_Sequence = 0\<rparr>],
      tx_Outputs := [\<lparr>to_AssetID = 9, to_Value = 3, to_ProgramHash = 1\<rparr>, \<lparr>to_AssetID = 9, to_Value = 7, to_ProgramHash = 2\<rparr>]\<rparr>"

lemmas sample_coinbase_defs = sample_coinbase_def NewCoinBaseTransaction_def new_Transaction_def

lemma sample_coinbase_ok: "transaction_ok sample_coinbase"
  by (simp add: transaction_ok_def sample_coinbase_defs bytes_ok_def)

lemma sample_coinbase_wire: "length (tx_wire sample_coinbase) = 169"
  by (simp add: tx_wire_def sample_coinbase_defs Transaction_Serialize_def SerializeUnsigned_def
      CoinBase_Serialize_def UTXOTxInput_Serialize_def TxOutput_Serialize_def
      WriteVarBytes_def WriteVarUint_def Uint256_Serialize_def
      Uint160_Serialize_def Fixed64_Serialize_def WriteUint16_def WriteUint32_def)

definition foundation_env :: ledger_env where
  "foundation_env = sample_env\<lparr>le_b58enc := (\<lambda>s. (FoundationAddress, None))\<rparr>"

lemma sample_coinbase_sane: "CheckTransactionSanity foundation_env sample_coinbase = Some ErrNoError"
proof -
  have "Transaction_Serialize sample_coinbase = Some (tx_wire sample_coinbase, None)"
    using Transaction_codec [OF sample_coinbase_ok, of BytesBuffer "[]"] by simp
  then have size: "Transaction_GetSize sample_coinbase = Some 169"
    by (simp add: Transaction_GetSize_def sample_coinbase_wire)
  have cb: "IsCoinBaseTx sample_coinbase" by (simp add: IsCoinBaseTx_def sample_coinbase_defs)
  have parts: "CheckTransactionInput sample_coinbase = None" "CheckTransactionOutput foundation_env sample_coinbase = None"
    "CheckAssetPrecision foundation_env sample_coinbase = Some None" "CheckTransactionPayload sample_coinbase = Some None"
    using cb
    by (simp_all add: CheckTransactionInput_def CheckTransactionOutput_def CheckAssetPrecision_def checkAmountPrecise_def
        CheckTransactionPayload_def foundation_env_def sample_env_def compare_zero new_Asset_def Uint160_ToAddress_def
        Let_def sample_coinbase_defs)
  have "le_MaxBlockSize foundation_env = 8000000" by (simp add: foundation_env_def sample_env_def)
  then show ?thesis
    by (simp add: CheckTransactionSanity_def CheckTransactionSize_def size parts cb CheckAttributeProgram_def)
qed

text \<open>A block whose claimed target admits every hash.\<close>

definition easy_header :: Blockdata where
  "easy_header = new_Blockdata\<lparr>bd_TransactionsRoot := merkle_root [txid sample_coinbase],
     bd_Timestamp := 1200, bd_Bits := 0x23000001, bd_Height := 20\<rparr>"

definition easy_block :: Block where
  "easy_block = \<lparr>bk_Blockdata = Some easy_header, bk_Transactions = [sample_coinbase], bk_hash = None\<rparr>"

lemma easy_size: "Block_GetSize easy_block = Some 390"
proof -
  have "write_txs [sample_coinbase] = Some (tx_wire sample_coinbase)"
    using write_txs_ok [of "[sample_coinbase]"] sample_coinbase_ok by simp
  then show ?thesis
    by (simp add: sample_coinbase_wire Block_GetSize_def Block_Serialize_def easy_block_def Blockdata_Serialize_def easy_header_def
        new_Blockdata_def AuxPow_Serialize_def BtcTx_Serialize_def new_AuxPow_def Blockdata_SerializeUnsigned_def
        WriteUint32_def Uint256_Serialize_def WriteVarUint_def BtcBlockHeader_Serialize_def)
qed

lemma easy_target: "CompactToBig 0x23000001 = 2 ^ 256"
  by (simp add: CompactToBig_nat compact_nat_def)

lemma easy_block_sane: "PowCheckBlockSanity foundation_env (2 ^ 256) 0 easy_block = Some None"
proof -
  have "uint (Blockdata_Hash easy_header) < 2 ^ 256" using uint_bounded [of "Blockdata_Hash easy_header"] by simp
  then have pow: "CheckProofOfWork easy_header (2 ^ 256) False = None"
    unfolding CheckProofOfWork_def by (simp add: easy_target [simplified] HashToBig_uint easy_header_def Let_def)
  have hash: "hash_txs [sample_coinbase] = Some ([txid sample_coinbase], [hashed sample_coinbase])"
    using Transaction_Hash_ok [OF sample_coinbase_ok] by simp
  have root: "ComputeRoot [txid sample_coinbase] = (merkle_root [txid sample_coinbase], None)"
    by (rule ComputeRoot_merkle_root) simp
  have env: "le_CoMining foundation_env = False" "le_MaxTxInBlock foundation_env = 10000"
    "le_MaxBlockSize foundation_env = 8000000"
    by (simp_all add: foundation_env_def sample_env_def)
  have hdr: "bd_TransactionsRoot easy_header = merkle_root [txid sample_coinbase]" "bd_Timestamp easy_header = 1200"
    by (simp_all add: easy_header_def)
  have blk: "bk_Blockdata easy_block = Some easy_header" "bk_Transactions easy_block = [sample_coinbase]"
    by (simp_all add: easy_block_def)
  have cb: "IsCoinBaseTx sample_coinbase" by (simp add: IsCoinBaseTx_def sample_coinbase_defs)
  show ?thesis
    unfolding PowCheckBlockSanity_def blk option.case env if_False easy_size hash Let_def
    by (simp add: pow [simplified] hdr cb hash root Uint256_CompareTo_sign sample_coinbase_sane easy_size del: hash_txs.simps)
qed

theorem PowCheckBlockSanity_sound_witness:
  "\<exists>header cb txs hs ts'.
    bk_Blockdata easy_block = Some header \<and> bk_Transactions easy_block = cb # txs \<and> IsCoinBaseTx cb \<and>
    hash_txs (cb # txs) = Some (hs, ts') \<and> distinct hs \<and> bd_TransactionsRoot header = merkle_root hs"
  using PowCheckBlockSanity_sound [OF easy_block_sane] by blast

text \<open>
  C24. A block that passes the checks against its parent has the required difficulty, a time
  stamp after the median of the last eleven blocks, and only finalized transactions after
  its coinbase.
\<close>

theorem PowCheckBlockContext_sound:
  assumes "PowCheckBlockContext cp (prev # rest) block = Some None"
  shows "\<exists>header cb txs m.
    bk_Blockdata block = Some header \<and> bk_Transactions block = cb # txs \<and>
    CalcNextRequiredDifficulty cp (prev # rest) = Some (bd_Bits header, None) \<and>
    CalcPastMedianTime (prev # rest) = Some m \<and> m < uint (bd_Timestamp header) \<and>
    list_all (\<lambda>t. IsFinalizedTransaction t (bn_Height prev + 1)) txs"
  using assms
  by (auto simp: PowCheckBlockContext_def list_ex_iff list_all_iff Let_def
      split: option.splits bind_splits if_splits list.splits)

theorem PowCheckBlockContext_sound_witness:
  "\<exists>header m. bk_Blockdata easy_block = Some header \<and>
    CalcPastMedianTime [sample_node 0 1000] = Some m \<and> m < uint (bd_Timestamp header)"
proof -
  have "PowCheckBlockContext (mainNet\<lparr>cp_PowLimitBits := 0x23000001\<rparr>) [sample_node 0 1000] easy_block = Some None"
    by (simp add: PowCheckBlockContext_def easy_block_def easy_header_def CalcNextRequiredDifficulty_def
        sample_node_def CalcPastMedianTime_def)
  from PowCheckBlockContext_sound [OF this] show ?thesis by blast
qed

text \<open>
  A locked transaction whose inputs carry the largest 32-bit sequence number, which the
  comment on the test describes as finalizing it, is not finalized: the test compares with
  the largest 16-bit number.
\<close>

theorem IsFinalizedTransaction_max_sequence:
  assumes "tx_LockTime t \<noteq> 0" and "blockHeight \<le> tx_LockTime t" and "tx_UTXOInputs t \<noteq> []"
    and "list_all (\<lambda>u. ui_Sequence u = 0xFFFFFFFF) (tx_UTXOInputs t)"
  shows "\<not> IsFinalizedTransaction t blockHeight"
  using assms by (cases "tx_UTXOInputs t") (auto simp: IsFinalizedTransaction_def)

theorem IsFinalizedTransaction_max_sequence_witness:
  "\<not> IsFinalizedTransaction (sample_tx\<lparr>tx_LockTime := 9, tx_UTXOInputs := [new_UTXOTxInput\<lparr>ui_Sequence := 0xFFFFFFFF\<rparr>]\<rparr>) 5"
  by (rule IsFinalizedTransaction_max_sequence) simp_all

end
