(* ===== verification/Chain_Store.thy ===== *)
theory Chain_Store
  imports Tx_Validator "HOL-Library.AList"
begin

text \<open>
  \<^verbatim>\<open>core/store/ChainStore\<close> and \<^verbatim>\<open>core/store/LevelDBStore\<close>: the persistent ledger, a
  key-value database with one key space per prefix byte. goleveldb itself is the argument
  \<open>L\<close>, a record of its operations on an opaque database; a batch is the list of recorded
  operations. The tasks that the write goroutine receives over a channel, one at a time and
  each awaited by its sender, are function calls here. \<open>cs_bestHeight\<close> is the field
  \<^verbatim>\<open>ledger.Blockchain.BlockHeight\<close>, which the store updates through its ledger pointer; the
  event notifications that follow have no effect on the state modelled.
  Go maps that are filled and then written out entry by entry are association lists.
\<close>

section \<open>The database\<close>

datatype batch_op = BPut "byte list" "byte list" | BDelete "byte list"

record 'd leveldb =
  ldb_Get :: "'d \<Rightarrow> byte list \<Rightarrow> byte list \<times> goerr option"
  ldb_Put :: "'d \<Rightarrow> byte list \<Rightarrow> byte list \<Rightarrow> goerr option \<times> 'd"
  ldb_Write :: "'d \<Rightarrow> batch_op list \<Rightarrow> goerr option \<times> 'd"
  ldb_NewIterator :: "'d \<Rightarrow> byte list \<Rightarrow> (byte list \<times> byte list) list"

record 'd ChainStore =
  cs_db :: 'd
  cs_batch :: "batch_op list option"
  cs_headerIndex :: "u32 \<Rightarrow> Uint256 option"
  cs_headerCache :: "Uint256 \<Rightarrow> Blockdata option"
  cs_headerIdx :: "Blockdata list"
  cs_currentBlockHeight :: u32
  cs_storedHeaderCount :: u32
  cs_bestHeight :: u32

definition NewChainStore :: "'d \<Rightarrow> 'd ChainStore" where
  "NewChainStore st =
     \<lparr>cs_db = st, cs_batch = None, cs_headerIndex = Map.empty, cs_headerCache = Map.empty, cs_headerIdx = [],
      cs_currentBlockHeight = 0, cs_storedHeaderCount = 0, cs_bestHeight = 0\<rparr>"

definition store_Get :: "'d leveldb \<Rightarrow> 'd ChainStore \<Rightarrow> byte list \<Rightarrow> byte list \<times> goerr option" where
  "store_Get L cs key = ldb_Get L (cs_db cs) key"

definition store_Put :: "'d leveldb \<Rightarrow> byte list \<Rightarrow> byte list \<Rightarrow> 'd ChainStore \<Rightarrow> goerr option \<times> 'd ChainStore" where
  "store_Put L key value cs = (case ldb_Put L (cs_db cs) key value of (err, d) \<Rightarrow> (err, cs\<lparr>cs_db := d\<rparr>))"

definition NewBatch :: "'d ChainStore \<Rightarrow> 'd ChainStore" where
  "NewBatch cs = cs\<lparr>cs_batch := Some []\<rparr>"

definition batch_add :: "batch_op \<Rightarrow> 'd ChainStore \<Rightarrow> 'd ChainStore go" where
  "batch_add op cs =
     (case cs_batch cs of None \<Rightarrow> panic | Some ops \<Rightarrow> Some (cs\<lparr>cs_batch := Some (ops @ [op])\<rparr>))"

definition BatchPut :: "byte list \<Rightarrow> byte list \<Rightarrow> 'd ChainStore \<Rightarrow> 'd ChainStore go" where
  "BatchPut key value = batch_add (BPut key value)"

definition BatchDelete :: "byte list \<Rightarrow> 'd ChainStore \<Rightarrow> 'd ChainStore go" where
  "BatchDelete key = batch_add (BDelete key)"

definition BatchCommit :: "'d leveldb \<Rightarrow> 'd ChainStore \<Rightarrow> goerr option \<times> 'd ChainStore" where
  "BatchCommit L cs =
     (case ldb_Write L (cs_db cs) (case cs_batch cs of None \<Rightarrow> [] | Some ops \<Rightarrow> ops) of
        (err, d) \<Rightarrow> (err, cs\<lparr>cs_db := d\<rparr>))"

section \<open>Keys\<close>

definition DATA_BlockHash :: byte where "DATA_BlockHash = 0x00"
definition DATA_Header :: byte where "DATA_Header = 0x01"
definition DATA_Transaction :: byte where "DATA_Transaction = 0x02"
definition IX_Unspent :: byte where "IX_Unspent = 0x90"
definition IX_Unspent_UTXO :: byte where "IX_Unspent_UTXO = 0x91"
definition ST_Info :: byte where "ST_Info = 0xc0"
definition SYS_CurrentBlock :: byte where "SYS_CurrentBlock = 0x40"
definition CFG_Version :: byte where "CFG_Version = 0xf0"

lemmas prefix_defs = DATA_BlockHash_def DATA_Header_def DATA_Transaction_def IX_Unspent_def
  IX_Unspent_UTXO_def ST_Info_def SYS_CurrentBlock_def CFG_Version_def

definition hash_key :: "byte \<Rightarrow> Uint256 \<Rightarrow> byte list" where
  "hash_key prefix h = prefix # Uint256_Serialize h"

definition height_key :: "u32 \<Rightarrow> byte list" where
  "height_key height = DATA_BlockHash # WriteUint32 height"

type_synonym utxo_id = "Uint160 \<times> Uint256 \<times> u32"

fun utxo_key :: "utxo_id \<Rightarrow> byte list" where
  "utxo_key (programHash, assetid, height) =
     IX_Unspent_UTXO # Uint160_ToArray programHash @ Uint256_ToArray assetid @ WriteUint32 height"

section \<open>Reading\<close>

definition GetBlockHash :: "'d leveldb \<Rightarrow> 'd ChainStore \<Rightarrow> u32 \<Rightarrow> Uint256 \<times> goerr option" where
  "GetBlockHash L cs height =
     (case store_Get L cs (height_key height) of
        (_, Some err) \<Rightarrow> (0, Some err)
      | (blockHash, None) \<Rightarrow>
          (case Uint256ParseFromBytes blockHash of
             (_, Some err) \<Rightarrow> (0, Some err)
           | (blockHash256, None) \<Rightarrow> (blockHash256, None)))"

definition GetCurrentBlockHash :: "'d leveldb \<Rightarrow> 'd ChainStore \<Rightarrow> Uint256" where
  "GetCurrentBlockHash L cs =
     (case GetBlockHash L cs (cs_currentBlockHeight cs) of (hash, err) \<Rightarrow> if err \<noteq> None then 0 else hash)"

text \<open>The value under a header key starts with eight bytes of system fee, which are skipped.\<close>

definition GetHeader :: "'d leveldb \<Rightarrow> 'd ChainStore \<Rightarrow> Uint256 \<Rightarrow> (goerr + Blockdata) go" where
  "GetHeader L cs hash =
     (case store_Get L cs (hash_key DATA_Header hash) of
        (_, Some err) \<Rightarrow> Some (Inl err)
      | (data, None) \<Rightarrow> do {
          (_, err, r) \<leftarrow> ReadUint64 (Rd BytesReader data);
          (case err of
             Some e \<Rightarrow> Some (Inl e)
           | None \<Rightarrow> do {
               (h, err, _) \<leftarrow> Header_Deserialize r;
               Some (case err of Some e \<Rightarrow> Inl e | None \<Rightarrow> Inr h) }) })"

definition GetTransaction :: "'d leveldb \<Rightarrow> 'd ChainStore \<Rightarrow> tx_lookup" where
  "GetTransaction L cs hash =
     (case store_Get L cs (hash_key DATA_Transaction hash) of
        (_, Some err) \<Rightarrow> Some (Inl err)
      | (value, None) \<Rightarrow> do {
          (height, err, r) \<leftarrow> ReadUint32 (Rd BytesReader value);
          (case err of
             Some e \<Rightarrow> Some (Inl e)
           | None \<Rightarrow> do {
               (txn, err, _) \<leftarrow> Transaction_Deserialize new_Transaction r;
               Some (case err of Some e \<Rightarrow> Inl e | None \<Rightarrow> Inr (txn, height)) }) })"

fun load_txs :: "'d leveldb \<Rightarrow> 'd ChainStore \<Rightarrow> Transaction list \<Rightarrow> (goerr + Transaction list) go" where
  "load_txs L cs [] = Some (Inr [])"
| "load_txs L cs (txn # txns) = do {
     (h, _) \<leftarrow> Transaction_Hash txn;
     r \<leftarrow> GetTransaction L cs h;
     (case r of
        Inl err \<Rightarrow> Some (Inl err)
      | Inr (tmp, _) \<Rightarrow> do {
          r \<leftarrow> load_txs L cs txns;
          Some (case r of Inl err \<Rightarrow> Inl err | Inr rest \<Rightarrow> Inr (tmp # rest)) }) }"

definition GetBlock :: "'d leveldb \<Rightarrow> 'd ChainStore \<Rightarrow> Uint256 \<Rightarrow> (goerr + Block) go" where
  "GetBlock L cs hash =
     (case store_Get L cs (hash_key DATA_Header hash) of
        (_, Some err) \<Rightarrow> Some (Inl err)
      | (bHash, None) \<Rightarrow> do {
          (_, err, r) \<leftarrow> ReadUint64 (Rd BytesReader bHash);
          (case err of
             Some e \<Rightarrow> Some (Inl e)
           | None \<Rightarrow> do {
               (b, err, _) \<leftarrow> FromTrimmedData (new_Block\<lparr>bk_Blockdata := Some new_Blockdata\<rparr>) r;
               (case err of
                  Some e \<Rightarrow> Some (Inl e)
                | None \<Rightarrow> do {
                    r \<leftarrow> load_txs L cs (bk_Transactions b);
                    Some (case r of
                            Inl e \<Rightarrow> Inl e
                          | Inr txns \<Rightarrow> Inr (b\<lparr>bk_Transactions := txns\<rparr>)) }) }) })"

definition IsBlockInStore :: "'d leveldb \<Rightarrow> 'd ChainStore \<Rightarrow> Uint256 \<Rightarrow> bool go" where
  "IsBlockInStore L cs hash =
     (case store_Get L cs (hash_key DATA_Header hash) of
        (_, Some err) \<Rightarrow> Some False
      | (blockData, None) \<Rightarrow> do {
          (_, err, r) \<leftarrow> ReadUint64 (Rd BytesReader blockData);
          (if err \<noteq> None then Some False
           else do {
             (b, err, _) \<leftarrow> FromTrimmedData (new_Block\<lparr>bk_Blockdata := Some new_Blockdata\<rparr>) r;
             (if err \<noteq> None then Some False
              else case bk_Blockdata b of
                     None \<Rightarrow> panic
                   | Some bd \<Rightarrow> Some (\<not> bd_Height bd > cs_currentBlockHeight cs)) }) })"

definition IsTxHashDuplicate :: "'d leveldb \<Rightarrow> 'd ChainStore \<Rightarrow> Uint256 \<Rightarrow> bool" where
  "IsTxHashDuplicate L cs txhash =
     (case store_Get L cs (hash_key DATA_Transaction txhash) of (_, err) \<Rightarrow> err = None)"

definition GetAsset :: "'d leveldb \<Rightarrow> 'd ChainStore \<Rightarrow> Uint256 \<Rightarrow> (goerr + Asset) go" where
  "GetAsset L cs hash =
     (case store_Get L cs (hash_key ST_Info hash) of
        (_, Some err) \<Rightarrow> Some (Inl err)
      | (data, None) \<Rightarrow> do {
          (asset, _, _) \<leftarrow> Asset_Deserialize new_Asset (Rd BytesReader data);
          Some (Inr asset) })"

definition ContainsUnspent :: "'d leveldb \<Rightarrow> 'd ChainStore \<Rightarrow> Uint256 \<Rightarrow> u16 \<Rightarrow> bool \<times> goerr option" where
  "ContainsUnspent L cs txh index =
     (case store_Get L cs (hash_key IX_Unspent txh) of
        (_, Some err) \<Rightarrow> (False, Some err)
      | (unspentValue, None) \<Rightarrow>
          (case GetUint16Array (Some unspentValue) of
             (_, Some err) \<Rightarrow> (False, Some err)
           | (None, None) \<Rightarrow> (False, None)
           | (Some unspentArray, None) \<Rightarrow> (index \<in> set unspentArray, None)))"

definition GetUnspent :: "'d leveldb \<Rightarrow> 'd ChainStore \<Rightarrow> Uint256 \<Rightarrow> u16 \<Rightarrow> (goerr + TxOutput) go" where
  "GetUnspent L cs txh index =
     (if fst (ContainsUnspent L cs txh index) then do {
        r \<leftarrow> GetTransaction L cs txh;
        (case r of
           Inl err \<Rightarrow> Some (Inl err)
         | Inr (Tx, _) \<Rightarrow>
             if unat index < length (tx_Outputs Tx) then Some (Inr (tx_Outputs Tx ! unat index)) else panic) }
      else Some (Inl (ErrNew ''[GetUnspent] NOT ContainsUnspent.'')))"

text \<open>An input is spendable when the index of its transaction lists it; a parse error is dropped.\<close>

fun double_spend_loop :: "'d leveldb \<Rightarrow> 'd ChainStore \<Rightarrow> UTXOTxInput list \<Rightarrow> bool" where
  "double_spend_loop L cs [] = False"
| "double_spend_loop L cs (u # us) =
     (case store_Get L cs (hash_key IX_Unspent (ui_ReferTxID u)) of
        (_, Some err) \<Rightarrow> True
      | (unspentValue, None) \<Rightarrow>
          (case GetUint16Array (Some unspentValue) of
             (unspents, _) \<Rightarrow>
               if ui_ReferTxOutputIndex u \<in> set (case unspents of None \<Rightarrow> [] | Some xs \<Rightarrow> xs)
               then double_spend_loop L cs us
               else True))"

definition IsDoubleSpend :: "'d leveldb \<Rightarrow> 'd ChainStore \<Rightarrow> Transaction \<Rightarrow> bool" where
  "IsDoubleSpend L cs txn =
     (if tx_UTXOInputs txn = [] then False else double_spend_loop L cs (tx_UTXOInputs txn))"

section \<open>The unspent outputs of a program hash\<close>

definition read_unspents :: "byte list \<Rightarrow> (goerr + UTXOUnspent list) go" where
  "read_unspents data = do {
     (listNum, err, r) \<leftarrow> ReadVarUint 0 (Rd BytesReader data);
     (case err of
        Some e \<Rightarrow> Some (Inl e)
      | None \<Rightarrow> do {
          (unspents, err, _) \<leftarrow> read_make 8 None listNum
             (rd_ptr (UTXOUnspent_Deserialize \<lparr>uu_Txid = 0, uu_Index = 0, uu_Value = 0\<rparr>)) r;
          Some (case err of Some e \<Rightarrow> Inl e | None \<Rightarrow> Inr (map the unspents)) }) }"

definition GetUnspentElementFromProgramHash ::
  "'d leveldb \<Rightarrow> 'd ChainStore \<Rightarrow> Uint160 \<Rightarrow> Uint256 \<Rightarrow> u32 \<Rightarrow> (goerr + UTXOUnspent list) go" where
  "GetUnspentElementFromProgramHash L cs programHash assetid height =
     (case store_Get L cs (utxo_key (programHash, assetid, height)) of
        (_, Some err) \<Rightarrow> Some (Inl err)
      | (unspentsData, None) \<Rightarrow> read_unspents unspentsData)"

text \<open>The iterating readers append what they read; the first one allocates nothing in advance.\<close>

fun append_unspents :: "(byte list \<times> byte list) list \<Rightarrow> (goerr + UTXOUnspent list) go" where
  "append_unspents [] = Some (Inr [])"
| "append_unspents ((_, data) # kvs) = do {
     (listNum, err, r) \<leftarrow> ReadVarUint 0 (Rd BytesReader data);
     (case err of
        Some e \<Rightarrow> Some (Inl e)
      | None \<Rightarrow> do {
          (unspents, err, _) \<leftarrow> read_checked (nat (sint listNum))
             (UTXOUnspent_Deserialize \<lparr>uu_Txid = 0, uu_Index = 0, uu_Value = 0\<rparr>) r;
          (case err of
             Some e \<Rightarrow> Some (Inl e)
           | None \<Rightarrow> do {
               rest \<leftarrow> append_unspents kvs;
               Some (case rest of Inl e \<Rightarrow> Inl e | Inr us \<Rightarrow> Inr (unspents @ us)) }) }) }"

definition GetUnspentFromProgramHash ::
  "'d leveldb \<Rightarrow> 'd ChainStore \<Rightarrow> Uint160 \<Rightarrow> Uint256 \<Rightarrow> (goerr + UTXOUnspent list) go" where
  "GetUnspentFromProgramHash L cs programHash assetid =
     append_unspents (ldb_NewIterator L (cs_db cs)
       (IX_Unspent_UTXO # Uint160_ToArray programHash @ Uint256_ToArray assetid))"

fun collect_unspents ::
  "(byte list \<times> byte list) list \<Rightarrow> (Uint256 \<times> UTXOUnspent list) list \<Rightarrow> (goerr + (Uint256 \<times> UTXOUnspent list) list) go" where
  "collect_unspents [] m = Some (Inr m)"
| "collect_unspents ((key, data) # kvs) m = do {
     (_, _, rk) \<leftarrow> ReadBytes 1 (Rd BytesReader key);
     (ph, _, rk) \<leftarrow> Uint160_Deserialize 0 rk;
     (assetid, _, _) \<leftarrow> Uint256_Deserialize 0 rk;
     r \<leftarrow> read_unspents data;
     (case r of
        Inl e \<Rightarrow> Some (Inl e)
      | Inr unspents \<Rightarrow>
          collect_unspents kvs
            (AList.update assetid ((case map_of m assetid of None \<Rightarrow> [] | Some us \<Rightarrow> us) @ unspents) m)) }"

definition GetUnspentsFromProgramHash ::
  "'d leveldb \<Rightarrow> 'd ChainStore \<Rightarrow> Uint160 \<Rightarrow> (goerr + (Uint256 \<times> UTXOUnspent list) list) go" where
  "GetUnspentsFromProgramHash L cs programHash =
     collect_unspents (ldb_NewIterator L (cs_db cs) (IX_Unspent_UTXO # Uint160_ToArray programHash)) []"

definition PersistUnspentWithProgramHash ::
  "utxo_id \<Rightarrow> UTXOUnspent list \<Rightarrow> 'd ChainStore \<Rightarrow> 'd ChainStore go" where
  "PersistUnspentWithProgramHash k unspents =
     (if unspents = [] then BatchDelete (utxo_key k)
      else BatchPut (utxo_key k)
             (WriteVarUint (word_of_nat (length unspents)) @ concat (map UTXOUnspent_Serialize unspents)))"

fun collect_assets :: "(byte list \<times> byte list) list \<Rightarrow> (Uint256 \<times> Asset) list \<Rightarrow> (Uint256 \<times> Asset) list go" where
  "collect_assets [] m = Some m"
| "collect_assets ((key, data) # kvs) m = do {
     (_, _, rk) \<leftarrow> ReadBytes 1 (Rd BytesReader key);
     (assetid, _, _) \<leftarrow> Uint256_Deserialize 0 rk;
     (asset, _, _) \<leftarrow> Asset_Deserialize new_Asset (Rd BytesReader data);
     collect_assets kvs (AList.update assetid asset m) }"

definition GetAssets :: "'d leveldb \<Rightarrow> 'd ChainStore \<Rightarrow> (Uint256 \<times> Asset) list go" where
  "GetAssets L cs = collect_assets (ldb_NewIterator L (cs_db cs) [ST_Info]) []"

section \<open>Writing a block\<close>

definition block_header :: "Block \<Rightarrow> Blockdata go" where
  "block_header b = bk_Blockdata b"

definition PersistTrimmedBlock :: "Block \<Rightarrow> 'd ChainStore \<Rightarrow> 'd ChainStore go" where
  "PersistTrimmedBlock b cs = do {
     (blockHash, _) \<leftarrow> Block_Hash b;
     trimmed \<leftarrow> Block_Trim b;
     BatchPut (hash_key DATA_Header blockHash) (WriteUint64 0 @ trimmed) cs }"

definition RollbackTrimemedBlock :: "Block \<Rightarrow> 'd ChainStore \<Rightarrow> 'd ChainStore go" where
  "RollbackTrimemedBlock b cs = do {
     (blockHash, _) \<leftarrow> Block_Hash b;
     BatchDelete (hash_key DATA_Header blockHash) cs }"

definition PersistBlockHash :: "Block \<Rightarrow> 'd ChainStore \<Rightarrow> 'd ChainStore go" where
  "PersistBlockHash b cs = do {
     bd \<leftarrow> block_header b;
     BatchPut (height_key (bd_Height bd)) (Uint256_Serialize (Blockdata_Hash bd)) cs }"

definition RollbackBlockHash :: "Block \<Rightarrow> 'd ChainStore \<Rightarrow> 'd ChainStore go" where
  "RollbackBlockHash b cs = do {
     bd \<leftarrow> block_header b;
     BatchDelete (height_key (bd_Height bd)) cs }"

definition PersistCurrentBlock :: "Block \<Rightarrow> 'd ChainStore \<Rightarrow> 'd ChainStore go" where
  "PersistCurrentBlock b cs = do {
     (blockHash, _) \<leftarrow> Block_Hash b;
     bd \<leftarrow> block_header b;
     BatchPut [SYS_CurrentBlock] (Uint256_Serialize blockHash @ WriteUint32 (bd_Height bd)) cs }"

definition RollbackCurrentBlock :: "Block \<Rightarrow> 'd ChainStore \<Rightarrow> 'd ChainStore go" where
  "RollbackCurrentBlock b cs = do {
     bd \<leftarrow> block_header b;
     BatchPut [SYS_CurrentBlock] (Uint256_Serialize (bd_PrevBlockHash bd) @ WriteUint32 (bd_Height bd - 1)) cs }"

definition PersistTransaction :: "Transaction \<Rightarrow> u32 \<Rightarrow> 'd ChainStore \<Rightarrow> 'd ChainStore go" where
  "PersistTransaction tx height cs = do {
     (h, _) \<leftarrow> Transaction_Hash tx;
     (bs, _) \<leftarrow> Transaction_Serialize tx;
     BatchPut (hash_key DATA_Transaction h) (WriteUint32 height @ bs) cs }"

definition PersistAsset :: "Uint256 \<Rightarrow> Asset \<Rightarrow> 'd ChainStore \<Rightarrow> 'd ChainStore go" where
  "PersistAsset assetId asset = BatchPut (hash_key ST_Info assetId) (Asset_Serialize asset)"

fun PersistTransactions_loop :: "u32 \<Rightarrow> Transaction list \<Rightarrow> 'd ChainStore \<Rightarrow> 'd ChainStore go" where
  "PersistTransactions_loop height [] cs = Some cs"
| "PersistTransactions_loop height (txn # txns) cs = do {
     cs \<leftarrow> PersistTransaction txn height cs;
     cs \<leftarrow> (if tx_TxType txn = RegisterAsset
            then (case tx_Payload txn of
                    Some (PRegisterAsset regPayload) \<Rightarrow> do {
                      (h, _) \<leftarrow> Transaction_Hash txn;
                      PersistAsset h (ra_Asset regPayload) cs }
                  | _ \<Rightarrow> panic)
            else Some cs);
     PersistTransactions_loop height txns cs }"

definition PersistTransactions :: "Block \<Rightarrow> 'd ChainStore \<Rightarrow> 'd ChainStore go" where
  "PersistTransactions b cs = do {
     bd \<leftarrow> block_header b;
     PersistTransactions_loop (bd_Height bd) (bk_Transactions b) cs }"

definition RollbackTransaction :: "Transaction \<Rightarrow> 'd ChainStore \<Rightarrow> 'd ChainStore go" where
  "RollbackTransaction txn cs = do {
     (h, _) \<leftarrow> Transaction_Hash txn;
     BatchDelete (hash_key DATA_Transaction h) cs }"

definition RollbackAsset :: "Uint256 \<Rightarrow> 'd ChainStore \<Rightarrow> 'd ChainStore go" where
  "RollbackAsset assetId = BatchDelete (hash_key ST_Info assetId)"

fun RollbackTransactions_loop :: "Transaction list \<Rightarrow> 'd ChainStore \<Rightarrow> 'd ChainStore go" where
  "RollbackTransactions_loop [] cs = Some cs"
| "RollbackTransactions_loop (txn # txns) cs = do {
     cs \<leftarrow> RollbackTransaction txn cs;
     cs \<leftarrow> (if tx_TxType txn = RegisterAsset
            then do { (h, _) \<leftarrow> Transaction_Hash txn; RollbackAsset h cs }
            else Some cs);
     RollbackTransactions_loop txns cs }"

definition RollbackTransactions :: "Block \<Rightarrow> 'd ChainStore \<Rightarrow> 'd ChainStore go" where
  "RollbackTransactions b = RollbackTransactions_loop (bk_Transactions b)"

section \<open>The index of unspent outputs\<close>

text \<open>
  Removal of the first match from a slice by moving the last element into its place, as
  both unspent indices do; \<open>None\<close> when nothing matches.
\<close>

fun first_index :: "('a \<Rightarrow> bool) \<Rightarrow> 'a list \<Rightarrow> nat option" where
  "first_index P [] = None"
| "first_index P (x # xs) = (if P x then Some 0 else map_option Suc (first_index P xs))"

definition swap_remove :: "('a \<Rightarrow> bool) \<Rightarrow> 'a list \<Rightarrow> 'a list option" where
  "swap_remove P xs = map_option (\<lambda>k. butlast (xs[k := last xs])) (first_index P xs)"

type_synonym unspent_map = "(Uint256 \<times> u16 list) list"

text \<open>The outputs of a transaction, numbered by the truncated loop index.\<close>

fun unspend_outputs :: "Uint256 \<Rightarrow> nat \<Rightarrow> TxOutput list \<Rightarrow> unspent_map \<Rightarrow> unspent_map" where
  "unspend_outputs txnHash index [] m = m"
| "unspend_outputs txnHash index (_ # outs) m =
     unspend_outputs txnHash (Suc index) outs
       (AList.update txnHash ((case map_of m txnHash of None \<Rightarrow> [] | Some xs \<Rightarrow> xs) @ [word_of_nat index]) m)"

fun spend_inputs ::
  "'d leveldb \<Rightarrow> 'd ChainStore \<Rightarrow> UTXOTxInput list \<Rightarrow> unspent_map \<Rightarrow> goerr + unspent_map" where
  "spend_inputs L cs [] m = Inr m"
| "spend_inputs L cs (input # inputs) m =
     (case (case map_of m (ui_ReferTxID input) of
              Some xs \<Rightarrow> Inr xs
            | None \<Rightarrow>
                (case store_Get L cs (hash_key IX_Unspent (ui_ReferTxID input)) of
                   (_, Some err) \<Rightarrow> Inl err
                 | (unspentValue, None) \<Rightarrow>
                     (case GetUint16Array (Some unspentValue) of
                        (_, Some err) \<Rightarrow> Inl err
                      | (None, None) \<Rightarrow> Inr []
                      | (Some xs, None) \<Rightarrow> Inr xs))) of
        Inl err \<Rightarrow> Inl err
      | Inr xs \<Rightarrow>
          spend_inputs L cs inputs
            (AList.update (ui_ReferTxID input)
               (case swap_remove (\<lambda>i. i = ui_ReferTxOutputIndex input) xs of None \<Rightarrow> xs | Some xs' \<Rightarrow> xs') m))"

fun PersistUnspend_loop ::
  "'d leveldb \<Rightarrow> 'd ChainStore \<Rightarrow> Transaction list \<Rightarrow> unspent_map \<Rightarrow> (goerr + unspent_map) go" where
  "PersistUnspend_loop L cs [] m = Some (Inr m)"
| "PersistUnspend_loop L cs (txn # txns) m =
     (if tx_TxType txn = RegisterAsset then PersistUnspend_loop L cs txns m
      else do {
        (txnHash, _) \<leftarrow> Transaction_Hash txn;
        (let m = unspend_outputs txnHash 0 (tx_Outputs txn) m
         in if IsCoinBaseTx txn then PersistUnspend_loop L cs txns m
            else (case spend_inputs L cs (tx_UTXOInputs txn) m of
                    Inl err \<Rightarrow> Some (Inl err)
                  | Inr m \<Rightarrow> PersistUnspend_loop L cs txns m)) })"

fun put_unspents :: "unspent_map \<Rightarrow> 'd ChainStore \<Rightarrow> 'd ChainStore go" where
  "put_unspents [] cs = Some cs"
| "put_unspents ((txhash, xs) # m) cs = do {
     cs \<leftarrow> (if xs = [] then BatchDelete (hash_key IX_Unspent txhash) cs
            else BatchPut (hash_key IX_Unspent txhash) (ToByteArray xs) cs);
     put_unspents m cs }"

definition PersistUnspend :: "'d leveldb \<Rightarrow> Block \<Rightarrow> 'd ChainStore \<Rightarrow> (goerr option \<times> 'd ChainStore) go" where
  "PersistUnspend L b cs = do {
     r \<leftarrow> PersistUnspend_loop L cs (bk_Transactions b) [];
     (case r of
        Inl err \<Rightarrow> Some (Some err, cs)
      | Inr m \<Rightarrow> do { cs \<leftarrow> put_unspents m cs; Some (None, cs) }) }"

text \<open>Undoing a block: the entries of its own transactions go, the spent outputs come back.\<close>

fun restore_inputs ::
  "'d leveldb \<Rightarrow> 'd ChainStore \<Rightarrow> UTXOTxInput list \<Rightarrow> unspent_map \<Rightarrow> goerr + unspent_map" where
  "restore_inputs L cs [] m = Inr m"
| "restore_inputs L cs (input # inputs) m =
     (case (case map_of m (ui_ReferTxID input) of
              Some xs \<Rightarrow> Inr xs
            | None \<Rightarrow>
                (case store_Get L cs (hash_key IX_Unspent (ui_ReferTxID input)) of
                   (unspentValue, _) \<Rightarrow>
                     if unspentValue = [] then Inr []
                     else (case GetUint16Array (Some unspentValue) of
                             (_, Some err) \<Rightarrow> Inl err
                           | (None, None) \<Rightarrow> Inr []
                           | (Some xs, None) \<Rightarrow> Inr xs))) of
        Inl err \<Rightarrow> Inl err
      | Inr xs \<Rightarrow>
          restore_inputs L cs inputs (AList.update (ui_ReferTxID input) (xs @ [ui_ReferTxOutputIndex input]) m))"

fun RollbackUnspend_loop ::
  "'d leveldb \<Rightarrow> Transaction list \<Rightarrow> unspent_map \<Rightarrow> 'd ChainStore \<Rightarrow> ((goerr + unspent_map) \<times> 'd ChainStore) go" where
  "RollbackUnspend_loop L [] m cs = Some (Inr m, cs)"
| "RollbackUnspend_loop L (txn # txns) m cs =
     (if tx_TxType txn = RegisterAsset then RollbackUnspend_loop L txns m cs
      else do {
        (txnHash, _) \<leftarrow> Transaction_Hash txn;
        cs \<leftarrow> BatchDelete (hash_key IX_Unspent txnHash) cs;
        (if IsCoinBaseTx txn then RollbackUnspend_loop L txns m cs
         else (case restore_inputs L cs (tx_UTXOInputs txn) m of
                 Inl err \<Rightarrow> Some (Inl err, cs)
               | Inr m \<Rightarrow> RollbackUnspend_loop L txns m cs)) })"

definition RollbackUnspend :: "'d leveldb \<Rightarrow> Block \<Rightarrow> 'd ChainStore \<Rightarrow> (goerr option \<times> 'd ChainStore) go" where
  "RollbackUnspend L b cs = do {
     (r, cs) \<leftarrow> RollbackUnspend_loop L (bk_Transactions b) [] cs;
     (case r of
        Inl err \<Rightarrow> Some (Some err, cs)
      | Inr m \<Rightarrow> do { cs \<leftarrow> put_unspents m cs; Some (None, cs) }) }"

section \<open>The unspent outputs per program hash, asset and height\<close>

type_synonym utxo_map = "(utxo_id \<times> UTXOUnspent list) list"

fun utxo_outputs ::
  "'d leveldb \<Rightarrow> 'd ChainStore \<Rightarrow> u32 \<Rightarrow> Transaction \<Rightarrow> nat \<Rightarrow> TxOutput list \<Rightarrow> utxo_map \<Rightarrow> utxo_map go" where
  "utxo_outputs L cs curHeight txn index [] m = Some m"
| "utxo_outputs L cs curHeight txn index (out # outs) m = do {
     (let k = (to_ProgramHash out, to_AssetID out, curHeight)
      in do {
        us \<leftarrow> (case map_of m k of
                 Some us \<Rightarrow> Some us
               | None \<Rightarrow> do {
                   r \<leftarrow> GetUnspentElementFromProgramHash L cs (to_ProgramHash out) (to_AssetID out) curHeight;
                   Some (case r of Inl err \<Rightarrow> [] | Inr us \<Rightarrow> us) });
        (h, _) \<leftarrow> Transaction_Hash txn;
        utxo_outputs L cs curHeight txn (Suc index) outs
          (AList.update k (us @ [\<lparr>uu_Txid = h, uu_Index = word_of_nat index, uu_Value = to_Value out\<rparr>]) m) }) }"

fun utxo_inputs ::
  "'d leveldb \<Rightarrow> 'd ChainStore \<Rightarrow> UTXOTxInput list \<Rightarrow> utxo_map \<Rightarrow> (goerr + utxo_map) go" where
  "utxo_inputs L cs [] m = Some (Inr m)"
| "utxo_inputs L cs (input # inputs) m = do {
     r \<leftarrow> GetTransaction L cs (ui_ReferTxID input);
     (case r of
        Inl err \<Rightarrow> Some (Inl err)
      | Inr (referTxn, height) \<Rightarrow>
          let index = ui_ReferTxOutputIndex input
          in if unat index \<ge> length (tx_Outputs referTxn) then panic
             else let out = tx_Outputs referTxn ! unat index; k = (to_ProgramHash out, to_AssetID out, height)
             in do {
               r \<leftarrow> (case map_of m k of
                       Some us \<Rightarrow> Some (Inr us)
                     | None \<Rightarrow> GetUnspentElementFromProgramHash L cs (to_ProgramHash out) (to_AssetID out) height);
               (case r of
                  Inl err \<Rightarrow> Some (Inl (ErrNew ''[persist] utxoUnspents has no unspent UTXO.''))
                | Inr us \<Rightarrow> do {
                    (h, _) \<leftarrow> Transaction_Hash referTxn;
                    (case swap_remove (\<lambda>u. Uint256_CompareTo (uu_Txid u) h = 0 \<and> uu_Index u = ucast index) us of
                       None \<Rightarrow> Some (Inl (ErrNew ''[persist] utxoUnspents NOT find UTXO by txid.''))
                     | Some us' \<Rightarrow> utxo_inputs L cs inputs (AList.update k us' m)) }) }) }"

fun PersistUnspendUTXOs_loop ::
  "'d leveldb \<Rightarrow> 'd ChainStore \<Rightarrow> u32 \<Rightarrow> Transaction list \<Rightarrow> utxo_map \<Rightarrow> (goerr + utxo_map) go" where
  "PersistUnspendUTXOs_loop L cs curHeight [] m = Some (Inr m)"
| "PersistUnspendUTXOs_loop L cs curHeight (txn # txns) m =
     (if tx_TxType txn = RegisterAsset then PersistUnspendUTXOs_loop L cs curHeight txns m
      else do {
        m \<leftarrow> utxo_outputs L cs curHeight txn 0 (tx_Outputs txn) m;
        (if IsCoinBaseTx txn then PersistUnspendUTXOs_loop L cs curHeight txns m
         else do {
           r \<leftarrow> utxo_inputs L cs (tx_UTXOInputs txn) m;
           (case r of
              Inl err \<Rightarrow> Some (Inl err)
            | Inr m \<Rightarrow> PersistUnspendUTXOs_loop L cs curHeight txns m) }) })"

fun put_utxos :: "utxo_map \<Rightarrow> 'd ChainStore \<Rightarrow> 'd ChainStore go" where
  "put_utxos [] cs = Some cs"
| "put_utxos ((k, us) # m) cs = do { cs \<leftarrow> PersistUnspentWithProgramHash k us cs; put_utxos m cs }"

definition PersistUnspendUTXOs :: "'d leveldb \<Rightarrow> Block \<Rightarrow> 'd ChainStore \<Rightarrow> (goerr option \<times> 'd ChainStore) go" where
  "PersistUnspendUTXOs L b cs = do {
     bd \<leftarrow> block_header b;
     r \<leftarrow> PersistUnspendUTXOs_loop L cs (bd_Height bd) (bk_Transactions b) [];
     (case r of
        Inl err \<Rightarrow> Some (Some err, cs)
      | Inr m \<Rightarrow> do { cs \<leftarrow> put_utxos m cs; Some (None, cs) }) }"

text \<open>
  Undoing: an output that is not found leaves \<^verbatim>\<open>position\<close> at zero, so the first entry is
  removed in its place, which panics on an empty list.
\<close>

definition remove_position :: "Uint256 \<Rightarrow> u32 \<Rightarrow> UTXOUnspent list \<Rightarrow> UTXOUnspent list go" where
  "remove_position h index us =
     (let position = (case first_index (\<lambda>u. uu_Txid u = h \<and> uu_Index u = index) us of None \<Rightarrow> 0 | Some i \<Rightarrow> i)
      in if position + 1 > length us then panic else Some (take position us @ drop (position + 1) us))"

fun rollback_utxo_outputs ::
  "'d leveldb \<Rightarrow> 'd ChainStore \<Rightarrow> u32 \<Rightarrow> Transaction \<Rightarrow> nat \<Rightarrow> TxOutput list \<Rightarrow> utxo_map \<Rightarrow> (goerr + utxo_map) go" where
  "rollback_utxo_outputs L cs height txn index [] m = Some (Inr m)"
| "rollback_utxo_outputs L cs height txn index (out # outs) m =
     (let k = (to_ProgramHash out, to_AssetID out, height)
      in do {
        r \<leftarrow> (case map_of m k of
                Some us \<Rightarrow> Some (Inr us)
              | None \<Rightarrow> GetUnspentElementFromProgramHash L cs (to_ProgramHash out) (to_AssetID out) height);
        (case r of
           Inl err \<Rightarrow> Some (Inl (ErrNew ''[persist] utxoUnspents has no unspent UTXO.''))
         | Inr us \<Rightarrow> do {
             (h, _) \<leftarrow> Transaction_Hash txn;
             us \<leftarrow> remove_position h (word_of_nat index) us;
             rollback_utxo_outputs L cs height txn (Suc index) outs (AList.update k us m) }) })"

fun rollback_utxo_inputs ::
  "'d leveldb \<Rightarrow> 'd ChainStore \<Rightarrow> UTXOTxInput list \<Rightarrow> utxo_map \<Rightarrow> (goerr + utxo_map) go" where
  "rollback_utxo_inputs L cs [] m = Some (Inr m)"
| "rollback_utxo_inputs L cs (input # inputs) m = do {
     r \<leftarrow> GetTransaction L cs (ui_ReferTxID input);
     (case r of
        Inl err \<Rightarrow> Some (Inl err)
      | Inr (referTxn, hh) \<Rightarrow>
          let index = ui_ReferTxOutputIndex input
          in if unat index \<ge> length (tx_Outputs referTxn) then panic
             else let out = tx_Outputs referTxn ! unat index; k = (to_ProgramHash out, to_AssetID out, hh)
             in do {
               us \<leftarrow> (case map_of m k of
                       Some us \<Rightarrow> Some us
                     | None \<Rightarrow> do {
                         r \<leftarrow> GetUnspentElementFromProgramHash L cs (to_ProgramHash out) (to_AssetID out) hh;
                         Some (case r of Inl err \<Rightarrow> [] | Inr us \<Rightarrow> us) });
               (h, _) \<leftarrow> Transaction_Hash referTxn;
               rollback_utxo_inputs L cs inputs
                 (AList.update k (us @ [\<lparr>uu_Txid = h, uu_Index = ucast index, uu_Value = to_Value out\<rparr>]) m) }) }"

fun RollbackUnspendUTXOs_loop ::
  "'d leveldb \<Rightarrow> 'd ChainStore \<Rightarrow> u32 \<Rightarrow> Transaction list \<Rightarrow> utxo_map \<Rightarrow> (goerr + utxo_map) go" where
  "RollbackUnspendUTXOs_loop L cs height [] m = Some (Inr m)"
| "RollbackUnspendUTXOs_loop L cs height (txn # txns) m =
     (if tx_TxType txn = RegisterAsset then RollbackUnspendUTXOs_loop L cs height txns m
      else do {
        r \<leftarrow> rollback_utxo_outputs L cs height txn 0 (tx_Outputs txn) m;
        (case r of
           Inl err \<Rightarrow> Some (Inl err)
         | Inr m \<Rightarrow>
             if IsCoinBaseTx txn then RollbackUnspendUTXOs_loop L cs height txns m
             else do {
               r \<leftarrow> rollback_utxo_inputs L cs (tx_UTXOInputs txn) m;
               (case r of
                  Inl err \<Rightarrow> Some (Inl err)
                | Inr m \<Rightarrow> RollbackUnspendUTXOs_loop L cs height txns m) }) })"

definition RollbackUnspendUTXOs :: "'d leveldb \<Rightarrow> Block \<Rightarrow> 'd ChainStore \<Rightarrow> (goerr option \<times> 'd ChainStore) go" where
  "RollbackUnspendUTXOs L b cs = do {
     bd \<leftarrow> block_header b;
     r \<leftarrow> RollbackUnspendUTXOs_loop L cs (bd_Height bd) (bk_Transactions b) [];
     (case r of
        Inl err \<Rightarrow> Some (Some err, cs)
      | Inr m \<Rightarrow> do { cs \<leftarrow> put_utxos m cs; Some (None, cs) }) }"

section \<open>Saving and rolling back a block\<close>

text \<open>The errors of the single writers are dropped.\<close>

definition persist :: "'d leveldb \<Rightarrow> Block \<Rightarrow> 'd ChainStore \<Rightarrow> 'd ChainStore go" where
  "persist L b cs = do {
     cs \<leftarrow> PersistTrimmedBlock b (NewBatch cs);
     cs \<leftarrow> PersistBlockHash b cs;
     cs \<leftarrow> PersistTransactions b cs;
     (_, cs) \<leftarrow> PersistUnspendUTXOs L b cs;
     (_, cs) \<leftarrow> PersistUnspend L b cs;
     cs \<leftarrow> PersistCurrentBlock b cs;
     Some (snd (BatchCommit L cs)) }"

definition rollback :: "'d leveldb \<Rightarrow> Block \<Rightarrow> 'd ChainStore \<Rightarrow> 'd ChainStore go" where
  "rollback L b cs = do {
     cs \<leftarrow> RollbackTrimemedBlock b (NewBatch cs);
     cs \<leftarrow> RollbackBlockHash b cs;
     cs \<leftarrow> RollbackTransactions b cs;
     (_, cs) \<leftarrow> RollbackUnspendUTXOs L b cs;
     (_, cs) \<leftarrow> RollbackUnspend L b cs;
     cs \<leftarrow> RollbackCurrentBlock b cs;
     bd \<leftarrow> block_header b;
     Some ((snd (BatchCommit L cs))\<lparr>cs_bestHeight := bd_Height bd - 1, cs_currentBlockHeight := bd_Height bd - 1\<rparr>) }"

definition persistBlocks :: "'d leveldb \<Rightarrow> Block \<Rightarrow> 'd ChainStore \<Rightarrow> 'd ChainStore go" where
  "persistBlocks L block cs = do {
     cs \<leftarrow> persist L block cs;
     bd \<leftarrow> block_header block;
     Some (cs\<lparr>cs_bestHeight := bd_Height bd, cs_currentBlockHeight := bd_Height bd\<rparr>) }"

text \<open>
  The header list: a removed element of \<^verbatim>\<open>container/list\<close> has no successor, so the loops that
  remove from it end at the first removal.
\<close>

fun remove_header :: "Uint256 \<Rightarrow> Blockdata list \<Rightarrow> Blockdata list" where
  "remove_header hash [] = []"
| "remove_header hash (n # ns) =
     (if Uint256_CompareTo (Blockdata_Hash n) hash = 0 then ns else n # remove_header hash ns)"

definition clearCache :: "Block \<Rightarrow> 'd ChainStore \<Rightarrow> 'd ChainStore go" where
  "clearCache b cs =
     (if cs_headerIdx cs = [] then Some cs
      else do { (h, _) \<leftarrow> Block_Hash b; Some (cs\<lparr>cs_headerIdx := remove_header h (cs_headerIdx cs)\<rparr>) })"

definition RemoveHeaderListElement :: "Uint256 \<Rightarrow> 'd ChainStore \<Rightarrow> 'd ChainStore" where
  "RemoveHeaderListElement hash cs = cs\<lparr>cs_headerIdx := remove_header hash (cs_headerIdx cs)\<rparr>"

definition handlePersistBlockTask :: "'d leveldb \<Rightarrow> Block \<Rightarrow> 'd ChainStore \<Rightarrow> 'd ChainStore go" where
  "handlePersistBlockTask L b cs = do {
     bd \<leftarrow> block_header b;
     (if bd_Height bd \<le> cs_currentBlockHeight cs then Some cs
      else do { cs \<leftarrow> persistBlocks L b cs; clearCache b cs }) }"

definition SaveBlock :: "'d leveldb \<Rightarrow> Block \<Rightarrow> 'd ChainStore \<Rightarrow> (goerr option \<times> 'd ChainStore) go" where
  "SaveBlock L b cs = do { cs \<leftarrow> handlePersistBlockTask L b cs; Some (None, cs) }"

definition handleRollbackBlockTask :: "'d leveldb \<Rightarrow> Uint256 \<Rightarrow> 'd ChainStore \<Rightarrow> 'd ChainStore go" where
  "handleRollbackBlockTask L blockHash cs = do {
     r \<leftarrow> GetBlock L cs blockHash;
     (case r of Inl err \<Rightarrow> Some cs | Inr block \<Rightarrow> rollback L block cs) }"

definition RollbackBlock :: "'d leveldb \<Rightarrow> Uint256 \<Rightarrow> 'd ChainStore \<Rightarrow> (goerr option \<times> 'd ChainStore) go" where
  "RollbackBlock L blockHash cs = do { cs \<leftarrow> handleRollbackBlockTask L blockHash cs; Some (None, cs) }"

section \<open>The list of announced headers\<close>

definition getHeaderWithCache :: "'d leveldb \<Rightarrow> 'd ChainStore \<Rightarrow> Uint256 \<Rightarrow> Blockdata option go" where
  "getHeaderWithCache L cs hash =
     (case find (\<lambda>n. Uint256_CompareTo (Blockdata_Hash n) hash = 0) (cs_headerIdx cs) of
        Some n \<Rightarrow> Some (Some n)
      | None \<Rightarrow> do { r \<leftarrow> GetHeader L cs hash; Some (case r of Inl _ \<Rightarrow> None | Inr h \<Rightarrow> Some h) })"

definition powVerifyHeader :: "'d leveldb \<Rightarrow> 'd ChainStore \<Rightarrow> Blockdata \<Rightarrow> bool go" where
  "powVerifyHeader L cs header = do {
     prev \<leftarrow> getHeaderWithCache L cs (bd_PrevBlockHash header);
     Some (case prev of
             None \<Rightarrow> False
           | Some prevHeader \<Rightarrow>
               if bd_Height prevHeader + 1 \<noteq> bd_Height header then False
               else if bd_Timestamp prevHeader > bd_Timestamp header then False
               else True) }"

definition addHeader :: "Blockdata \<Rightarrow> 'd ChainStore \<Rightarrow> 'd ChainStore" where
  "addHeader header cs =
     cs\<lparr>cs_headerCache := (cs_headerCache cs)(Blockdata_Hash header \<mapsto> header),
        cs_headerIndex := (cs_headerIndex cs)(bd_Height header \<mapsto> Blockdata_Hash header),
        cs_headerIdx := cs_headerIdx cs @ [header]\<rparr>"

definition handlePersistHeaderTask :: "'d leveldb \<Rightarrow> Blockdata \<Rightarrow> 'd ChainStore \<Rightarrow> 'd ChainStore go" where
  "handlePersistHeaderTask L header cs = do {
     ok \<leftarrow> powVerifyHeader L cs header;
     Some (if \<not> ok then cs else addHeader header cs) }"

fun persist_headers :: "'d leveldb \<Rightarrow> Blockdata list \<Rightarrow> 'd ChainStore \<Rightarrow> 'd ChainStore go" where
  "persist_headers L [] cs = Some cs"
| "persist_headers L (h # hs) cs = do { cs \<leftarrow> handlePersistHeaderTask L h cs; persist_headers L hs cs }"

text \<open>\<^verbatim>\<open>sort.Slice\<close> need not be stable; headers of the same height keep their order here.\<close>

definition AddHeaders :: "'d leveldb \<Rightarrow> Blockdata list \<Rightarrow> 'd ChainStore \<Rightarrow> 'd ChainStore go" where
  "AddHeaders L headers = persist_headers L (sort_key bd_Height headers)"

definition GetHeaderHashFront :: "'d ChainStore \<Rightarrow> Uint256 \<times> goerr option" where
  "GetHeaderHashFront cs =
     (case cs_headerIdx cs of
        [] \<Rightarrow> (0, Some (ErrNew ''no element in headerIdx.''))
      | header # _ \<Rightarrow> (Blockdata_Hash header, None))"

fun header_hash_next :: "Uint256 \<Rightarrow> Blockdata list \<Rightarrow> Uint256 \<times> goerr option" where
  "header_hash_next prevHash [] = (0, Some (ErrNew ''no element in headerIdx.''))"
| "header_hash_next prevHash (n # ns) =
     (if Uint256_CompareTo (Blockdata_Hash n) prevHash = 0
      then (case ns of header # _ \<Rightarrow> (Blockdata_Hash header, None) | [] \<Rightarrow> header_hash_next prevHash ns)
      else header_hash_next prevHash ns)"

definition GetHeaderHashNext :: "'d ChainStore \<Rightarrow> Uint256 \<Rightarrow> Uint256 \<times> goerr option" where
  "GetHeaderHashNext cs prevHash = header_hash_next prevHash (cs_headerIdx cs)"

definition GetCurrentHeaderHash :: "'d leveldb \<Rightarrow> 'd ChainStore \<Rightarrow> Uint256" where
  "GetCurrentHeaderHash L cs =
     (if cs_headerIdx cs \<noteq> [] then Blockdata_Hash (last (cs_headerIdx cs)) else GetCurrentBlockHash L cs)"

definition GetHeaderHashByHeight :: "'d leveldb \<Rightarrow> 'd ChainStore \<Rightarrow> u32 \<Rightarrow> Uint256" where
  "GetHeaderHashByHeight L cs height =
     (case find (\<lambda>n. height = bd_Height n) (cs_headerIdx cs) of
        Some n \<Rightarrow> Blockdata_Hash n
      | None \<Rightarrow> (case GetBlockHash L cs height of (hash, err) \<Rightarrow> if err \<noteq> None then 0 else hash))"

definition GetHeaderHeight :: "'d ChainStore \<Rightarrow> u32" where
  "GetHeaderHeight cs =
     (if cs_headerIdx cs \<noteq> [] then bd_Height (last (cs_headerIdx cs)) else cs_currentBlockHeight cs)"

definition GetHeight :: "'d ChainStore \<Rightarrow> u32" where
  "GetHeight cs = cs_currentBlockHeight cs"

section \<open>The ledger on top of the store\<close>

text \<open>\<^verbatim>\<open>core/ledger/ledger.go\<close>; the arguments printed in its error messages are left out.\<close>

definition Ledger_GetAsset :: "'d leveldb \<Rightarrow> 'd ChainStore \<Rightarrow> Uint256 \<Rightarrow> (goerr + Asset) go" where
  "Ledger_GetAsset L cs assetId = do {
     r \<leftarrow> GetAsset L cs assetId;
     Some (case r of Inl err \<Rightarrow> Inl (Detail ''[Ledger],GetAsset failed with assetId ='' err) | Inr a \<Rightarrow> Inr a) }"

definition GetBlockWithHash :: "'d leveldb \<Rightarrow> 'd ChainStore \<Rightarrow> Uint256 \<Rightarrow> (goerr + Block) go" where
  "GetBlockWithHash L cs hash = do {
     r \<leftarrow> GetBlock L cs hash;
     Some (case r of Inl err \<Rightarrow> Inl (Detail ''[Ledger],GetBlockWithHeight failed with hash='' err) | Inr b \<Rightarrow> Inr b) }"

definition GetBlockWithHeight :: "'d leveldb \<Rightarrow> 'd ChainStore \<Rightarrow> u32 \<Rightarrow> (goerr + Block) go" where
  "GetBlockWithHeight L cs height =
     (case GetBlockHash L cs height of
        (_, Some err) \<Rightarrow> Some (Inl (Detail ''[Ledger],GetBlockWithHeight failed with height='' err))
      | (temp, None) \<Rightarrow> GetBlockWithHash L cs temp)"

definition GetTransactionWithHash :: "'d leveldb \<Rightarrow> 'd ChainStore \<Rightarrow> Uint256 \<Rightarrow> (goerr + Transaction) go" where
  "GetTransactionWithHash L cs hash = do {
     r \<leftarrow> GetTransaction L cs hash;
     Some (case r of
             Inl err \<Rightarrow> Inl (Detail ''[Ledger],GetTransactionWithHash failed with hash='' err)
           | Inr (tx, _) \<Rightarrow> Inr tx) }"

text \<open>
  The ledger that \<^verbatim>\<open>txValidator.go\<close> asks: \<open>env\<close> supplies the configuration, the address
  coding and the signature check.
\<close>

definition store_env :: "'d leveldb \<Rightarrow> ledger_env \<Rightarrow> 'd ChainStore \<Rightarrow> ledger_env" where
  "store_env L env cs =
     env\<lparr>le_getTx := GetTransaction L cs, le_getAsset := Ledger_GetAsset L cs,
         le_isTxHashDuplicate := IsTxHashDuplicate L cs, le_isDoubleSpend := IsDoubleSpend L cs,
         le_height := GetHeight cs\<rparr>"

end
