(* ===== verification/Block_Index.thy ===== *)
theory Block_Index
  imports Block_Validator Chain_Store
begin

text \<open>
  \<^verbatim>\<open>core/ledger/blockchain.go\<close>, the tree of block nodes in memory. Nodes are shared and
  changed in place, so they live in an explicit heap: a \<^verbatim>\<open>*BlockNode\<close> is an address, and
  \<open>bc_nodes\<close> gives the node at an address. Walks along parent pointers are
  \<^theory_text>\<open>partial_function (option)\<close>s, whose value is \<open>None\<close> when the walk does not end; a panic
  is \<open>None\<close> as well.

  The ledger store is reached through the interface \<^verbatim>\<open>ILedgerStore\<close>, here the record
  \<open>ledger_store\<close> of the operations the block chain calls on a store state \<open>'s\<close>.
\<close>

section \<open>The ledger store interface\<close>

record 's ledger_store =
  ls_SaveBlock :: "Block \<Rightarrow> 's \<Rightarrow> (goerr option \<times> 's) go"
  ls_RollbackBlock :: "Uint256 \<Rightarrow> 's \<Rightarrow> (goerr option \<times> 's) go"
  ls_GetBlock :: "'s \<Rightarrow> Uint256 \<Rightarrow> (goerr + Block) go"
  ls_GetHeader :: "'s \<Rightarrow> Uint256 \<Rightarrow> (goerr + Blockdata) go"
  ls_GetBlockHash :: "'s \<Rightarrow> u32 \<Rightarrow> Uint256 \<times> goerr option"
  ls_GetCurrentBlockHash :: "'s \<Rightarrow> Uint256"
  ls_IsBlockInStore :: "'s \<Rightarrow> Uint256 \<Rightarrow> bool go"
  ls_GetTransaction :: "'s \<Rightarrow> tx_lookup"
  ls_env :: "'s \<Rightarrow> ledger_env"

text \<open>\<^verbatim>\<open>ChainStore\<close> implements it; \<open>env\<close> holds the configuration.\<close>

definition chain_store :: "'d leveldb \<Rightarrow> ledger_env \<Rightarrow> 'd ChainStore ledger_store" where
  "chain_store L env =
     \<lparr>ls_SaveBlock = SaveBlock L, ls_RollbackBlock = RollbackBlock L, ls_GetBlock = GetBlock L,
      ls_GetHeader = GetHeader L, ls_GetBlockHash = GetBlockHash L, ls_GetCurrentBlockHash = GetCurrentBlockHash L,
      ls_IsBlockInStore = IsBlockInStore L, ls_GetTransaction = GetTransaction L, ls_env = store_env L env\<rparr>"

section \<open>State\<close>

text \<open>An orphan is known by its address \<open>ob_ref\<close>; times are in nanoseconds.\<close>

record OrphanBlock =
  ob_ref :: nat
  ob_Block :: Block
  ob_Expiration :: int

text \<open>
  \<^verbatim>\<open>BlockHeight\<close> is written by the store only and kept there (\<open>cs_bestHeight\<close>). \<open>bc_store\<close> is
  the state of \<^verbatim>\<open>Ledger.Store\<close>. The locks serialise the operations; the events are output.
\<close>

record 's Blockchain =
  bc_nodes :: "nat \<Rightarrow> BlockNode"
  bc_fresh :: nat
  bc_GenesisHash :: Uint256
  bc_BestChain :: "nat option"
  bc_Root :: "nat option"
  bc_Index :: "Uint256 \<Rightarrow> nat option"
  bc_DepNodes :: "Uint256 \<Rightarrow> nat list option"
  bc_Orphans :: "(Uint256 \<times> OrphanBlock) list"
  bc_PrevOrphans :: "(Uint256 \<times> OrphanBlock list) list"
  bc_OldestOrphan :: "OrphanBlock option"
  bc_BlockCache :: "Uint256 \<Rightarrow> Block option"
  bc_TimeSource :: medianTime
  bc_MedianTimePast :: int
  bc_store :: 's
  bc_AssetID :: Uint256

text \<open>The zero \<^verbatim>\<open>time.Time\<close>, in Unix seconds.\<close>

abbreviation (input) zeroTime :: int where "zeroTime \<equiv> - 62135596800"

definition nil_node :: BlockNode where
  "nil_node = \<lparr>bn_Hash = 0, bn_ParentHash = 0, bn_Height = 0, bn_Version = 0, bn_Bits = 0, bn_Timestamp = 0,
     bn_WorkSum = 0, bn_InMainChain = False, bn_Parent = None, bn_Children = []\<rparr>"

definition NewBlockchain :: "'s \<Rightarrow> 's Blockchain" where
  "NewBlockchain st =
     \<lparr>bc_nodes = (\<lambda>_. nil_node), bc_fresh = 0, bc_GenesisHash = 0, bc_BestChain = None, bc_Root = None,
      bc_Index = Map.empty, bc_DepNodes = Map.empty, bc_Orphans = [], bc_PrevOrphans = [], bc_OldestOrphan = None,
      bc_BlockCache = Map.empty, bc_TimeSource = NewMedianTime, bc_MedianTimePast = zeroTime, bc_store = st,
      bc_AssetID = 0\<rparr>"

section \<open>Nodes\<close>

definition alloc_node :: "BlockNode \<Rightarrow> 's Blockchain \<Rightarrow> nat \<times> 's Blockchain" where
  "alloc_node n bc =
     (bc_fresh bc, bc\<lparr>bc_nodes := (bc_nodes bc)(bc_fresh bc := n), bc_fresh := Suc (bc_fresh bc)\<rparr>)"

definition upd_node :: "nat \<Rightarrow> (BlockNode \<Rightarrow> BlockNode) \<Rightarrow> 's Blockchain \<Rightarrow> 's Blockchain" where
  "upd_node a f bc = bc\<lparr>bc_nodes := (bc_nodes bc)(a := f (bc_nodes bc a))\<rparr>"

abbreviation node_hash :: "'s Blockchain \<Rightarrow> nat \<Rightarrow> Uint256" where
  "node_hash bc a \<equiv> bn_Hash (bc_nodes bc a)"

abbreviation node_parent :: "'s Blockchain \<Rightarrow> nat \<Rightarrow> nat option" where
  "node_parent bc a \<equiv> bn_Parent (bc_nodes bc a)"

definition AddNodeToIndex :: "nat \<Rightarrow> 's Blockchain \<Rightarrow> 's Blockchain" where
  "AddNodeToIndex a bc = bc\<lparr>bc_Index := (bc_Index bc)(node_hash bc a \<mapsto> a)\<rparr>"

definition RemoveNodeFromIndex :: "nat \<Rightarrow> 's Blockchain \<Rightarrow> 's Blockchain" where
  "RemoveNodeFromIndex a bc = bc\<lparr>bc_Index := (bc_Index bc)(node_hash bc a := None)\<rparr>"

definition LookupNodeInIndex :: "'s Blockchain \<Rightarrow> Uint256 \<Rightarrow> nat option" where
  "LookupNodeInIndex bc hash = bc_Index bc hash"

definition add_dep :: "Uint256 \<Rightarrow> nat \<Rightarrow> 's Blockchain \<Rightarrow> 's Blockchain" where
  "add_dep prevHash a bc =
     bc\<lparr>bc_DepNodes := (bc_DepNodes bc)(prevHash \<mapsto>
          (case bc_DepNodes bc prevHash of None \<Rightarrow> [] | Some ns \<Rightarrow> ns) @ [a])\<rparr>"

text \<open>The nodes from an address up to the root.\<close>

partial_function (option) path_up :: "(nat \<Rightarrow> BlockNode) \<Rightarrow> nat option \<Rightarrow> nat list option" where
  "path_up h p =
     (case p of
        None \<Rightarrow> Some []
      | Some a \<Rightarrow> do { as \<leftarrow> path_up h (bn_Parent (h a)); Some (a # as) })"

definition chain_of :: "'s Blockchain \<Rightarrow> nat option \<Rightarrow> BlockNode list go" where
  "chain_of bc p = map_option (map (bc_nodes bc)) (path_up (bc_nodes bc) p)"

text \<open>\<^verbatim>\<open>AddChildrenWork\<close>, over the children of a node, each followed by its own descendants.\<close>

partial_function (option) AddChildrenWork ::
  "int \<Rightarrow> nat list \<Rightarrow> (nat \<Rightarrow> BlockNode) \<Rightarrow> (nat \<Rightarrow> BlockNode) option" where
  "AddChildrenWork work children h =
     (case children of
        [] \<Rightarrow> Some h
      | c # cs \<Rightarrow> do {
          h \<leftarrow> AddChildrenWork work (bn_Children (h c)) (h(c := (h c)\<lparr>bn_WorkSum := bn_WorkSum (h c) + work\<rparr>));
          AddChildrenWork work cs h })"

fun RemoveChildNode :: "'s Blockchain \<Rightarrow> nat list \<Rightarrow> nat \<Rightarrow> nat list" where
  "RemoveChildNode bc [] node = []"
| "RemoveChildNode bc (c # cs) node =
     (if Uint256_CompareTo (node_hash bc c) (node_hash bc node) = 0 then cs else c # RemoveChildNode bc cs node)"

section \<open>Loading a node of the main chain\<close>

text \<open>A loaded node becomes the parent of the nodes that were waiting for it.\<close>

fun adopt_children :: "nat \<Rightarrow> nat list \<Rightarrow> 's Blockchain \<Rightarrow> 's Blockchain go" where
  "adopt_children node [] bc = Some bc"
| "adopt_children node (childNode # childNodes) bc = do {
     let bc = upd_node childNode (\<lambda>c. c\<lparr>bn_Parent := Some node\<rparr>) bc;
     let bc = upd_node node (\<lambda>n. n\<lparr>bn_Children := bn_Children n @ [childNode]\<rparr>) bc;
     let work = bn_WorkSum (bc_nodes bc node);
     let bc = upd_node childNode (\<lambda>c. c\<lparr>bn_WorkSum := bn_WorkSum c + work\<rparr>) bc;
     h \<leftarrow> AddChildrenWork work (bn_Children (bc_nodes bc childNode)) (bc_nodes bc);
     adopt_children node childNodes (bc\<lparr>bc_nodes := h, bc_Root := Some node\<rparr>) }"

definition link_node :: "nat \<Rightarrow> Blockdata \<Rightarrow> Uint256 \<Rightarrow> 's Blockchain \<Rightarrow> (goerr + 's Blockchain) go" where
  "link_node node blockHeader hash bc =
     (case LookupNodeInIndex bc (bd_PrevBlockHash blockHeader) of
        Some parentNode \<Rightarrow>
          (let bc = upd_node node (\<lambda>n. n\<lparr>bn_WorkSum := bn_WorkSum (bc_nodes bc parentNode) + bn_WorkSum n\<rparr>) bc;
               bc = upd_node parentNode (\<lambda>p. p\<lparr>bn_Children := bn_Children p @ [node]\<rparr>) bc
           in Some (Inr (upd_node node (\<lambda>n. n\<lparr>bn_Parent := Some parentNode\<rparr>) bc)))
      | None \<Rightarrow>
          (case bc_DepNodes bc hash of
             Some childNodes \<Rightarrow> map_option Inr (adopt_children node childNodes bc)
           | None \<Rightarrow>
               if bc_Root bc \<noteq> None then Some (Inl (ErrNew ''LoadBlockNode: attempt to insert orphan block''))
               else Some (Inr (bc\<lparr>bc_Root := Some node\<rparr>))))"

definition LoadBlockNode ::
  "Blockdata \<Rightarrow> Uint256 \<Rightarrow> 's Blockchain \<Rightarrow> ((goerr + nat) \<times> 's Blockchain) go" where
  "LoadBlockNode blockHeader hash bc =
     (case alloc_node ((NewBlockNode blockHeader hash)\<lparr>bn_InMainChain := True\<rparr>) bc of
        (node, bc1) \<Rightarrow> do {
          r \<leftarrow> link_node node blockHeader hash bc1;
          Some (case r of
                  Inl e \<Rightarrow> (Inl e, bc1)
                | Inr bc \<Rightarrow> (Inr node, add_dep (bd_PrevBlockHash blockHeader) node (AddNodeToIndex node bc))) })"

section \<open>Pruning\<close>

definition RemoveBlockNode :: "nat \<Rightarrow> 's Blockchain \<Rightarrow> goerr option \<times> 's Blockchain" where
  "RemoveBlockNode node bc =
     (if node_parent bc node \<noteq> None
      then (Some (ErrNew ''RemoveBlockNode must be called with a  node at the front of the chain''), bc)
      else
        let bc = RemoveNodeFromIndex node bc;
            bc = foldl (\<lambda>bc child. upd_node child (\<lambda>c. c\<lparr>bn_Parent := None\<rparr>) bc) bc (bn_Children (bc_nodes bc node));
            bc = upd_node node (\<lambda>n. n\<lparr>bn_Children := []\<rparr>) bc;
            prevHash = bn_ParentHash (bc_nodes bc node)
        in (None,
            case bc_DepNodes bc prevHash of
              None \<Rightarrow> bc
            | Some children \<Rightarrow>
                (case RemoveChildNode bc children node of
                   [] \<Rightarrow> bc\<lparr>bc_DepNodes := (bc_DepNodes bc)(prevHash := None)\<rparr>
                 | cs \<Rightarrow> bc\<lparr>bc_DepNodes := (bc_DepNodes bc)(prevHash \<mapsto> cs)\<rparr>)))"

fun remove_nodes :: "nat list \<Rightarrow> 's Blockchain \<Rightarrow> goerr option \<times> 's Blockchain" where
  "remove_nodes [] bc = (None, bc)"
| "remove_nodes (n # ns) bc =
     (case RemoveBlockNode n bc of
        (Some e, bc) \<Rightarrow> (Some e, bc)
      | (None, bc) \<Rightarrow> remove_nodes ns bc)"

fun climb :: "nat \<Rightarrow> (nat \<Rightarrow> BlockNode) \<Rightarrow> nat option \<Rightarrow> nat option" where
  "climb 0 h p = p"
| "climb (Suc n) h p = (case p of None \<Rightarrow> None | Some a \<Rightarrow> climb n h (bn_Parent (h a)))"

definition PruneBlockNodes :: "u32 \<Rightarrow> 's Blockchain \<Rightarrow> (goerr option \<times> 's Blockchain) go" where
  "PruneBlockNodes minMemoryNodes bc =
     (case bc_BestChain bc of
        None \<Rightarrow> Some (None, bc)
      | Some best \<Rightarrow>
          (case climb (unat (minMemoryNodes - 1)) (bc_nodes bc) (Some best) of
             None \<Rightarrow> Some (None, bc)
           | Some newRootNode \<Rightarrow>
               if node_parent bc newRootNode = None then Some (None, bc)
               else do {
                 deleteNodes \<leftarrow> path_up (bc_nodes bc) (node_parent bc newRootNode);
                 Some (case remove_nodes (rev deleteNodes) bc of
                         (Some e, bc) \<Rightarrow> (Some e, bc)
                       | (None, bc) \<Rightarrow> (None, bc\<lparr>bc_Root := Some newRootNode\<rparr>)) }))"

section \<open>Parents, from the database when pruned\<close>

definition Blockchain_GetHeader :: "'s ledger_store \<Rightarrow> 's Blockchain \<Rightarrow> Uint256 \<Rightarrow> (goerr + Blockdata) go" where
  "Blockchain_GetHeader S bc hash = do {
     r \<leftarrow> ls_GetHeader S (bc_store bc) hash;
     Some (case r of Inl err \<Rightarrow> Inl (Detail ''[Blockchain], GetHeader failed.'' err) | Inr h \<Rightarrow> Inr h) }"

definition load_from_store ::
  "'s ledger_store \<Rightarrow> Uint256 \<Rightarrow> 's Blockchain \<Rightarrow> ((goerr + nat option) \<times> 's Blockchain) go" where
  "load_from_store S prevHash bc = do {
     r \<leftarrow> Blockchain_GetHeader S bc prevHash;
     (case r of
        Inl err \<Rightarrow> Some (Inl err, bc)
      | Inr header \<Rightarrow> do {
          (r, bc) \<leftarrow> LoadBlockNode header prevHash bc;
          Some (case r of Inl err \<Rightarrow> Inl err | Inr node \<Rightarrow> Inr (Some node), bc) }) }"

definition GetPrevNodeFromBlock ::
  "'s ledger_store \<Rightarrow> Block \<Rightarrow> 's Blockchain \<Rightarrow> ((goerr + nat option) \<times> 's Blockchain) go" where
  "GetPrevNodeFromBlock S block bc =
     (case bk_Blockdata block of
        None \<Rightarrow> panic
      | Some bd \<Rightarrow>
          let prevHash = bd_PrevBlockHash bd
          in if Uint256_CompareTo prevHash 0 = 0 then Some (Inr None, bc)
             else (case LookupNodeInIndex bc prevHash of
                     Some bn \<Rightarrow> Some (Inr (Some bn), bc)
                   | None \<Rightarrow> load_from_store S prevHash bc))"

definition GetPrevNodeFromNode ::
  "'s ledger_store \<Rightarrow> nat \<Rightarrow> 's Blockchain \<Rightarrow> ((goerr + nat option) \<times> 's Blockchain) go" where
  "GetPrevNodeFromNode S node bc =
     (case node_parent bc node of
        Some p \<Rightarrow> Some (Inr (Some p), bc)
      | None \<Rightarrow>
          if Uint256_CompareTo (node_hash bc node) (bc_GenesisHash bc) = 0 then Some (Inr None, bc)
          else load_from_store S (bn_ParentHash (bc_nodes bc node)) bc)"

section \<open>The two sides of a fork\<close>

partial_function (option) attach_walk ::
  "(nat \<Rightarrow> BlockNode) \<Rightarrow> nat \<Rightarrow> nat list \<Rightarrow> (nat \<times> nat list) option" where
  "attach_walk h ancestor attachNodes =
     (case bn_Parent (h ancestor) of
        None \<Rightarrow> Some (ancestor, attachNodes)
      | Some p \<Rightarrow>
          if bn_InMainChain (h ancestor) then Some (ancestor, attachNodes)
          else attach_walk h p (ancestor # attachNodes))"

partial_function (option) detach_walk ::
  "(nat \<Rightarrow> BlockNode) \<Rightarrow> Uint256 \<Rightarrow> nat option \<Rightarrow> nat list option" where
  "detach_walk h target n =
     (case n of
        None \<Rightarrow> Some []
      | Some a \<Rightarrow>
          if bn_Parent (h a) = None then Some []
          else if Uint256_CompareTo (bn_Hash (h a)) target = 0 then Some []
          else do { ns \<leftarrow> detach_walk h target (bn_Parent (h a)); Some (a # ns) })"

definition GetReorganizeNodes :: "nat \<Rightarrow> 's Blockchain \<Rightarrow> (nat list \<times> nat list) go" where
  "GetReorganizeNodes node bc = do {
     (ancestor, attachNodes) \<leftarrow> attach_walk (bc_nodes bc) node [];
     detachNodes \<leftarrow> detach_walk (bc_nodes bc) (node_hash bc ancestor) (bc_BestChain bc);
     Some (detachNodes, attachNodes) }"

end
