(* ===== verification/Blockchain.thy ===== *)
theory Blockchain
  imports Block_Index
begin

text \<open>
  \<^verbatim>\<open>core/ledger/blockchain.go\<close>: orphan blocks, connecting and disconnecting blocks, choosing the
  best chain, reorganising it, and block locators.
\<close>

section \<open>Orphan blocks\<close>

definition block_hash :: "Block \<Rightarrow> Uint256 go" where
  "block_hash b = map_option fst (Block_Hash b)"

definition IsKnownOrphan :: "'s Blockchain \<Rightarrow> Uint256 \<Rightarrow> bool" where
  "IsKnownOrphan bc hash \<longleftrightarrow> map_of (bc_Orphans bc) hash \<noteq> None"

text \<open>The loop that drops every orphan with the given hash from a list.\<close>

fun drop_orphans :: "Uint256 \<Rightarrow> OrphanBlock list \<Rightarrow> OrphanBlock list go" where
  "drop_orphans orphanHash [] = Some []"
| "drop_orphans orphanHash (orphan # orphans) = do {
     hash \<leftarrow> block_hash (ob_Block orphan);
     rest \<leftarrow> drop_orphans orphanHash orphans;
     Some (if Uint256_CompareTo hash orphanHash = 0 then rest else orphan # rest) }"

definition prev_orphans :: "'s Blockchain \<Rightarrow> Uint256 \<Rightarrow> OrphanBlock list" where
  "prev_orphans bc hash = (case map_of (bc_PrevOrphans bc) hash of None \<Rightarrow> [] | Some os \<Rightarrow> os)"

definition RemoveOrphanBlock :: "OrphanBlock \<Rightarrow> 's Blockchain \<Rightarrow> 's Blockchain go" where
  "RemoveOrphanBlock orphan bc = do {
     orphanHash \<leftarrow> block_hash (ob_Block orphan);
     bd \<leftarrow> bk_Blockdata (ob_Block orphan);
     let prevHash = bd_PrevBlockHash bd;
     orphans \<leftarrow> drop_orphans orphanHash (prev_orphans bc prevHash);
     Some (bc\<lparr>bc_Orphans := AList.delete orphanHash (bc_Orphans bc),
              bc_PrevOrphans := (if orphans = [] then AList.delete prevHash (bc_PrevOrphans bc)
                                 else AList.update prevHash orphans (bc_PrevOrphans bc))\<rparr>) }"

text \<open>
  Ranging over the map of orphans while deleting from it: an entry deleted before it is
  reached is not produced. \<open>now\<close> is the clock, read once.
\<close>

fun expire_orphans :: "int \<Rightarrow> OrphanBlock list \<Rightarrow> 's Blockchain \<Rightarrow> 's Blockchain go" where
  "expire_orphans now [] bc = Some bc"
| "expire_orphans now (oBlock # os) bc =
     (if oBlock \<notin> snd ` set (bc_Orphans bc) then expire_orphans now os bc
      else if now > ob_Expiration oBlock then do {
        bc \<leftarrow> RemoveOrphanBlock oBlock bc;
        expire_orphans now os
          (if map_option ob_ref (bc_OldestOrphan bc) = Some (ob_ref oBlock) then bc\<lparr>bc_OldestOrphan := None\<rparr> else bc) }
      else expire_orphans now os bc)"

definition older_orphan :: "OrphanBlock option \<Rightarrow> OrphanBlock \<Rightarrow> OrphanBlock option" where
  "older_orphan oldest oBlock =
     (case oldest of
        None \<Rightarrow> Some oBlock
      | Some old \<Rightarrow> if ob_Expiration oBlock < ob_Expiration old then Some oBlock else Some old)"

abbreviation (input) orphanLifetime :: int where "orphanLifetime \<equiv> 3600 * 1000000000"

definition evict_orphan :: "nat \<Rightarrow> 's Blockchain \<Rightarrow> 's Blockchain go" where
  "evict_orphan maxOrphanBlocks bc =
     (if length (bc_Orphans bc) + 1 > maxOrphanBlocks
      then do {
        oldest \<leftarrow> bc_OldestOrphan bc;
        bc \<leftarrow> RemoveOrphanBlock oldest bc;
        Some (bc\<lparr>bc_OldestOrphan := None\<rparr>) }
      else Some bc)"

definition insert_orphan :: "int \<Rightarrow> Block \<Rightarrow> 's Blockchain \<Rightarrow> 's Blockchain go" where
  "insert_orphan now block bc = do {
     hash \<leftarrow> block_hash block;
     bd \<leftarrow> bk_Blockdata block;
     let oBlock = \<lparr>ob_ref = bc_fresh bc, ob_Block = block, ob_Expiration = now + orphanLifetime\<rparr>;
     let prevHash = bd_PrevBlockHash bd;
     Some (bc\<lparr>bc_fresh := Suc (bc_fresh bc),
              bc_Orphans := AList.update hash oBlock (bc_Orphans bc),
              bc_PrevOrphans := AList.update prevHash (prev_orphans bc prevHash @ [oBlock]) (bc_PrevOrphans bc)\<rparr>) }"

definition AddOrphanBlock :: "nat \<Rightarrow> int \<Rightarrow> Block \<Rightarrow> 's Blockchain \<Rightarrow> 's Blockchain go" where
  "AddOrphanBlock maxOrphanBlocks now block bc = do {
     bc \<leftarrow> expire_orphans now (map snd (bc_Orphans bc)) bc;
     let bc = bc\<lparr>bc_OldestOrphan := foldl older_orphan (bc_OldestOrphan bc) (map snd (bc_Orphans bc))\<rparr>;
     bc \<leftarrow> evict_orphan maxOrphanBlocks bc;
     insert_orphan now block bc }"

text \<open>The hash of the oldest known ancestor among the orphans.\<close>

partial_function (option) orphan_root :: "(Uint256 \<times> OrphanBlock) list \<Rightarrow> Uint256 \<Rightarrow> Uint256 \<Rightarrow> Uint256 option" where
  "orphan_root os root prevHash =
     (case map_of os prevHash of
        None \<Rightarrow> Some root
      | Some orphan \<Rightarrow> do {
          bd \<leftarrow> bk_Blockdata (ob_Block orphan);
          orphan_root os prevHash (bd_PrevBlockHash bd) })"

definition GetOrphanRoot :: "'s Blockchain \<Rightarrow> Uint256 \<Rightarrow> Uint256 go" where
  "GetOrphanRoot bc hash = orphan_root (bc_Orphans bc) hash hash"

section \<open>Connecting and disconnecting blocks\<close>

definition set_median :: "'s Blockchain \<Rightarrow> 's Blockchain go" where
  "set_median bc = do {
     chain \<leftarrow> chain_of bc (bc_BestChain bc);
     t \<leftarrow> CalcPastMedianTime chain;
     Some (bc\<lparr>bc_MedianTimePast := t\<rparr>) }"

definition DisconnectBlock ::
  "'s ledger_store \<Rightarrow> nat \<Rightarrow> Block \<Rightarrow> 's Blockchain \<Rightarrow> (goerr option \<times> 's Blockchain) go" where
  "DisconnectBlock S node block bc =
     (case bc_BestChain bc of
        None \<Rightarrow> Some (Some (ErrNew ''disconnectBlock must be called with the block at the end of the main chain''), bc)
      | Some best \<Rightarrow>
          if Uint256_CompareTo (node_hash bc node) (node_hash bc best) \<noteq> 0
          then Some (Some (ErrNew ''disconnectBlock must be called with the block at the end of the main chain''), bc)
          else do {
            (r, bc) \<leftarrow> GetPrevNodeFromNode S node bc;
            (case r of
               Inl err \<Rightarrow> Some (Some err, bc)
             | Inr _ \<Rightarrow> do {
                 (err, st) \<leftarrow> ls_RollbackBlock S (node_hash bc node) (bc_store bc);
                 let bc = bc\<lparr>bc_store := st\<rparr>;
                 (case err of
                    Some e \<Rightarrow> Some (Some e, bc)
                  | None \<Rightarrow> do {
                      let bc = upd_node node (\<lambda>n. n\<lparr>bn_InMainChain := False\<rparr>) bc;
                      let bc = bc\<lparr>bc_BlockCache := (bc_BlockCache bc)(node_hash bc node \<mapsto> block)\<rparr>;
                      bc \<leftarrow> set_median (bc\<lparr>bc_BestChain := node_parent bc node\<rparr>);
                      Some (None, bc) }) }) })"

fun check_context :: "ledger_env \<Rightarrow> Transaction list \<Rightarrow> bool go" where
  "check_context env [] = Some True"
| "check_context env (txVerify # txs) = do {
     errCode \<leftarrow> CheckTransactionContext env txVerify;
     (if errCode \<noteq> ErrNoError then Some False else check_context env txs) }"

definition ConnectBlock ::
  "'s ledger_store \<Rightarrow> nat \<Rightarrow> Block \<Rightarrow> 's Blockchain \<Rightarrow> (goerr option \<times> 's Blockchain) go" where
  "ConnectBlock S node block bc = do {
     ok \<leftarrow> check_context (ls_env S (bc_store bc)) (bk_Transactions block);
     (if \<not> ok then Some (Some (ErrNew ''CheckTransactionContext failed when verifiy block''), bc)
      else do {
        bd \<leftarrow> bk_Blockdata block;
        let prevHash = bd_PrevBlockHash bd;
        (if (case bc_BestChain bc of None \<Rightarrow> False | Some best \<Rightarrow> Uint256_CompareTo prevHash (node_hash bc best) \<noteq> 0)
         then Some (Some (ErrNew ''connectBlock must be called with a block that extends the main chain''), bc)
         else do {
           (err, st) \<leftarrow> ls_SaveBlock S block (bc_store bc);
           let bc = bc\<lparr>bc_store := st\<rparr>;
           (case err of
              Some e \<Rightarrow> Some (Some e, bc)
            | None \<Rightarrow> do {
                let bc = upd_node node (\<lambda>n. n\<lparr>bn_InMainChain := True\<rparr>) bc;
                let bc = add_dep prevHash node (AddNodeToIndex node bc);
                bc \<leftarrow> set_median (bc\<lparr>bc_BestChain := Some node\<rparr>);
                Some (None, bc) }) }) }) }"

section \<open>Reorganising\<close>

fun disconnect_all :: "'s ledger_store \<Rightarrow> nat list \<Rightarrow> 's Blockchain \<Rightarrow> (goerr option \<times> 's Blockchain) go" where
  "disconnect_all S [] bc = Some (None, bc)"
| "disconnect_all S (n # ns) bc = do {
     r \<leftarrow> ls_GetBlock S (bc_store bc) (node_hash bc n);
     (case r of
        Inl err \<Rightarrow> Some (Some err, bc)
      | Inr block \<Rightarrow> do {
          (err, bc) \<leftarrow> DisconnectBlock S n block bc;
          (case err of Some e \<Rightarrow> Some (Some e, bc) | None \<Rightarrow> disconnect_all S ns bc) }) }"

fun connect_all :: "'s ledger_store \<Rightarrow> nat list \<Rightarrow> 's Blockchain \<Rightarrow> (goerr option \<times> 's Blockchain) go" where
  "connect_all S [] bc = Some (None, bc)"
| "connect_all S (n # ns) bc = do {
     block \<leftarrow> bc_BlockCache bc (node_hash bc n);
     (err, bc) \<leftarrow> ConnectBlock S n block bc;
     (case err of
        Some e \<Rightarrow> Some (Some e, bc)
      | None \<Rightarrow> connect_all S ns (bc\<lparr>bc_BlockCache := (bc_BlockCache bc)(node_hash bc n := None)\<rparr>)) }"

definition ReorganizeChain ::
  "'s ledger_store \<Rightarrow> nat list \<Rightarrow> nat list \<Rightarrow> 's Blockchain \<Rightarrow> (goerr option \<times> 's Blockchain) go" where
  "ReorganizeChain S detachNodes attachNodes bc =
     (if \<exists>n\<in>set attachNodes. bc_BlockCache bc (node_hash bc n) = None
      then Some (Some (ErrNew ''block is missing from the side chain block cache''), bc)
      else do {
        (err, bc) \<leftarrow> disconnect_all S detachNodes bc;
        (case err of Some e \<Rightarrow> Some (Some e, bc) | None \<Rightarrow> connect_all S attachNodes bc) })"

text \<open>
  On a side chain that does not win, the source walks to the fork point only to report it in
  the log; that walk is left out.
\<close>

definition ConnectBestChain ::
  "'s ledger_store \<Rightarrow> nat \<Rightarrow> Block \<Rightarrow> 's Blockchain \<Rightarrow> ((goerr + bool) \<times> 's Blockchain) go" where
  "ConnectBestChain S node block bc = do {
     extends \<leftarrow> (case bc_BestChain bc of
                   None \<Rightarrow> Some True
                 | Some best \<Rightarrow>
                     (case node_parent bc node of
                        None \<Rightarrow> panic
                      | Some p \<Rightarrow> Some (Uint256_CompareTo (node_hash bc p) (node_hash bc best) = 0)));
     (if extends then do {
        (err, bc) \<leftarrow> ConnectBlock S node block bc;
        Some (case err of
                Some e \<Rightarrow> (Inl e, bc)
              | None \<Rightarrow>
                  (Inr True,
                   case node_parent bc node of
                     None \<Rightarrow> bc
                   | Some p \<Rightarrow> upd_node p (\<lambda>n. n\<lparr>bn_Children := bn_Children n @ [node]\<rparr>) bc)) }
      else do {
        let bc = AddNodeToIndex node (bc\<lparr>bc_BlockCache := (bc_BlockCache bc)(node_hash bc node \<mapsto> block)\<rparr>);
        let bc = upd_node node (\<lambda>n. n\<lparr>bn_InMainChain := False\<rparr>) bc;
        p \<leftarrow> node_parent bc node;
        let bc = upd_node p (\<lambda>n. n\<lparr>bn_Children := bn_Children n @ [node]\<rparr>) bc;
        best \<leftarrow> bc_BestChain bc;
        (if bn_WorkSum (bc_nodes bc node) \<le> bn_WorkSum (bc_nodes bc best) then Some (Inr False, bc)
         else do {
           (detachNodes, attachNodes) \<leftarrow> GetReorganizeNodes node bc;
           (err, bc) \<leftarrow> ReorganizeChain S detachNodes attachNodes bc;
           Some (case err of Some e \<Rightarrow> (Inl e, bc) | None \<Rightarrow> (Inr True, bc)) }) }) }"

section \<open>Accepting a block\<close>

definition BlockExists :: "'s ledger_store \<Rightarrow> 's Blockchain \<Rightarrow> Uint256 \<Rightarrow> bool go" where
  "BlockExists S bc hash =
     (if LookupNodeInIndex bc hash \<noteq> None then Some True else ls_IsBlockInStore S (bc_store bc) hash)"

definition accept_node :: "Block \<Rightarrow> Blockdata \<Rightarrow> u32 \<Rightarrow> Uint256 \<Rightarrow> nat option \<Rightarrow> 's Blockchain \<Rightarrow> nat \<times> 's Blockchain" where
  "accept_node block bd blockHeight blockhash prevNode bc =
     (let newNode = NewBlockNode bd blockhash
      in alloc_node
           (case prevNode of
              None \<Rightarrow> newNode
            | Some p \<Rightarrow> newNode\<lparr>bn_Parent := Some p, bn_Height := blockHeight,
                               bn_WorkSum := bn_WorkSum (bc_nodes bc p) + bn_WorkSum newNode\<rparr>) bc)"

definition maybeAcceptBlock ::
  "'s ledger_store \<Rightarrow> Block \<Rightarrow> 's Blockchain \<Rightarrow> ((goerr + bool) \<times> 's Blockchain) go" where
  "maybeAcceptBlock S block bc = do {
     (r, bc) \<leftarrow> GetPrevNodeFromBlock S block bc;
     (case r of
        Inl err \<Rightarrow> Some (Inl err, bc)
      | Inr prevNode \<Rightarrow> do {
          bd \<leftarrow> bk_Blockdata block;
          let cp = le_params (ls_env S (bc_store bc));
          let blockHeight = (case prevNode of None \<Rightarrow> 0 | Some p \<Rightarrow> bn_Height (bc_nodes bc p) + 1);
          (if bd_Height bd \<noteq> blockHeight then Some (Inl (ErrNew ''wrong block height!''), bc)
           else do {
             chain \<leftarrow> chain_of bc prevNode;
             err \<leftarrow> PowCheckBlockContext cp chain block;
             (case err of
                Some e \<Rightarrow> Some (Inl e, bc)
              | None \<Rightarrow> do {
                  (err, bc) \<leftarrow> PruneBlockNodes (cp_MinMemoryNodes cp) bc;
                  (case err of
                     Some e \<Rightarrow> Some (Inl e, bc)
                   | None \<Rightarrow> do {
                       blockhash \<leftarrow> block_hash block;
                       let (node, bc) = accept_node block bd blockHeight blockhash prevNode bc;
                       ConnectBestChain S node block bc }) }) }) }) }"

text \<open>
  The worklist of \<^verbatim>\<open>ProcessOrphans\<close>: the outer result is \<open>None\<close> when the fuel runs out, the
  inner one when the body panics.
\<close>

fun process_orphans ::
  "'s ledger_store \<Rightarrow> nat \<Rightarrow> Uint256 list \<Rightarrow> 's Blockchain \<Rightarrow> (goerr option \<times> 's Blockchain) go option" where
  "process_orphans S 0 hashes bc = None"
| "process_orphans S (Suc n) [] bc = Some (Some (None, bc))"
| "process_orphans S (Suc n) (processHash # hashes) bc =
     (case prev_orphans bc processHash of
        [] \<Rightarrow> process_orphans S n hashes bc
      | orphan # _ \<Rightarrow>
          (case do { orphanHash \<leftarrow> block_hash (ob_Block orphan);
                     bc \<leftarrow> RemoveOrphanBlock orphan bc;
                     (r, bc) \<leftarrow> maybeAcceptBlock S (ob_Block orphan) bc;
                     Some (orphanHash, r, bc) } of
             None \<Rightarrow> Some panic
           | Some (orphanHash, Inl err, bc) \<Rightarrow> Some (Some (Some err, bc))
           | Some (orphanHash, Inr _, bc) \<Rightarrow> process_orphans S n (processHash # hashes @ [orphanHash]) bc))"

definition orphan_count :: "'s Blockchain \<Rightarrow> nat" where
  "orphan_count bc = sum_list (map (length \<circ> snd) (bc_PrevOrphans bc))"

definition ProcessOrphans :: "'s ledger_store \<Rightarrow> Uint256 \<Rightarrow> 's Blockchain \<Rightarrow> (goerr option \<times> 's Blockchain) go" where
  "ProcessOrphans S hash bc = Option.bind (process_orphans S (2 * orphan_count bc + 2) [hash] bc) (\<lambda>r. r)"

definition ProcessBlock ::
  "'s ledger_store \<Rightarrow> int \<Rightarrow> Block \<Rightarrow> 's Blockchain \<Rightarrow> ((bool \<times> bool \<times> goerr option) \<times> 's Blockchain) go" where
  "ProcessBlock S now block bc = do {
     blockHash \<leftarrow> block_hash block;
     exists \<leftarrow> BlockExists S bc blockHash;
     (if exists then Some ((False, False, Some (ErrNew ''already have block'')), bc)
      else if IsKnownOrphan bc blockHash then Some ((False, False, Some (ErrNew ''already have block (orphan)'')), bc)
      else do {
        let env = ls_env S (bc_store bc);
        err \<leftarrow> PowCheckBlockSanity env (cp_PowLimit (le_params env)) (AdjustedTime (now div 1000000000) (bc_TimeSource bc)) block;
        (case err of
           Some e \<Rightarrow> Some ((False, False, Some e), bc)
         | None \<Rightarrow> do {
             bd \<leftarrow> bk_Blockdata block;
             let prevHash = bd_PrevBlockHash bd;
             known \<leftarrow> (if Uint256_CompareTo prevHash 0 \<noteq> 0 then BlockExists S bc prevHash else Some True);
             (if \<not> known then do {
                bc \<leftarrow> AddOrphanBlock (cp_MaxOrphanBlocks (le_params env)) now block bc;
                Some ((False, True, None), bc) }
              else do {
                (r, bc) \<leftarrow> maybeAcceptBlock S block bc;
                (case r of
                   Inl e \<Rightarrow> Some ((False, True, Some e), bc)
                 | Inr inMainChain \<Rightarrow> do {
                     (err, bc) \<leftarrow> ProcessOrphans S blockHash bc;
                     Some (case err of
                             Some e \<Rightarrow> ((False, False, Some e), bc)
                           | None \<Rightarrow> ((inMainChain, False, None), bc)) }) }) }) }) }"

definition AddBlock ::
  "'s ledger_store \<Rightarrow> int \<Rightarrow> Block \<Rightarrow> 's Blockchain \<Rightarrow> ((bool \<times> bool \<times> goerr option) \<times> 's Blockchain) go" where
  "AddBlock S now block bc = do {
     ((inMainChain, isOrphan, err), bc) \<leftarrow> ProcessBlock S now block bc;
     Some (if err \<noteq> None then (False, False, err) else (inMainChain, isOrphan, None), bc) }"

section \<open>Queries\<close>

definition ContainsTransaction :: "'s ledger_store \<Rightarrow> 's Blockchain \<Rightarrow> Uint256 \<Rightarrow> bool go" where
  "ContainsTransaction S bc hash = do {
     r \<leftarrow> ls_GetTransaction S (bc_store bc) hash;
     Some (case r of Inl _ \<Rightarrow> False | Inr _ \<Rightarrow> True) }"

definition CurrentBlockHash :: "'s ledger_store \<Rightarrow> 's Blockchain \<Rightarrow> Uint256" where
  "CurrentBlockHash S bc = ls_GetCurrentBlockHash S (bc_store bc)"

abbreviation (input) MaxBlockLocatorsPerMsg :: nat where "MaxBlockLocatorsPerMsg \<equiv> 500"

text \<open>
  Heights are \<^verbatim>\<open>int32\<close>. The height falls in every round, so that fuel of one more than the
  first height is enough (\<open>locator_ends\<close>).
\<close>

fun locator_loop ::
  "'s ledger_store \<Rightarrow> 's \<Rightarrow> nat \<Rightarrow> 32 word \<Rightarrow> 32 word \<Rightarrow> Uint256 list \<Rightarrow> Uint256 list option" where
  "locator_loop S st 0 blockHeight increment locator = None"
| "locator_loop S st (Suc n) blockHeight increment locator =
     (if length locator \<ge> MaxBlockLocatorsPerMsg - 1 then Some locator
      else
        let increment = (if length locator > 10 then increment * 2 else increment);
            blockHeight = blockHeight - increment
        in if sint blockHeight < 1 then Some locator
           else (case ls_GetBlockHash S st blockHeight of
                   (_, Some err) \<Rightarrow> locator_loop S st n blockHeight increment locator
                 | (h, None) \<Rightarrow> locator_loop S st n blockHeight increment (locator @ [h])))"

definition blockLocatorFromHash :: "'s ledger_store \<Rightarrow> 's Blockchain \<Rightarrow> Uint256 \<Rightarrow> Uint256 list go" where
  "blockLocatorFromHash S bc hash =
     (if Uint256_CompareTo hash (bc_GenesisHash bc) = 0 then Some [hash]
      else do {
        r \<leftarrow> (case LookupNodeInIndex bc hash of
                Some node \<Rightarrow> Some (Some (bn_Height (bc_nodes bc node)))
              | None \<Rightarrow> do {
                  r \<leftarrow> ls_GetBlock S (bc_store bc) hash;
                  (case r of
                     Inl err \<Rightarrow> Some None
                   | Inr block \<Rightarrow> do { bd \<leftarrow> bk_Blockdata block; Some (Some (bd_Height bd)) }) });
        (case r of
           None \<Rightarrow> Some [hash]
         | Some blockHeight \<Rightarrow> do {
             locator \<leftarrow> locator_loop S (bc_store bc) (Suc (unat blockHeight)) blockHeight 1 [hash];
             Some (locator @ [bc_GenesisHash bc]) }) })"

definition LatestBlockLocator :: "'s ledger_store \<Rightarrow> 's Blockchain \<Rightarrow> Uint256 list go" where
  "LatestBlockLocator S bc =
     (case bc_BestChain bc of
        None \<Rightarrow> blockLocatorFromHash S bc (ls_GetCurrentBlockHash S (bc_store bc))
      | Some best \<Rightarrow> blockLocatorFromHash S bc (node_hash bc best))"

fun LatestLocatorHash :: "'s ledger_store \<Rightarrow> 's Blockchain \<Rightarrow> Uint256 list \<Rightarrow> Uint256 go" where
  "LatestLocatorHash S bc [] = Some 0"
| "LatestLocatorHash S bc (hash # locator) = do {
     r \<leftarrow> ls_GetBlock S (bc_store bc) hash;
     (case r of Inr _ \<Rightarrow> Some hash | Inl err \<Rightarrow> LatestLocatorHash S bc locator) }"

definition MedianAdjustedTime :: "int \<Rightarrow> 's Blockchain \<Rightarrow> int" where
  "MedianAdjustedTime now bc =
     (let newTimestamp = AdjustedTime now (bc_TimeSource bc); minTimestamp = bc_MedianTimePast bc + 1
      in if newTimestamp < minTimestamp then minTimestamp else newTimestamp)"

section \<open>The locator\<close>

lemma sint_word32: "- (2 ^ 31) \<le> i \<Longrightarrow> i < 2 ^ 31 \<Longrightarrow> sint (word_of_int i :: 32 word) = i"
  by (simp add: signed_of_int signed_take_bit_int_eq_self)

lemma sint_minus_power:
  fixes h :: "32 word"
  assumes "1 \<le> sint h" and "j \<le> 31"
  shows "sint (h - 2 ^ j) = sint h - 2 ^ j"
proof -
  have "(2 :: int) ^ j \<le> 2 ^ 31" using assms(2) by (intro power_increasing) simp_all
  moreover have "sint h < 2 ^ 31" using sint_lt [of h] by simp
  moreover have "(0 :: int) < 2 ^ j" by simp
  ultimately have "- (2 ^ 31) \<le> sint h - 2 ^ j" "sint h - 2 ^ j < 2 ^ 31" using assms(1) by linarith+
  then have "sint (word_of_int (sint h - 2 ^ j) :: 32 word) = sint h - 2 ^ j" by (rule sint_word32)
  moreover have "word_of_int (sint h - 2 ^ j) = h - 2 ^ j" by simp
  ultimately show ?thesis by simp
qed

text \<open>
  The distance is a power of two and at most \<open>2 ^ 30\<close> when a round goes on: a distance of \<open>2 ^ 31\<close> takes every
  height below one.
\<close>

lemma locator_loop_ends:
  assumes "1 \<le> sint h" and "sint h < int n" and "j \<le> 30"
  shows "\<exists>locator'. locator_loop S st n h (2 ^ j) locator = Some locator'"
  using assms
proof (induction n arbitrary: h j locator)
  case (Suc n)
  define k where "k = (if length locator > 10 then Suc j else j)"
  define h' where "h' = h - 2 ^ k"
  have "(if length locator > 10 then 2 ^ j * 2 else 2 ^ j) = (2 :: 32 word) ^ k" by (simp add: k_def mult.commute)
  then have step: "locator_loop S st (Suc n) h (2 ^ j) locator =
      (if length locator \<ge> MaxBlockLocatorsPerMsg - 1 then Some locator
       else if sint h' < 1 then Some locator
       else (case ls_GetBlockHash S st h' of
               (_, Some err) \<Rightarrow> locator_loop S st n h' (2 ^ k) locator
             | (x, None) \<Rightarrow> locator_loop S st n h' (2 ^ k) (locator @ [x])))"
    by (simp add: Let_def h'_def)
  have s: "sint h' = sint h - 2 ^ k" unfolding h'_def using Suc.prems(1,3) by (intro sint_minus_power) (auto simp: k_def)
  have "\<exists>l. locator_loop S st n h' (2 ^ k) locator' = Some l" if "\<not> sint h' < 1" for locator'
  proof (rule Suc.IH)
    have "sint h < 2 ^ 31" using sint_lt [of h] by simp
    then have "(2 :: int) ^ k < 2 ^ 31" using that s by simp
    then have "k < 31" by (rule power_less_imp_less_exp [rotated]) simp
    then show "k \<le> 30" by simp
    have "(1 :: int) \<le> 2 ^ k" by simp
    then show "1 \<le> sint h'" "sint h' < int n" using that s Suc.prems(2) by linarith+
  qed
  then show ?case unfolding step by (auto split: prod.split option.split)
qed simp

lemma locator_ends:
  "length locator \<le> 10 \<Longrightarrow> \<exists>locator'. locator_loop S st (Suc (unat h)) h 1 locator = Some locator'"
proof (cases "sint (h - 1) < 1")
  case False
  assume len: "length locator \<le> 10"
  have "sint (h - 1) < int (unat h)"
  proof (cases "1 \<le> sint h")
    case True
    then have "sint (h - 1) = sint h - 1" using sint_minus_power [of h 0] by simp
    moreover have "sint h \<le> uint h" using uint_ge_0 [of h] by (simp add: sint_uint signed_take_bit_int_less_eq_self_iff order_trans [of _ 0])
    ultimately show ?thesis by simp
  next
    case neg: False
    have "2 ^ 31 \<le> uint h"
    proof (rule ccontr)
      assume "\<not> 2 ^ 31 \<le> uint h"
      then have "sint h = uint h" by (simp add: sint_uint signed_take_bit_int_eq_self_iff order_trans [of _ 0])
      then have "uint h = 0" using neg uint_ge_0 [of h] by linarith
      then have "h = 0" by (simp add: uint_0_iff)
      then show False using \<open>\<not> sint (h - 1) < 1\<close> by simp
    qed
    moreover have "sint (h - 1) < 2 ^ 31" using sint_lt [of "h - 1"] by simp
    ultimately show ?thesis by simp
  qed
  then have "\<exists>l. locator_loop S st (unat h) (h - 1) (2 ^ 0) locator' = Some l" for locator'
    using False by (intro locator_loop_ends) auto
  then show ?thesis using len by (auto simp: Let_def split: prod.split option.split)
qed (auto simp: Let_def)

end
