(* ===== verification/Orphan_Pool.thy ===== *)
theory Orphan_Pool
  imports Blockchain
begin

text \<open>
  The pool of orphan blocks: the map by hash and the index by parent hash agree, the pool is
  bounded, and \<^verbatim>\<open>ProcessOrphans\<close> ends because every round takes an orphan out of it.
\<close>

section \<open>What connecting blocks leaves alone\<close>

definition pool :: "'s Blockchain \<Rightarrow> (Uint256 \<times> OrphanBlock) list \<times> (Uint256 \<times> OrphanBlock list) list \<times> OrphanBlock option" where
  "pool bc = (bc_Orphans bc, bc_PrevOrphans bc, bc_OldestOrphan bc)"

lemma pool_upd [simp]:
  "pool (upd_node a f bc) = pool bc" "pool (AddNodeToIndex a bc) = pool bc" "pool (RemoveNodeFromIndex a bc) = pool bc"
  "pool (add_dep p a bc) = pool bc"
  "pool (bc\<lparr>bc_nodes := h\<rparr>) = pool bc" "pool (bc\<lparr>bc_Root := r\<rparr>) = pool bc" "pool (bc\<lparr>bc_BestChain := b\<rparr>) = pool bc"
  "pool (bc\<lparr>bc_BlockCache := c\<rparr>) = pool bc" "pool (bc\<lparr>bc_store := st\<rparr>) = pool bc" "pool (bc\<lparr>bc_MedianTimePast := t\<rparr>) = pool bc"
  "pool (bc\<lparr>bc_DepNodes := d\<rparr>) = pool bc"
  by (simp_all add: pool_def upd_node_def AddNodeToIndex_def RemoveNodeFromIndex_def add_dep_def alloc_node_def)

lemma alloc_pool: "alloc_node n bc = (a, bc') \<Longrightarrow> pool bc' = pool bc"
  by (auto simp: alloc_node_def pool_def)

lemma adopt_pool: "adopt_children n cs bc = Some bc' \<Longrightarrow> pool bc' = pool bc"
  by (induction n cs bc rule: adopt_children.induct) (auto simp: Let_def split: bind_splits)

lemma link_pool: "link_node n bd h bc = Some (Inr bc') \<Longrightarrow> pool bc' = pool bc"
  by (auto simp: link_node_def Let_def dest: adopt_pool split: option.splits if_splits)

lemma Load_pool: "LoadBlockNode bd h bc = Some (r, bc') \<Longrightarrow> pool bc' = pool bc"
  using alloc_pool [of "(NewBlockNode bd h)\<lparr>bn_InMainChain := True\<rparr>" bc]
  by (auto simp: LoadBlockNode_def dest!: link_pool split: prod.splits bind_splits sum.splits)

lemma load_store_pool: "load_from_store S h bc = Some (r, bc') \<Longrightarrow> pool bc' = pool bc"
  by (auto simp: load_from_store_def dest: Load_pool split: bind_splits sum.splits)

lemma GetPrevBlock_pool: "GetPrevNodeFromBlock S b bc = Some (r, bc') \<Longrightarrow> pool bc' = pool bc"
  by (auto simp: GetPrevNodeFromBlock_def Let_def dest: load_store_pool split: option.splits if_splits)

lemma GetPrevNode_pool: "GetPrevNodeFromNode S n bc = Some (r, bc') \<Longrightarrow> pool bc' = pool bc"
  by (auto simp: GetPrevNodeFromNode_def dest: load_store_pool split: option.splits if_splits)

lemma fold_parent_pool: "pool (foldl (\<lambda>bc c. upd_node c f bc) bc cs) = pool bc"
  by (induction cs arbitrary: bc) auto

lemma RemoveBlockNode_pool: "RemoveBlockNode n bc = (e, bc') \<Longrightarrow> pool bc' = pool bc"
  by (auto simp: RemoveBlockNode_def Let_def fold_parent_pool split: option.splits list.splits if_splits)

lemma remove_nodes_pool: "remove_nodes ns bc = (e, bc') \<Longrightarrow> pool bc' = pool bc"
  by (induction ns bc rule: remove_nodes.induct) (auto dest: RemoveBlockNode_pool split: prod.splits option.splits)

lemma Prune_pool: "PruneBlockNodes m bc = Some (e, bc') \<Longrightarrow> pool bc' = pool bc"
  by (auto simp: PruneBlockNodes_def dest: remove_nodes_pool split: option.splits if_splits bind_splits prod.splits)

lemma set_median_pool: "set_median bc = Some bc' \<Longrightarrow> pool bc' = pool bc"
  by (auto simp: set_median_def split: bind_splits)

lemma Disconnect_pool: "DisconnectBlock S n b bc = Some (e, bc') \<Longrightarrow> pool bc' = pool bc"
  by (auto simp: DisconnectBlock_def Let_def dest!: set_median_pool GetPrevNode_pool
      split: option.splits if_splits bind_splits sum.splits)

lemma Connect_pool: "ConnectBlock S n b bc = Some (e, bc') \<Longrightarrow> pool bc' = pool bc"
  by (auto simp: ConnectBlock_def Let_def dest!: set_median_pool split: option.splits if_splits bind_splits)

lemma disconnect_all_pool: "disconnect_all S ns bc = Some (e, bc') \<Longrightarrow> pool bc' = pool bc"
  by (induction ns arbitrary: bc) (auto dest!: Disconnect_pool split: bind_splits sum.splits option.splits)

lemma connect_all_pool: "connect_all S ns bc = Some (e, bc') \<Longrightarrow> pool bc' = pool bc"
  by (induction ns arbitrary: bc) (fastforce dest!: Connect_pool split: bind_splits sum.splits option.splits)+

lemma Reorganize_pool: "ReorganizeChain S ds as bc = Some (e, bc') \<Longrightarrow> pool bc' = pool bc"
  by (auto simp: ReorganizeChain_def dest!: disconnect_all_pool connect_all_pool split: if_splits bind_splits option.splits)

lemma ConnectBest_pool: "ConnectBestChain S n b bc = Some (r, bc') \<Longrightarrow> pool bc' = pool bc"
  by (auto simp: ConnectBestChain_def Let_def dest!: Connect_pool Reorganize_pool
      split: if_splits bind_splits option.splits)

lemma accept_pool: "maybeAcceptBlock S b bc = Some (r, bc') \<Longrightarrow> pool bc' = pool bc"
  by (auto simp: maybeAcceptBlock_def Let_def accept_node_def dest!: GetPrevBlock_pool Prune_pool ConnectBest_pool alloc_pool
      split: bind_splits sum.splits option.splits if_splits prod.splits)

section \<open>The orphan pool\<close>

definition filed :: "OrphanBlock \<Rightarrow> Uint256 \<Rightarrow> Uint256 \<Rightarrow> bool" where
  "filed orphan p h \<longleftrightarrow> map_option bd_PrevBlockHash (bk_Blockdata (ob_Block orphan)) = Some p \<and>
     block_hash (ob_Block orphan) = Some h"

lemma filed_fun: "filed x p h \<Longrightarrow> filed x p' h' \<longleftrightarrow> p' = p \<and> h' = h"
  by (auto simp: filed_def)

text \<open>The two orphan maps agree: an orphan is listed under its parent's hash exactly when it is registered.\<close>

definition orphans_ok :: "'s Blockchain \<Rightarrow> bool" where
  "orphans_ok bc \<longleftrightarrow> distinct (map fst (bc_Orphans bc)) \<and> distinct (map fst (bc_PrevOrphans bc)) \<and>
     (\<forall>p x. x \<in> set (prev_orphans bc p) \<longleftrightarrow> (\<exists>h. map_of (bc_Orphans bc) h = Some x \<and> filed x p h)) \<and>
     (\<forall>h x. map_of (bc_Orphans bc) h = Some x \<longrightarrow> (\<exists>p. filed x p h))"

definition registered :: "'s Blockchain \<Rightarrow> OrphanBlock \<Rightarrow> bool" where
  "registered bc x \<longleftrightarrow> x \<in> snd ` set (bc_Orphans bc)"

definition oldest_ok :: "'s Blockchain \<Rightarrow> bool" where
  "oldest_ok bc \<longleftrightarrow> (\<forall>x. bc_OldestOrphan bc = Some x \<longrightarrow> registered bc x)"

lemma orphans_okD:
  assumes "orphans_ok bc"
  shows "distinct (map fst (bc_Orphans bc))" "distinct (map fst (bc_PrevOrphans bc))"
    "\<And>p x. x \<in> set (prev_orphans bc p) \<longleftrightarrow> (\<exists>h. map_of (bc_Orphans bc) h = Some x \<and> filed x p h)"
    "\<And>h x. map_of (bc_Orphans bc) h = Some x \<Longrightarrow> \<exists>p. filed x p h"
  using assms unfolding orphans_ok_def by blast+

lemma registered_iff: "orphans_ok bc \<Longrightarrow> registered bc x \<longleftrightarrow> (\<exists>h. map_of (bc_Orphans bc) h = Some x)"
  using orphans_okD(1) by (force simp: registered_def dest: map_of_SomeD intro: map_of_is_SomeI)

lemma orphans_ok_pool: "pool bc' = pool bc \<Longrightarrow> orphans_ok bc \<Longrightarrow> orphans_ok bc'"
  unfolding pool_def orphans_ok_def prev_orphans_def prod.inject by (elim conjE) (simp only:, blast)

lemma drop_orphans_filter:
  assumes "\<forall>x\<in>set os. \<exists>h. block_hash (ob_Block x) = Some h"
  shows "drop_orphans h0 os = Some (filter (\<lambda>x. block_hash (ob_Block x) \<noteq> Some h0) os)"
  using assms by (induction os) (auto simp: Uint256_CompareTo_sign)

lemma length_delete: "distinct (map fst al) \<Longrightarrow> map_of al k = Some v \<Longrightarrow> Suc (length (AList.delete k al)) = length al"
  by (induction al) (auto split: if_splits)

lemma sum_delete:
  "distinct (map fst al) \<Longrightarrow> map_of al k = Some xs \<Longrightarrow>
     sum_list (map (length \<circ> snd) (AList.delete k al)) + length xs = sum_list (map (length \<circ> snd) al)"
  by (induction al) (auto split: if_splits)

lemma sum_update:
  "distinct (map fst al) \<Longrightarrow> map_of al k = Some xs \<Longrightarrow>
     sum_list (map (length \<circ> snd) (AList.update k ys al)) + length xs = sum_list (map (length \<circ> snd) al) + length ys"
  by (induction al) (auto split: if_splits)

lemma RemoveOrphanBlock_run:
  assumes ok: "orphans_ok bc" and x: "map_of (bc_Orphans bc) h = Some x" and f: "filed x p h"
  obtains bc' where "RemoveOrphanBlock x bc = Some bc'"
    "bc_Orphans bc' = AList.delete h (bc_Orphans bc)" "bc_OldestOrphan bc' = bc_OldestOrphan bc"
    "\<And>q. prev_orphans bc' q = (if q = p then filter (\<lambda>y. block_hash (ob_Block y) \<noteq> Some h) (prev_orphans bc p) else prev_orphans bc q)"
    "orphans_ok bc'" "orphan_count bc' < orphan_count bc" "bc_fresh bc' = bc_fresh bc"
proof -
  note D = orphans_okD [OF ok]
  define os where "os = prev_orphans bc p"
  define os' where "os' = filter (\<lambda>y. block_hash (ob_Block y) \<noteq> Some h) os"
  obtain bd where bd: "bk_Blockdata (ob_Block x) = Some bd" "bd_PrevBlockHash bd = p" "block_hash (ob_Block x) = Some h"
    using f by (auto simp: filed_def)
  have "\<forall>y\<in>set os. \<exists>h. block_hash (ob_Block y) = Some h" using D(3) by (auto simp: os_def filed_def)
  then have drop: "drop_orphans h os = Some os'" unfolding os'_def by (rule drop_orphans_filter)
  define bc' where "bc' = bc\<lparr>bc_Orphans := AList.delete h (bc_Orphans bc),
      bc_PrevOrphans := (if os' = [] then AList.delete p (bc_PrevOrphans bc) else AList.update p os' (bc_PrevOrphans bc))\<rparr>"
  have run: "RemoveOrphanBlock x bc = Some bc'"
    using bd drop by (simp add: RemoveOrphanBlock_def bc'_def os_def)
  have prev: "prev_orphans bc' q = (if q = p then os' else prev_orphans bc q)" for q
    by (simp add: prev_orphans_def bc'_def delete_conv' update_conv')
  have mem: "x \<in> set os" using D(3) x f by (auto simp: os_def)
  have reg: "map_of (bc_Orphans bc') k = (if k = h then None else map_of (bc_Orphans bc) k)" for k
    by (simp add: bc'_def delete_conv')
  have "y \<in> set (prev_orphans bc' q) \<longleftrightarrow> (\<exists>k. map_of (bc_Orphans bc') k = Some y \<and> filed y q k)" for q y
  proof -
    have "y \<in> set (prev_orphans bc' q) \<longleftrightarrow> (\<exists>k. map_of (bc_Orphans bc) k = Some y \<and> filed y q k \<and> (q = p \<longrightarrow> k \<noteq> h))"
      unfolding prev os'_def os_def using D(3) by (auto simp: filed_def)
    also have "\<dots> \<longleftrightarrow> (\<exists>k. map_of (bc_Orphans bc) k = Some y \<and> filed y q k \<and> k \<noteq> h)"
      using x filed_fun [OF f] by (metis option.inject)
    finally show ?thesis unfolding reg by auto
  qed
  moreover have "\<exists>q. filed y q k" if "map_of (bc_Orphans bc') k = Some y" for k y
    using that D(4) by (simp add: reg split: if_splits)
  ultimately have ok': "orphans_ok bc'"
    using D(1,2) unfolding orphans_ok_def by (auto simp: bc'_def distinct_delete distinct_update)
  have "map_of (bc_PrevOrphans bc) p = Some os"
    using mem unfolding os_def prev_orphans_def by (cases "map_of (bc_PrevOrphans bc) p") simp_all
  note sums = sum_delete [OF D(2) this] sum_update [OF D(2) this, of os']
  have "length os' < length os" unfolding os'_def using mem bd(3) by (intro length_filter_less [of x]) simp_all
  then have "orphan_count bc' < orphan_count bc"
    using sums by (auto simp: orphan_count_def bc'_def)
  then show ?thesis using run ok' prev by (intro that [of bc']) (auto simp: bc'_def os'_def os_def)
qed

lemma orphan_count_pool: "pool bc' = pool bc \<Longrightarrow> orphan_count bc' = orphan_count bc"
  by (simp add: pool_def orphan_count_def)

lemma process_orphans_ends:
  assumes "orphans_ok bc" and "2 * orphan_count bc + length hashes < n"
  shows "process_orphans S n hashes bc \<noteq> None"
  using assms
proof (induction S n hashes bc rule: process_orphans.induct)
  case (3 S n ph hashes bc)
  show ?case
  proof (cases "prev_orphans bc ph")
    case Nil
    then show ?thesis using 3 by simp
  next
    case (Cons x xs)
    then have "x \<in> set (prev_orphans bc ph)" by simp
    then obtain h where x: "map_of (bc_Orphans bc) h = Some x" "filed x ph h"
      using orphans_okD(3) [OF 3(3)] by blast
    obtain bc1 where bc1: "RemoveOrphanBlock x bc = Some bc1" "orphans_ok bc1" "orphan_count bc1 < orphan_count bc"
      by (rule RemoveOrphanBlock_run [OF 3(3) x])
    have h: "block_hash (ob_Block x) = Some h" using x(2) by (simp add: filed_def)
    show ?thesis
    proof (cases "maybeAcceptBlock S (ob_Block x) bc1")
      case None
      then show ?thesis using Cons bc1(1) h by simp
    next
      case (Some rb)
      obtain r bc2 where rb: "rb = (r, bc2)" by (cases rb)
      have bc2: "orphans_ok bc2" "orphan_count bc2 < orphan_count bc"
        using accept_pool Some rb bc1 orphans_ok_pool orphan_count_pool by metis+
      show ?thesis
      proof (cases r)
        case (Inl e)
        then show ?thesis using Cons bc1(1) h Some rb by simp
      next
        case (Inr b)
        have "process_orphans S n (ph # hashes @ [h]) bc2 \<noteq> None"
          using 3(2) [OF Cons, of "(h, Inr b, bc2)" h "(Inr b, bc2)" "Inr b" bc2 b] bc1(1) h Some rb Inr bc2 3(4)
          by simp
        then show ?thesis using Cons bc1(1) h Some rb Inr by simp
      qed
    qed
  qed
qed simp_all

lemma orphans_ok_oldest [simp]: "orphans_ok (bc\<lparr>bc_OldestOrphan := z\<rparr>) = orphans_ok bc"
  by (simp add: orphans_ok_def prev_orphans_def)

lemma registered_mono: "set (bc_Orphans bc') \<subseteq> set (bc_Orphans bc) \<Longrightarrow> registered bc' x \<Longrightarrow> registered bc x"
  by (auto simp: registered_def)

lemma delete_subset: "set (AList.delete k al) \<subseteq> set al"
  by (induction al) auto

lemma registered_delete:
  assumes "orphans_ok bc" and "bc_Orphans bc' = AList.delete h (bc_Orphans bc)" and "map_of (bc_Orphans bc) h = Some x"
    and "orphans_ok bc'"
  shows "registered bc' y \<longleftrightarrow> registered bc y \<and> y \<noteq> x"
proof -
  have "(\<exists>k. map_of (bc_Orphans bc') k = Some y) \<longleftrightarrow> (\<exists>k. map_of (bc_Orphans bc) k = Some y \<and> k \<noteq> h)"
    unfolding assms(2) delete_conv' by auto
  also have "\<dots> \<longleftrightarrow> (\<exists>k. map_of (bc_Orphans bc) k = Some y) \<and> y \<noteq> x"
    using assms(3) orphans_okD(4) [OF assms(1)] filed_fun by (metis option.inject)
  finally show ?thesis unfolding registered_iff [OF assms(1)] registered_iff [OF assms(4)] .
qed

lemma expire_ok:
  assumes "orphans_ok bc" and "oldest_ok bc"
  shows "\<exists>bc'. expire_orphans now os bc = Some bc' \<and> orphans_ok bc' \<and> oldest_ok bc' \<and>
    length (bc_Orphans bc') \<le> length (bc_Orphans bc) \<and> set (bc_Orphans bc') \<subseteq> set (bc_Orphans bc) \<and>
    (\<forall>x\<in>set os. registered bc' x \<longrightarrow> now \<le> ob_Expiration x)"
  using assms
proof (induction os arbitrary: bc)
  case (Cons x os)
  show ?case
  proof (cases "registered bc x \<and> now > ob_Expiration x")
    case False
    then have "expire_orphans now (x # os) bc = expire_orphans now os bc" by (auto simp: registered_def)
    moreover obtain bc' where bc': "expire_orphans now os bc = Some bc'" "orphans_ok bc'" "oldest_ok bc'"
        "length (bc_Orphans bc') \<le> length (bc_Orphans bc)" "set (bc_Orphans bc') \<subseteq> set (bc_Orphans bc)"
        "\<forall>x\<in>set os. registered bc' x \<longrightarrow> now \<le> ob_Expiration x"
      using Cons.IH [OF Cons.prems] by blast
    moreover have "registered bc' x \<longrightarrow> now \<le> ob_Expiration x" using registered_mono [OF bc'(5)] False by auto
    ultimately show ?thesis by simp
  next
    case True
    then obtain h where h: "map_of (bc_Orphans bc) h = Some x" using registered_iff [OF Cons.prems(1)] by blast
    then obtain p where f: "filed x p h" using orphans_okD(4) [OF Cons.prems(1)] by blast
    obtain bc1 where bc1: "RemoveOrphanBlock x bc = Some bc1" "bc_Orphans bc1 = AList.delete h (bc_Orphans bc)"
        "bc_OldestOrphan bc1 = bc_OldestOrphan bc" "orphans_ok bc1"
      by (rule RemoveOrphanBlock_run [OF Cons.prems(1) h f])
    define bc2 where "bc2 = (if map_option ob_ref (bc_OldestOrphan bc1) = Some (ob_ref x) then bc1\<lparr>bc_OldestOrphan := None\<rparr> else bc1)"
    have sub: "set (bc_Orphans bc2) \<subseteq> set (bc_Orphans bc)" "length (bc_Orphans bc2) \<le> length (bc_Orphans bc)"
      using delete_subset [of h "bc_Orphans bc"] length_delete [OF orphans_okD(1) [OF Cons.prems(1)] h] by (auto simp: bc2_def bc1(2))
    have reg: "registered bc1 y \<longleftrightarrow> registered bc y \<and> y \<noteq> x" for y
      by (rule registered_delete [OF Cons.prems(1) bc1(2) h bc1(4)])
    have "orphans_ok bc2" using bc1(4) by (simp add: bc2_def)
    moreover have "oldest_ok bc2"
      using Cons.prems(2) reg bc1(3) by (auto simp: oldest_ok_def bc2_def)
    ultimately obtain bc' where bc': "expire_orphans now os bc2 = Some bc'" "orphans_ok bc'" "oldest_ok bc'"
        "length (bc_Orphans bc') \<le> length (bc_Orphans bc2)" "set (bc_Orphans bc') \<subseteq> set (bc_Orphans bc2)"
        "\<forall>x\<in>set os. registered bc' x \<longrightarrow> now \<le> ob_Expiration x"
      using Cons.IH by blast
    have "\<not> registered bc2 x" using reg by (simp add: registered_def bc2_def)
    then have "\<not> registered bc' x" using registered_mono [OF bc'(5)] by blast
    moreover have "expire_orphans now (x # os) bc = Some bc'"
      using True bc1(1) bc'(1) by (simp add: registered_def bc2_def)
    moreover have "length (bc_Orphans bc') \<le> length (bc_Orphans bc)" "set (bc_Orphans bc') \<subseteq> set (bc_Orphans bc)"
      using bc'(4,5) sub by auto
    ultimately show ?thesis using bc'(2,3,6) by simp
  qed
qed simp

lemma older_orphan_foldl:
  "foldl older_orphan z xs = None \<longleftrightarrow> z = None \<and> xs = []"
  "foldl older_orphan z xs = Some x \<Longrightarrow> z = Some x \<or> x \<in> set xs"
  "foldl older_orphan z xs = Some x \<Longrightarrow> y \<in> set xs \<Longrightarrow> ob_Expiration x \<le> ob_Expiration y"
proof -
  have le: "foldl older_orphan (Some w) xs = Some x \<Longrightarrow> ob_Expiration x \<le> ob_Expiration w" for w xs
    by (induction xs arbitrary: w) (fastforce simp: older_orphan_def split: if_splits)+
  show "foldl older_orphan z xs = None \<longleftrightarrow> z = None \<and> xs = []"
    by (induction xs arbitrary: z) (auto simp: older_orphan_def split: option.splits)
  show "foldl older_orphan z xs = Some x \<Longrightarrow> z = Some x \<or> x \<in> set xs"
    by (induction xs arbitrary: z) (fastforce simp: older_orphan_def split: option.splits if_splits)+
  show "foldl older_orphan z xs = Some x \<Longrightarrow> y \<in> set xs \<Longrightarrow> ob_Expiration x \<le> ob_Expiration y"
  proof (induction xs arbitrary: z)
    case (Cons a xs)
    have "\<exists>w. older_orphan z a = Some w \<and> ob_Expiration w \<le> ob_Expiration a"
      by (simp add: older_orphan_def split: option.splits)
    then obtain w where w: "older_orphan z a = Some w" "ob_Expiration w \<le> ob_Expiration a" by blast
    then show ?case using Cons le [of w] by (cases "y = a") fastforce+
  qed simp
qed

lemma update_append_new: "k \<notin> fst ` set al \<Longrightarrow> AList.update k v al = al @ [(k, v)]"
  by (induction al) auto

lemma add_orphan_ok:
  fixes bc :: "'s Blockchain" and n :: nat
  assumes "orphans_ok bc" and "oldest_ok bc" and "map_of (bc_Orphans bc) h = None" and "filed x p h"
  defines "bc' \<equiv> bc\<lparr>bc_fresh := n, bc_Orphans := AList.update h x (bc_Orphans bc),
      bc_PrevOrphans := AList.update p (prev_orphans bc p @ [x]) (bc_PrevOrphans bc)\<rparr>"
  shows "orphans_ok bc'" "oldest_ok bc'" "length (bc_Orphans bc') = Suc (length (bc_Orphans bc))"
proof -
  note D = orphans_okD [OF assms(1)]
  have prev: "prev_orphans bc' q = (if q = p then prev_orphans bc p @ [x] else prev_orphans bc q)" for q
    by (simp add: prev_orphans_def bc'_def update_conv')
  have reg: "map_of (bc_Orphans bc') k = (if k = h then Some x else map_of (bc_Orphans bc) k)" for k
    by (simp add: bc'_def update_conv')
  have "y \<in> set (prev_orphans bc' q) \<longleftrightarrow> (\<exists>k. map_of (bc_Orphans bc') k = Some y \<and> filed y q k)" for q y
  proof -
    have "(\<exists>k. map_of (bc_Orphans bc') k = Some y \<and> filed y q k) \<longleftrightarrow>
        (y = x \<and> filed y q h) \<or> (\<exists>k. map_of (bc_Orphans bc) k = Some y \<and> filed y q k)"
      unfolding reg using assms(3) by (metis option.distinct(1) option.inject)
    also have "\<dots> \<longleftrightarrow> (y = x \<and> q = p) \<or> y \<in> set (prev_orphans bc q)"
      using D(3) filed_fun [OF assms(4)] by auto
    finally show ?thesis unfolding prev by auto
  qed
  then show ok: "orphans_ok bc'"
    using D(1,2,4) assms(4) unfolding orphans_ok_def reg by (auto simp: bc'_def distinct_update)
  have upd: "AList.update h x (bc_Orphans bc) = bc_Orphans bc @ [(h, x)]"
    using assms(3) by (intro update_append_new) (simp add: map_of_eq_None_iff)
  then show "length (bc_Orphans bc') = Suc (length (bc_Orphans bc))" by (simp add: bc'_def)
  show "oldest_ok bc'" using assms(2) upd by (auto simp: oldest_ok_def registered_def bc'_def)
qed

lemma evict_ok:
  assumes "orphans_ok bc" and "oldest_ok bc" and "bc_OldestOrphan bc = Some x"
  obtains bc' where "RemoveOrphanBlock x bc = Some bc'" "orphans_ok bc'" "set (bc_Orphans bc') \<subseteq> set (bc_Orphans bc)"
    "Suc (length (bc_Orphans bc')) = length (bc_Orphans bc)"
proof -
  have "registered bc x" using assms(2,3) by (simp add: oldest_ok_def)
  then obtain h where h: "map_of (bc_Orphans bc) h = Some x" using registered_iff [OF assms(1)] by blast
  then obtain p where f: "filed x p h" using orphans_okD(4) [OF assms(1)] by blast
  show thesis
    by (rule RemoveOrphanBlock_run [OF assms(1) h f])
       (rule that, assumption, assumption, simp_all add: delete_subset length_delete [OF orphans_okD(1) [OF assms(1)] h])
qed

lemma evict_orphan_ok:
  assumes "orphans_ok bc" and "oldest_ok bc" and "bc_OldestOrphan bc = None \<Longrightarrow> bc_Orphans bc = []"
    and "0 < limit" and "length (bc_Orphans bc) \<le> limit"
  shows "\<exists>bc'. evict_orphan limit bc = Some bc' \<and> orphans_ok bc' \<and> oldest_ok bc' \<and>
    Suc (length (bc_Orphans bc')) \<le> limit \<and> set (bc_Orphans bc') \<subseteq> set (bc_Orphans bc)"
proof (cases "length (bc_Orphans bc) + 1 > limit")
  case True
  then have "bc_Orphans bc \<noteq> []" using assms(4) by auto
  then obtain x where x: "bc_OldestOrphan bc = Some x" using assms(3) by (cases "bc_OldestOrphan bc") auto
  obtain bc' where "RemoveOrphanBlock x bc = Some bc'" "orphans_ok bc'" "set (bc_Orphans bc') \<subseteq> set (bc_Orphans bc)"
      "Suc (length (bc_Orphans bc')) = length (bc_Orphans bc)"
    by (rule evict_ok [OF assms(1,2) x])
  then show ?thesis using True x assms(5) by (auto simp: evict_orphan_def oldest_ok_def)
qed (use assms in \<open>simp add: evict_orphan_def\<close>)

lemma AddOrphanBlock_ok:
  assumes ok: "orphans_ok bc" "oldest_ok bc" and known: "\<not> IsKnownOrphan bc h" and h: "block_hash b = Some h"
    and bd: "bk_Blockdata b = Some bd" and pos: "0 < limit" and len: "length (bc_Orphans bc) \<le> limit"
  shows "\<exists>bc'. AddOrphanBlock limit now b bc = Some bc' \<and> orphans_ok bc' \<and> oldest_ok bc' \<and>
    IsKnownOrphan bc' h \<and> length (bc_Orphans bc') \<le> limit \<and> (\<forall>x. registered bc' x \<longrightarrow> now \<le> ob_Expiration x)"
proof -
  obtain bc1 where bc1: "expire_orphans now (map snd (bc_Orphans bc)) bc = Some bc1" "orphans_ok bc1" "oldest_ok bc1"
      "length (bc_Orphans bc1) \<le> length (bc_Orphans bc)" "set (bc_Orphans bc1) \<subseteq> set (bc_Orphans bc)"
      "\<forall>x\<in>set (map snd (bc_Orphans bc)). registered bc1 x \<longrightarrow> now \<le> ob_Expiration x"
    using expire_ok [OF ok] by blast
  define bc2 where "bc2 = bc1\<lparr>bc_OldestOrphan := foldl older_orphan (bc_OldestOrphan bc1) (map snd (bc_Orphans bc1))\<rparr>"
  have bc2: "orphans_ok bc2" "oldest_ok bc2" "bc_Orphans bc2 = bc_Orphans bc1"
    "bc_OldestOrphan bc2 = None \<Longrightarrow> bc_Orphans bc2 = []"
    using bc1(2,3) older_orphan_foldl(1,2) [of "bc_OldestOrphan bc1" "map snd (bc_Orphans bc1)"]
    by (auto simp: bc2_def oldest_ok_def registered_def)
  obtain bc3 where bc3: "evict_orphan limit bc2 = Some bc3" "orphans_ok bc3" "oldest_ok bc3" "Suc (length (bc_Orphans bc3)) \<le> limit"
      "set (bc_Orphans bc3) \<subseteq> set (bc_Orphans bc1)"
    using evict_orphan_ok [OF bc2(1,2,4) pos] bc1(4) len bc2(3) by auto
  define x where "x = \<lparr>ob_ref = bc_fresh bc3, ob_Block = b, ob_Expiration = now + orphanLifetime\<rparr>"
  define p where "p = bd_PrevBlockHash bd"
  define bc4 where "bc4 = bc3\<lparr>bc_fresh := Suc (bc_fresh bc3), bc_Orphans := AList.update h x (bc_Orphans bc3),
      bc_PrevOrphans := AList.update p (prev_orphans bc3 p @ [x]) (bc_PrevOrphans bc3)\<rparr>"
  have "h \<notin> fst ` set (bc_Orphans bc)" using known by (simp add: IsKnownOrphan_def map_of_eq_None_iff)
  then have new: "map_of (bc_Orphans bc3) h = None" using bc3(5) bc1(5) by (auto simp: map_of_eq_None_iff)
  have f: "filed x p h" using h bd by (simp add: filed_def x_def p_def)
  note add = add_orphan_ok [OF bc3(2,3) new f, folded bc4_def]
  have ins: "insert_orphan now b bc3 = Some bc4"
    using h bd by (simp add: insert_orphan_def bc4_def x_def p_def Let_def)
  have "AddOrphanBlock limit now b bc = Some bc4"
    unfolding AddOrphanBlock_def bc1(1) bind.simps Let_def bc2_def [symmetric] bc3(1) by (rule ins)
  moreover have "now \<le> ob_Expiration y" if "registered bc4 y" for y
  proof -
    have "AList.update h x (bc_Orphans bc3) = bc_Orphans bc3 @ [(h, x)]"
      using new by (intro update_append_new) (simp add: map_of_eq_None_iff)
    then have "y = x \<or> registered bc3 y" using that by (auto simp: registered_def bc4_def)
    then consider "y = x" | "registered bc1 y" using registered_mono [OF bc3(5)] by blast
    then show ?thesis
    proof cases
      case 2
      then have "registered bc y" by (rule registered_mono [OF bc1(5)])
      then show ?thesis using 2 bc1(6) by (auto simp: registered_def)
    qed (simp add: x_def)
  qed
  ultimately show ?thesis using add bc3(4) by (auto simp: IsKnownOrphan_def bc4_def update_conv')
qed

lemma expire_none: "(\<And>x. registered bc x \<Longrightarrow> now \<le> ob_Expiration x) \<Longrightarrow> expire_orphans now os bc = Some bc"
  by (induction os) (force simp: registered_def)+

lemma older_orphan_keep:
  "(\<And>y. y \<in> set ys \<Longrightarrow> ob_Expiration x \<le> ob_Expiration y) \<Longrightarrow> foldl older_orphan (Some x) ys = Some x"
  by (induction ys) (simp_all add: older_orphan_def not_less [symmetric])

lemma insert_orphan_length:
  assumes "block_hash b = Some h" and "bk_Blockdata b = Some bd" and "map_of (bc_Orphans bc) h = None"
  shows "\<exists>bc'. insert_orphan now b bc = Some bc' \<and> length (bc_Orphans bc') = Suc (length (bc_Orphans bc))"
  using assms update_append_new [of h "bc_Orphans bc"] by (simp add: insert_orphan_def Let_def map_of_eq_None_iff)

text \<open>
  \<^verbatim>\<open>ProcessOrphans\<close> removes orphans without resetting \<^verbatim>\<open>OldestOrphan\<close>. When that one is no longer
  in the pool and the pool is full, the next orphan is added without another being evicted.
\<close>

theorem AddOrphanBlock_exceeds:
  assumes "orphans_ok bc" and "\<forall>x. registered bc x \<longrightarrow> now \<le> ob_Expiration x \<and> ob_Expiration old \<le> ob_Expiration x"
    and "bc_OldestOrphan bc = Some old" and "filed old p ho" and "map_of (bc_Orphans bc) ho = None"
    and "length (bc_Orphans bc) = limit" and "block_hash b = Some h" and "bk_Blockdata b = Some bd"
    and "\<not> IsKnownOrphan bc h"
  shows "\<exists>bc'. AddOrphanBlock limit now b bc = Some bc' \<and> length (bc_Orphans bc') = Suc limit"
proof -
  have expire: "expire_orphans now (map snd (bc_Orphans bc)) bc = Some bc"
    by (rule expire_none) (use assms(2) in blast)
  have oldest: "foldl older_orphan (bc_OldestOrphan bc) (map snd (bc_Orphans bc)) = Some old"
    unfolding assms(3) by (rule older_orphan_keep) (use assms(2) in \<open>auto simp: registered_def\<close>)
  have same: "bc\<lparr>bc_OldestOrphan := Some old\<rparr> = bc" using assms(3) by simp
  have "\<forall>x\<in>set (prev_orphans bc p). \<exists>h. block_hash (ob_Block x) = Some h"
    using orphans_okD(3) [OF assms(1)] by (auto simp: filed_def)
  note drop = drop_orphans_filter [OF this, of ho]
  have "AList.delete ho (bc_Orphans bc) = bc_Orphans bc" using assms(5) by (simp add: map_of_eq_None_iff)
  then obtain bc1 where bc1: "RemoveOrphanBlock old bc = Some bc1" "bc_Orphans bc1 = bc_Orphans bc"
    using assms(4) drop by (auto simp: RemoveOrphanBlock_def filed_def Let_def)
  define bc2 where "bc2 = bc1\<lparr>bc_OldestOrphan := None\<rparr>"
  have evict: "evict_orphan limit bc = Some bc2" using assms(3,6) bc1(1) by (simp add: evict_orphan_def bc2_def)
  have "\<exists>bc'. insert_orphan now b bc2 = Some bc' \<and> length (bc_Orphans bc') = Suc (length (bc_Orphans bc2))"
    by (rule insert_orphan_length [OF assms(7,8)]) (use assms(9) bc1(2) in \<open>simp add: bc2_def IsKnownOrphan_def\<close>)
  then show ?thesis
    unfolding AddOrphanBlock_def expire bind.simps Let_def oldest same evict using bc1(2) assms(6) by (simp add: bc2_def)
qed

end
