(* ===== verification/Chain_Select.thy ===== *)
theory Chain_Select
  imports Blockchain
begin

text \<open>
  Choosing the best chain: the walks that find the two sides of a fork, and when the end of
  the best chain changes.
\<close>

section \<open>Walks in the node tree\<close>

lemma path_up_None [simp]: "path_up h None = Some []"
  by (simp add: path_up.simps)

lemma path_up_Some: "path_up h (Some a) = Some (x # xs) \<longleftrightarrow> x = a \<and> path_up h (bn_Parent (h a)) = Some xs"
  by (subst path_up.simps) (auto split: bind_splits)

lemma path_up_Nil: "path_up h p = Some [] \<longleftrightarrow> p = None"
  by (cases p) (auto simp: path_up.simps [of h "Some _"] split: bind_splits)

lemma path_up_Cons: "path_up h p = Some (x # xs) \<longleftrightarrow> p = Some x \<and> path_up h (bn_Parent (h x)) = Some xs"
  by (cases p) (auto simp: path_up_Some)

definition same_tree :: "(nat \<Rightarrow> BlockNode) \<Rightarrow> (nat \<Rightarrow> BlockNode) \<Rightarrow> bool" where
  "same_tree h h' \<longleftrightarrow> (\<forall>a. bn_Parent (h' a) = bn_Parent (h a) \<and> bn_Hash (h' a) = bn_Hash (h a) \<and>
     bn_WorkSum (h' a) = bn_WorkSum (h a))"

lemma same_tree_refl [simp]: "same_tree h h"
  by (simp add: same_tree_def)

lemma same_tree_trans: "same_tree h h' \<Longrightarrow> same_tree h' h'' \<Longrightarrow> same_tree h h''"
  by (simp add: same_tree_def)

lemma same_tree_path: "same_tree h h' \<Longrightarrow> path_up h p = Some as \<Longrightarrow> path_up h' p = Some as"
  by (induction as arbitrary: p) (auto simp: path_up_Nil path_up_Cons same_tree_def)

lemma same_tree_main: "same_tree (bc_nodes bc) (bc_nodes (upd_node a (\<lambda>n. n\<lparr>bn_InMainChain := b\<rparr>) bc))"
  by (simp add: same_tree_def upd_node_def)

lemma attach_walk_side:
  assumes "path_up h (Some node) = Some (side @ a # rest)" and "\<forall>n\<in>set side. \<not> bn_InMainChain (h n)" and "bn_InMainChain (h a)"
  shows "attach_walk h node acc = Some (a, rev side @ acc)"
  using assms
proof (induction side arbitrary: node acc)
  case Nil
  then show ?case by (subst attach_walk.simps) (simp add: path_up_Some split: option.splits)
next
  case (Cons n side)
  then have n: "n = node" "path_up h (bn_Parent (h node)) = Some (side @ a # rest)" by (simp_all add: path_up_Some)
  then obtain p where p: "bn_Parent (h node) = Some p" by (cases "bn_Parent (h node)") auto
  then show ?case using Cons.IH [of p "node # acc"] Cons.prems n by (subst attach_walk.simps) simp
qed

lemma detach_walk_Some:
  "detach_walk h target (Some a) =
     (if bn_Parent (h a) = None \<or> bn_Hash (h a) = target then Some []
      else do { ns \<leftarrow> detach_walk h target (bn_Parent (h a)); Some (a # ns) })"
  by (subst detach_walk.simps) (simp add: Uint256_CompareTo_sign)

lemma detach_walk_main:
  assumes "path_up h p = Some (main @ a # rest)" and "\<forall>n\<in>set main. bn_Hash (h n) \<noteq> bn_Hash (h a)"
  shows "detach_walk h (bn_Hash (h a)) p = Some main"
  using assms
proof (induction main arbitrary: p)
  case Nil
  then show ?case by (simp add: path_up_Cons detach_walk_Some)
next
  case (Cons n main)
  then have n: "p = Some n" "path_up h (bn_Parent (h n)) = Some (main @ a # rest)" by (simp_all add: path_up_Cons)
  then have "bn_Parent (h n) \<noteq> None" by (cases "bn_Parent (h n)") simp_all
  then show ?case using Cons.IH [OF n(2)] Cons.prems(2) n(1) by (simp add: detach_walk_Some)
qed

lemma attach_walk_last:
  assumes "attach_walk h a acc = Some r"
  shows "\<exists>pre. snd r = pre @ acc"
proof (rule attach_walk.raw_induct [OF _ assms])
  fix f :: "(nat \<Rightarrow> BlockNode) \<Rightarrow> nat \<Rightarrow> nat list \<Rightarrow> (nat \<times> nat list) option" and h a acc r
  assume IH: "\<And>h a acc r. f h a acc = Some r \<Longrightarrow> \<exists>pre. snd r = pre @ acc"
    and run: "(case bn_Parent (h a) of None \<Rightarrow> Some (a, acc)
      | Some p \<Rightarrow> if bn_InMainChain (h a) then Some (a, acc) else f h p (a # acc)) = Some r"
  show "\<exists>pre. snd r = pre @ acc"
  proof (cases "bn_Parent (h a) = None \<or> bn_InMainChain (h a)")
    case True
    then show ?thesis using run by (auto split: option.splits)
  next
    case False
    then obtain p where "f h p (a # acc) = Some r" using run by auto
    then obtain pre where "snd r = pre @ a # acc" using IH by blast
    then show ?thesis by (intro exI [of _ "pre @ [a]"]) simp
  qed
qed

section \<open>Connecting\<close>

lemma nodes_upd [simp]:
  "bc_nodes (AddNodeToIndex a bc) = bc_nodes bc" "bc_nodes (add_dep p a bc) = bc_nodes bc"
  "bc_nodes (upd_node a f bc) = (bc_nodes bc)(a := f (bc_nodes bc a))"
  by (simp_all add: AddNodeToIndex_def add_dep_def upd_node_def)

lemma state_upd [simp]:
  "bc_store (AddNodeToIndex a bc) = bc_store bc" "bc_store (add_dep p a bc) = bc_store bc" "bc_store (upd_node a f bc) = bc_store bc"
  "bc_BestChain (AddNodeToIndex a bc) = bc_BestChain bc" "bc_BestChain (add_dep p a bc) = bc_BestChain bc"
  "bc_BestChain (upd_node a f bc) = bc_BestChain bc" "bc_BlockCache (AddNodeToIndex a bc) = bc_BlockCache bc"
  "bc_BlockCache (add_dep p a bc) = bc_BlockCache bc" "bc_BlockCache (upd_node a f bc) = bc_BlockCache bc"
  "bc_Index (AddNodeToIndex a bc) = (bc_Index bc)(node_hash bc a \<mapsto> a)" "bc_Index (add_dep p a bc) = bc_Index bc"
  "bc_Index (upd_node a f bc) = bc_Index bc" "bc_GenesisHash (AddNodeToIndex a bc) = bc_GenesisHash bc"
  "bc_GenesisHash (add_dep p a bc) = bc_GenesisHash bc" "bc_GenesisHash (upd_node a f bc) = bc_GenesisHash bc"
  by (simp_all add: AddNodeToIndex_def add_dep_def upd_node_def)

lemma set_median_fields:
  "set_median bc = Some bc' \<Longrightarrow> \<exists>t. bc' = bc\<lparr>bc_MedianTimePast := t\<rparr>"
  by (auto simp: set_median_def split: bind_splits)

lemma ConnectBlock_done:
  assumes "ConnectBlock S n b bc = Some (None, bc')"
  shows "bc_BestChain bc' = Some n" "bc_nodes bc' = (bc_nodes bc)(n := (bc_nodes bc n)\<lparr>bn_InMainChain := True\<rparr>)"
    "bc_BlockCache bc' = bc_BlockCache bc" "ls_SaveBlock S b (bc_store bc) = Some (None, bc_store bc')"
    "check_context (ls_env S (bc_store bc)) (bk_Transactions b) = Some True"
    "\<exists>bd. bk_Blockdata b = Some bd \<and> (\<forall>best. bc_BestChain bc = Some best \<longrightarrow> bd_PrevBlockHash bd = node_hash bc best)"
  using assms unfolding ConnectBlock_def Let_def
  by (auto dest!: set_median_fields simp: Uint256_CompareTo_sign split: bind_splits if_splits option.splits)

lemma connect_all_last:
  "connect_all S ns bc = Some (None, bc') \<Longrightarrow> ns \<noteq> [] \<Longrightarrow> bc_BestChain bc' = Some (last ns)"
proof (induction ns arbitrary: bc)
  case (Cons n ns)
  then show ?case
    by (cases "ns = []") (fastforce dest: ConnectBlock_done(1) split: bind_splits option.splits)+
qed simp

lemma attach_ends_at:
  assumes "attach_walk h a [] = Some (anc, ns)" and "bn_Parent (h a) = Some p" and "\<not> bn_InMainChain (h a)"
  shows "ns \<noteq> [] \<and> last ns = a"
proof -
  have "attach_walk h p [a] = Some (anc, ns)" using assms by (subst (asm) attach_walk.simps) simp
  from attach_walk_last [OF this] show ?thesis by auto
qed

lemma Reorganize_best:
  assumes "ReorganizeChain S ds ns bc = Some (None, bc')" and "ns \<noteq> []"
  shows "bc_BestChain bc' = Some (last ns)"
  using assms by (auto simp: ReorganizeChain_def dest: connect_all_last split: if_splits bind_splits option.splits)

text \<open>
  A block that extends the best chain is connected to it. Any other block is kept on a side
  chain, and the best chain and the store change only when the side chain has more work; if
  the block is then reported to be in the main chain, it is its end.
\<close>

theorem ConnectBestChain_choice:
  assumes "ConnectBestChain S node block bc = Some (Inr inMain, bc')"
    and "bc_BestChain bc = Some best" and "node_parent bc node = Some p"
  shows "if inMain
    then bc_BestChain bc' = Some node \<and>
      (node_hash bc p = node_hash bc best \<or> bn_WorkSum (bc_nodes bc best) < bn_WorkSum (bc_nodes bc node))
    else bc_BestChain bc' = Some best \<and> bc_store bc' = bc_store bc \<and>
      node_hash bc p \<noteq> node_hash bc best \<and> bn_WorkSum (bc_nodes bc node) \<le> bn_WorkSum (bc_nodes bc best) \<and>
      bc_BlockCache bc' (node_hash bc node) = Some block \<and> bc_Index bc' (node_hash bc node) = Some node"
proof (cases "node_hash bc p = node_hash bc best")
  case True
  then show ?thesis using assms
    by (auto simp: ConnectBestChain_def Uint256_CompareTo_sign ConnectBlock_done(1) split: bind_splits option.splits)
next
  case False
  define bc1 where "bc1 = upd_node p (\<lambda>n. n\<lparr>bn_Children := bn_Children n @ [node]\<rparr>)
     (upd_node node (\<lambda>n. n\<lparr>bn_InMainChain := False\<rparr>)
       (AddNodeToIndex node (bc\<lparr>bc_BlockCache := (bc_BlockCache bc)(node_hash bc node \<mapsto> block)\<rparr>)))"
  have bc1: "bc_BestChain bc1 = Some best" "bc_store bc1 = bc_store bc" "node_parent bc1 node = Some p"
    "\<not> bn_InMainChain (bc_nodes bc1 node)" "bn_WorkSum (bc_nodes bc1 a) = bn_WorkSum (bc_nodes bc a)"
    "bc_BlockCache bc1 (node_hash bc node) = Some block" "bc_Index bc1 (node_hash bc node) = Some node" for a
    using assms(2,3) by (auto simp: bc1_def)
  have run: "ConnectBestChain S node block bc =
      (if bn_WorkSum (bc_nodes bc node) \<le> bn_WorkSum (bc_nodes bc best) then Some (Inr False, bc1)
       else do {
         (detachNodes, attachNodes) \<leftarrow> GetReorganizeNodes node bc1;
         (err, bc) \<leftarrow> ReorganizeChain S detachNodes attachNodes bc1;
         Some (case err of Some e \<Rightarrow> (Inl e, bc) | None \<Rightarrow> (Inr True, bc)) })"
    using assms(2,3) False bc1(1,5)
    by (simp add: ConnectBestChain_def Let_def Uint256_CompareTo_sign bc1_def)
  show ?thesis
  proof (cases "bn_WorkSum (bc_nodes bc node) \<le> bn_WorkSum (bc_nodes bc best)")
    case True
    then show ?thesis using assms(1) False bc1 unfolding run by auto
  next
    case less: False
    then obtain ds ns bc2 where "GetReorganizeNodes node bc1 = Some (ds, ns)" "ReorganizeChain S ds ns bc1 = Some (None, bc2)"
        "inMain" "bc' = bc2"
      using assms(1) unfolding run by (auto split: bind_splits option.splits)
    then show ?thesis
      using less attach_ends_at [of "bc_nodes bc1" node, OF _ bc1(3,4)] Reorganize_best
      by (auto simp: GetReorganizeNodes_def split: bind_splits)
  qed
qed

end
