(* ===== verification/Unspent_Index.thy ===== *)
theory Unspent_Index
  imports Chain_Store "HOL-Library.Multiset"
begin

text \<open>
  What both unspent indices of the store have in common: a table from keys to duplicate-free
  lists in the database (\<open>base\<close>), a Go map \<open>m\<close> of the entries a block touches, and the set
  \<open>R\<close> of pairs that the two represent together. Adding and removing an entry of the Go
  map add and remove a pair, whatever the order in the lists.
\<close>

section \<open>Removal by swapping\<close>

lemma first_index_Some:
  "first_index P xs = Some k \<Longrightarrow> k < length xs \<and> P (xs ! k)"
  by (induction xs arbitrary: k) (auto split: if_splits)

lemma first_index_None: "first_index P xs = None \<longleftrightarrow> (\<forall>x\<in>set xs. \<not> P x)"
  by (induction xs) auto

lemma mset_butlast: "xs \<noteq> [] \<Longrightarrow> mset (butlast xs) = mset xs - {#last xs#}"
  by (metis add_diff_cancel_right' append_butlast_last_id mset.simps(1) mset.simps(2) mset_append)

lemma last_list_update: "xs \<noteq> [] \<Longrightarrow> last (xs[k := last xs]) = last xs"
  by (cases "k = length xs - 1") (auto simp: last_conv_nth nth_list_update)

lemma swap_remove_mset:
  assumes "swap_remove P xs = Some ys"
  shows "\<exists>x. x \<in> set xs \<and> P x \<and> mset ys = mset xs - {#x#}"
proof -
  obtain k where k: "first_index P xs = Some k" and ys: "ys = butlast (xs[k := last xs])"
    using assms by (auto simp: swap_remove_def)
  have kx: "k < length xs" "P (xs ! k)" using first_index_Some [OF k] by auto
  then have ne: "xs \<noteq> []" "xs[k := last xs] \<noteq> []" by auto
  have "mset ys = add_mset (last xs) (mset xs - {#xs ! k#}) - {#last xs#}"
    unfolding ys mset_butlast [OF ne(2)] last_list_update [OF ne(1)] by (simp add: mset_update kx)
  then have "mset ys = mset xs - {#xs ! k#}" by simp
  then show ?thesis using kx by (metis nth_mem)
qed

lemma swap_remove_exists: "x \<in> set xs \<Longrightarrow> P x \<Longrightarrow> \<exists>ys. swap_remove P xs = Some ys"
  using first_index_None [of P xs] by (cases "first_index P xs") (auto simp: swap_remove_def)

lemma swap_remove_only:
  assumes "distinct xs" and "x \<in> set xs" and "\<And>y. y \<in> set xs \<Longrightarrow> P y \<longleftrightarrow> y = x"
  shows "\<exists>ys. swap_remove P xs = Some ys \<and> distinct ys \<and> set ys = set xs - {x}"
proof -
  obtain ys where ys: "swap_remove P xs = Some ys"
    using swap_remove_exists [of x xs P] assms(2,3) by auto
  obtain z where "z \<in> set xs" "P z" and m: "mset ys = mset xs - {#z#}"
    using swap_remove_mset [OF ys] by blast
  then have m: "mset ys = mset (remove1 x xs)" using assms(3) by auto
  then have "distinct ys" "set ys = set (remove1 x xs)"
    using assms(1) distinct_remove1 by (metis mset_eq_imp_distinct_iff, metis mset_eq_setD)
  then show ?thesis using ys assms(1) by auto
qed

section \<open>A database table behind a Go map\<close>

definition eff :: "('k \<times> 'e list) list \<Rightarrow> ('k \<Rightarrow> 'e list) \<Rightarrow> 'k \<Rightarrow> 'e list" where
  "eff m base k = (case map_of m k of Some xs \<Rightarrow> xs | None \<Rightarrow> base k)"

definition rep :: "('k \<times> 'e list) list \<Rightarrow> ('k \<Rightarrow> 'e list) \<Rightarrow> ('k \<times> 'e) set \<Rightarrow> bool" where
  "rep m base R \<longleftrightarrow> distinct (map fst m) \<and>
     (\<forall>k. distinct (eff m base k) \<and> set (eff m base k) = {e. (k, e) \<in> R})"

lemma eff_update [simp]:
  "eff (AList.update k xs m) base k' = (if k' = k then xs else eff m base k')"
  by (simp add: eff_def update_conv')

lemma eff_Nil [simp]: "eff [] base = base"
  by (simp add: eff_def fun_eq_iff)

lemma rep_distinct: "rep m base R \<Longrightarrow> distinct (eff m base k)"
  and rep_set: "rep m base R \<Longrightarrow> set (eff m base k) = {e. (k, e) \<in> R}"
  and rep_keys: "rep m base R \<Longrightarrow> distinct (map fst m)"
  by (simp_all add: rep_def)

lemma rep_add:
  assumes "rep m base R" and "(k, e) \<notin> R"
  shows "rep (AList.update k (eff m base k @ [e]) m) base (insert (k, e) R)"
  using assms by (auto simp: rep_def distinct_update)

lemma rep_remove:
  assumes "rep m base R" and "(k, e) \<in> R" and "\<And>e'. (k, e') \<in> R \<Longrightarrow> P e' \<longleftrightarrow> e' = e"
  shows "\<exists>ys. swap_remove P (eff m base k) = Some ys \<and> rep (AList.update k ys m) base (R - {(k, e)})"
proof -
  have "e \<in> set (eff m base k)" "\<And>y. y \<in> set (eff m base k) \<Longrightarrow> P y \<longleftrightarrow> y = e"
    using assms by (auto simp: rep_set)
  from swap_remove_only [OF rep_distinct [OF assms(1)] this] obtain ys
    where ys: "swap_remove P (eff m base k) = Some ys" "distinct ys" "set ys = set (eff m base k) - {e}"
    by blast
  have "rep (AList.update k ys m) base (R - {(k, e)})"
    using assms(1) ys(2,3) by (auto simp: rep_def distinct_update)
  with ys(1) show ?thesis by blast
qed

lemma rep_drop:
  assumes "rep m base R" and "(k, e) \<in> R" and "eff m base k = xs @ e # ys"
  shows "rep (AList.update k (xs @ ys) m) base (R - {(k, e)})"
proof -
  have "distinct (xs @ e # ys)" "set (xs @ e # ys) = {e. (k, e) \<in> R}"
    using rep_distinct [OF assms(1), of k] rep_set [OF assms(1), of k] assms(3) by simp_all
  then have "distinct (xs @ ys)" "set (xs @ ys) = {e'. (k, e') \<in> R - {(k, e)}}" by auto
  with assms(1) show ?thesis by (auto simp: rep_def distinct_update)
qed

section \<open>Tables in the database\<close>

fun op_key :: "batch_op \<Rightarrow> byte list" where
  "op_key (BPut k v) = k"
| "op_key (BDelete k) = k"

fun apply_op :: "(byte list \<Rightarrow> byte list option) \<Rightarrow> batch_op \<Rightarrow> byte list \<Rightarrow> byte list option" where
  "apply_op v (BPut k x) = v(k \<mapsto> x)"
| "apply_op v (BDelete k) = v(k := None)"

definition apply_batch :: "(byte list \<Rightarrow> byte list option) \<Rightarrow> batch_op list \<Rightarrow> byte list \<Rightarrow> byte list option" where
  "apply_batch v ops = foldl apply_op v ops"

lemma apply_batch_append [simp]: "apply_batch v (xs @ ys) = apply_batch (apply_batch v xs) ys"
  by (simp add: apply_batch_def)

lemma apply_batch_Nil [simp]: "apply_batch v [] = v"
  by (simp add: apply_batch_def)

lemma apply_batch_Cons: "apply_batch v (op # ops) = apply_batch (apply_op v op) ops"
  by (simp add: apply_batch_def)

lemma apply_op_other: "op_key op \<noteq> k \<Longrightarrow> apply_op v op k = v k"
  by (cases op) auto

lemma apply_batch_other: "k \<notin> op_key ` set ops \<Longrightarrow> apply_batch v ops k = v k"
  by (induction ops arbitrary: v) (auto simp: apply_batch_Cons apply_op_other)

definition put_op :: "('k \<Rightarrow> byte list) \<Rightarrow> ('e list \<Rightarrow> byte list) \<Rightarrow> 'k \<times> 'e list \<Rightarrow> batch_op" where
  "put_op key enc = (\<lambda>(k, xs). if xs = [] then BDelete (key k) else BPut (key k) (enc xs))"

lemma op_key_put_op [simp]: "op_key (put_op key enc kv) = key (fst kv)"
  by (simp add: put_op_def split: prod.splits)

definition table :: "('k \<Rightarrow> byte list) \<Rightarrow> ('e list \<Rightarrow> byte list) \<Rightarrow> (byte list \<Rightarrow> byte list option) \<Rightarrow> ('k \<Rightarrow> 'e list) \<Rightarrow> bool" where
  "table key enc v base \<longleftrightarrow> (\<forall>k. v (key k) = (if base k = [] then None else Some (enc (base k))))"

lemma apply_put_ops:
  assumes "inj key" and "distinct (map fst m)"
  shows "apply_batch v (map (put_op key enc) m) (key k) =
    (case map_of m k of Some xs \<Rightarrow> if xs = [] then None else Some (enc xs) | None \<Rightarrow> v (key k))"
  using assms(2)
proof (induction m arbitrary: v)
  case (Cons kv m)
  obtain k0 xs where kv: "kv = (k0, xs)" by (cases kv)
  have "map_of m k0 = None" using Cons.prems kv by (simp add: map_of_eq_None_iff)
  then show ?case using Cons.IH Cons.prems assms(1) kv
    by (auto simp: apply_batch_Cons put_op_def inj_eq split: option.splits)
qed simp

lemma table_put:
  assumes "inj key" and "table key enc v base" and "distinct (map fst m)"
  shows "table key enc (apply_batch v (map (put_op key enc) m)) (eff m base)"
  using assms(2) by (auto simp: table_def apply_put_ops [OF assms(1,3)] eff_def split: option.splits)

lemma table_other:
  assumes "table key enc v base" and "\<And>k op. op \<in> set ops \<Longrightarrow> op_key op \<noteq> key k"
  shows "table key enc (apply_batch v ops) base"
proof -
  have "apply_batch v ops (key k) = v (key k)" for k
    by (rule apply_batch_other) (metis assms(2) imageE)
  then show ?thesis using assms(1) by (simp add: table_def)
qed

end
