(* ===== verification/Store_Refine.thy ===== *)
theory Store_Refine
  imports Unspent_Index
begin

text \<open>
  The store refines an abstract ledger: the transactions by hash, each with its height, and
  the set of unspent outpoints. \<open>represents\<close> says which database contents stand for an
  abstract ledger; persisting a block adds its transactions and outputs and removes the
  outputs it spends, and rolling the block back restores the ledger before it.
\<close>

section \<open>The database\<close>

abbreviation (input) ErrDBNotFound :: goerr where "ErrDBNotFound \<equiv> ErrNew ''leveldb: not found''"

text \<open>
  What the store relies on: \<^verbatim>\<open>Get\<close> returns the last value put under a key, or the error
  \<^verbatim>\<open>ErrNotFound\<close>, and \<^verbatim>\<open>Write\<close> applies the operations of a batch in order.
\<close>

definition leveldb_ok :: "'d leveldb \<Rightarrow> ('d \<Rightarrow> byte list \<Rightarrow> byte list option) \<Rightarrow> bool" where
  "leveldb_ok L view \<longleftrightarrow>
     (\<forall>d k. ldb_Get L d k = (case view d k of Some v \<Rightarrow> (v, None) | None \<Rightarrow> ([], Some ErrDBNotFound))) \<and>
     (\<forall>d ops. fst (ldb_Write L d ops) = None \<and> view (snd (ldb_Write L d ops)) = apply_batch (view d) ops)"

definition map_db :: "(byte list \<Rightarrow> byte list option) leveldb" where
  "map_db =
     \<lparr>ldb_Get = (\<lambda>d k. case d k of Some v \<Rightarrow> (v, None) | None \<Rightarrow> ([], Some ErrDBNotFound)),
      ldb_Put = (\<lambda>d k v. (None, d(k \<mapsto> v))),
      ldb_Write = (\<lambda>d ops. (None, apply_batch d ops)),
      ldb_NewIterator = (\<lambda>d p. [])\<rparr>"

lemma map_db_ok: "leveldb_ok map_db (\<lambda>d. d)"
  by (simp add: leveldb_ok_def map_db_def)

lemma store_Get_ok:
  "leveldb_ok L view \<Longrightarrow> store_Get L cs k = (case view (cs_db cs) k of Some v \<Rightarrow> (v, None) | None \<Rightarrow> ([], Some ErrDBNotFound))"
  by (simp add: store_Get_def leveldb_ok_def)

lemma BatchCommit_ok:
  "leveldb_ok L view \<Longrightarrow> cs_batch cs = Some ops \<Longrightarrow> view (cs_db (snd (BatchCommit L cs))) = apply_batch (view (cs_db cs)) ops"
  by (auto simp: leveldb_ok_def BatchCommit_def split: prod.splits) (metis snd_conv)

lemma batch_add_ok:
  "cs_batch cs = Some ops \<Longrightarrow> BatchPut k v cs = Some (cs\<lparr>cs_batch := Some (ops @ [BPut k v])\<rparr>)"
  "cs_batch cs = Some ops \<Longrightarrow> BatchDelete k cs = Some (cs\<lparr>cs_batch := Some (ops @ [BDelete k])\<rparr>)"
  by (simp_all add: BatchPut_def BatchDelete_def batch_add_def)

section \<open>Transactions in memory and in the store\<close>

text \<open>
  A transaction in memory may carry its cached hash and the fees that the transaction pool has
  computed; \<open>plain\<close> is what the bytes keep of it. The hash depends only on the fields that are serialized.
\<close>

definition plain :: "Transaction \<Rightarrow> Transaction" where
  "plain t = wire_form t"

definition tx_id :: "Transaction \<Rightarrow> Uint256" where
  "tx_id t = txid (plain t)"

definition live_tx :: "Transaction \<Rightarrow> bool" where
  "live_tx t \<longleftrightarrow> transaction_ok (plain t) \<and> (tx_hash t = None \<or> tx_hash t = Some (tx_id t))"

lemma plain_simps [simp]:
  "tx_Outputs (plain t) = tx_Outputs t" "tx_UTXOInputs (plain t) = tx_UTXOInputs t" "tx_TxType (plain t) = tx_TxType t"
  "tx_Payload (plain t) = tx_Payload t" "tx_hash (plain t) = None" "plain (plain t) = plain t"
  "tx_Programs (plain t) = tx_Programs t"
  by (simp_all add: plain_def) (simp_all add: wire_form_def)

lemma plain_SerializeUnsigned: "SerializeUnsigned (plain t) = SerializeUnsigned t"
  by (simp add: plain_def SerializeUnsigned_wire_form)

lemma plain_Serialize: "Transaction_Serialize (plain t) = Transaction_Serialize t"
  unfolding Transaction_Serialize_def plain_SerializeUnsigned plain_simps by (rule refl)


lemma live_Hash:
  assumes "live_tx t"
  shows "\<exists>t'. Transaction_Hash t = Some (tx_id t, t')"
proof (cases "tx_hash t")
  case None
  have "Transaction_Hash (plain t) = Some (tx_id t, hashed (plain t))"
    using assms Transaction_Hash_ok by (simp add: live_tx_def tx_id_def)
  then show ?thesis using None
    by (auto simp: Transaction_Hash_def GetHashData_def plain_SerializeUnsigned Let_def split: bind_splits prod.splits)
next
  case (Some h)
  with assms show ?thesis by (simp add: live_tx_def Transaction_Hash_def)
qed

lemma live_Serialize: "live_tx t \<Longrightarrow> Transaction_Serialize t = Some (tx_wire (plain t), None)"
  using Transaction_codec [of "plain t" BytesBuffer "[]"] by (simp add: live_tx_def plain_Serialize)

text \<open>
  At the very end of a \<^verbatim>\<open>bytes.Reader\<close> a program with an empty code reports an end of file,
  which is ignored and leaves the right program: a stored transaction is read back too.
\<close>

lemma VarUint_front: "ReadVarUint 0 (Rd k (WriteVarUint v @ rest)) = Some (v, None, Rd k rest)"
  by (rule VarUint_bounded) simp

lemma Program_end: "program_ok p \<Longrightarrow> \<exists>e. Program_Deserialize new_Program (Rd k (Program_Serialize p)) = Some (p, e, Rd k [])"
proof (cases "pg_Code p = []")
  case True
  assume ok: "program_ok p"
  have z: "ReadVarUint 0 (Rd k (WriteVarUint 0 @ [])) = Some (0, None, Rd k [])"
    by (rule VarUint_front)
  have "roomy k (WriteVarUint 0)" by (simp add: roomy_def)
  then show ?thesis using True ok varbytes.roundtrip [of "pg_Parameter p" k "WriteVarUint 0"] z
    by (cases k) (simp_all add: Program_Serialize_def Program_Deserialize_def WriteVarBytes_def [of "[]"] program_ok_def
        rd_run ReadVarBytes_def [abs_def] byteXReader_def go_make_def rd_Read.simps new_Program_def Let_def)
next
  case False
  assume ok: "program_ok p"
  have "roomy k (WriteVarBytes (pg_Code p))" by (simp add: roomy_def WriteVarBytes_def)
  then have par: "ReadVarBytes (Rd k (WriteVarBytes (pg_Parameter p) @ WriteVarBytes (pg_Code p)))
      = Some (pg_Parameter p, None, Rd k (WriteVarBytes (pg_Code p)))"
    using ok varbytes.roundtrip by (simp add: program_ok_def)
  have "ReadVarUint 0 (Rd k (WriteVarBytes (pg_Code p))) = Some (word_of_nat (length (pg_Code p)), None, Rd k (pg_Code p))"
    by (simp add: WriteVarBytes_def VarUint_front)
  moreover have "byteXReader (word_of_nat (length (pg_Code p))) (Rd k (pg_Code p)) = Some (pg_Code p, None, Rd k [])"
    using ok False by (simp add: byteXReader_def unat_length_ok program_ok_def go_make_def bytes_ok_def rd_Read.simps)
  ultimately have "ReadVarBytes (Rd k (WriteVarBytes (pg_Code p))) = Some (pg_Code p, None, Rd k [])"
    by (simp add: ReadVarBytes_def rd_run)
  with par show ?thesis by (simp add: Program_Serialize_def Program_Deserialize_def rd_run Let_def new_Program_def)
qed

lemma programs_end:
  "list_all program_ok ps \<Longrightarrow>
     read_unchecked (length ps) (Program_Deserialize new_Program) (Rd k (concat (map Program_Serialize ps))) = Some (ps, None, Rd k [])"
proof (induction ps)
  case (Cons p ps)
  show ?case
  proof (cases "ps = []")
    case True
    then show ?thesis using Program_end [of p k] Cons.prems by (auto simp: rd_ign_def)
  next
    case False
    then have "roomy k (concat (map Program_Serialize ps))"
      by (cases ps) (auto simp: roomy_def Program_Serialize_def WriteVarBytes_def)
    then show ?thesis using Cons prog.roundtrip by (simp add: rd_ign_def)
  qed
qed simp

lemma Transaction_stored:
  assumes "transaction_ok tx"
  shows "Transaction_Deserialize new_Transaction (Rd k (tx_wire tx)) = Some (tx, None, Rd k [])"
proof -
  obtain bs where bs: "SerializeUnsigned tx = Some (bs, None)"
    and rt: "\<And>k rest. DeserializeUnsigned new_Transaction (Rd k (bs @ rest)) = Some (unsigned tx, None, Rd k rest)"
    using unsigned_roundtrip [OF assms] by blast
  define n where "n = (word_of_nat (length (tx_Programs tx)) :: u64)"
  have progs: "list_all program_ok (tx_Programs tx)" and short: "length (tx_Programs tx) < 2 ^ 63"
    using assms by (simp_all add: transaction_ok_def)
  have un: "unat n = length (tx_Programs tx)"
    unfolding n_def by (rule unat_len64) (use short in simp)
  have "uint n < 2 ^ 63" using un short by (simp add: uint_nat)
  then have sn: "nat (sint n) = length (tx_Programs tx)"
    using un by (simp add: sint_uint uint_nat signed_take_bit_int_eq_self)
  have zero: "0 < n \<longleftrightarrow> tx_Programs tx \<noteq> []" using un by (simp add: word_less_nat_alt)
  have same: "(unsigned tx)\<lparr>tx_Programs := tx_Programs tx\<rparr> = tx" "tx_Programs tx = [] \<Longrightarrow> unsigned tx = tx"
    by (simp_all add: unsigned_def)
  have "Transaction_Serialize tx = Some (bs @ WriteVarUint n @ concat (map Program_Serialize (tx_Programs tx)), None)"
    by (simp add: Transaction_Serialize_def bs n_def)
  then show ?thesis
    by (simp add: tx_wire_def Transaction_Deserialize_def rd_run rt field_rt sn zero programs_end [OF progs] same)
qed

section \<open>The abstract ledger\<close>

record ledger_abs =
  ab_tx :: "Uint256 \<Rightarrow> (Transaction \<times> u32) option"
  ab_utxo :: "(Uint256 \<times> u16) set"

text \<open>The entry that the per-owner index keeps for an unspent outpoint.\<close>

definition ent :: "(Uint256 \<Rightarrow> (Transaction \<times> u32) option) \<Rightarrow> Uint256 \<times> u16 \<Rightarrow> utxo_id \<times> UTXOUnspent" where
  "ent T = (\<lambda>(h, i). case the (T h) of (t, height) \<Rightarrow>
     let out = tx_Outputs t ! unat i
     in ((to_ProgramHash out, to_AssetID out, height), \<lparr>uu_Txid = h, uu_Index = ucast i, uu_Value = to_Value out\<rparr>))"

definition enc_unspents :: "UTXOUnspent list \<Rightarrow> byte list" where
  "enc_unspents us = WriteVarUint (word_of_nat (length us)) @ concat (map UTXOUnspent_Serialize us)"

definition txs_stored :: "(byte list \<Rightarrow> byte list option) \<Rightarrow> (Uint256 \<Rightarrow> (Transaction \<times> u32) option) \<Rightarrow> bool" where
  "txs_stored v T \<longleftrightarrow>
     (\<forall>h. v (hash_key DATA_Transaction h) = map_option (\<lambda>(t, height). WriteUint32 height @ tx_wire t) (T h)) \<and>
     (\<forall>h t height. T h = Some (t, height) \<longrightarrow> transaction_ok t \<and> txid t = h)"

definition represents :: "(byte list \<Rightarrow> byte list option) \<Rightarrow> ledger_abs \<Rightarrow> bool" where
  "represents v A \<longleftrightarrow> txs_stored v (ab_tx A) \<and>
     (\<forall>h i. (h, i) \<in> ab_utxo A \<longrightarrow> (\<exists>t height. ab_tx A h = Some (t, height) \<and> unat i < length (tx_Outputs t))) \<and>
     (\<exists>base. table (hash_key IX_Unspent) ToByteArray v base \<and> rep [] base (ab_utxo A)) \<and>
     (\<exists>base. table utxo_key enc_unspents v base \<and> rep [] base (ent (ab_tx A) ` ab_utxo A))"

text \<open>The lists of the per-owner index are short enough to be read.\<close>

definition small :: "ledger_abs \<Rightarrow> bool" where
  "small A \<longleftrightarrow> (\<forall>k. 8 * card {e. (k, e) \<in> ent (ab_tx A) ` ab_utxo A} \<le> maxAlloc)"

lemma hash_key_inj: "hash_key p h = hash_key q h' \<longleftrightarrow> p = q \<and> h = h'"
  by (simp add: hash_key_def Uint256_Serialize_def)

lemma inj_hash_key: "inj (hash_key p)"
  by (simp add: inj_def hash_key_inj)

lemma inj_utxo_key: "inj utxo_key"
proof (rule injI)
  fix x y assume "utxo_key x = utxo_key y"
  moreover obtain ph a h ph' a' h' where "x = (ph, a, h)" "y = (ph', a', h')" by (metis prod.exhaust)
  moreover have "WriteUint32 h = WriteUint32 h' \<Longrightarrow> h = h'" for h h'
    using uint32.roundtrip [of BytesBuffer h "[]"] uint32.roundtrip [of BytesBuffer h' "[]"] by simp
  ultimately show "x = y" by (auto simp: append_eq_append_conv)
qed

lemma ucast_u16_inj: "(ucast (i :: u16) :: u32) = ucast j \<longleftrightarrow> i = j"
proof
  assume eq: "(ucast i :: u32) = ucast j"
  have "unat (ucast w :: u32) = unat w" for w :: u16
  proof (rule unat_ucast_small)
    have "unat w < 2 ^ LENGTH(16)" by (rule unsigned_less)
    then show "unat w < 2 ^ LENGTH(32)" by simp
  qed
  with eq have "unat i = unat j" by metis
  then show "i = j" by (rule unsigned_word_eqI)
qed simp

lemma ent_snd: "uu_Txid (snd (ent T x)) = fst x" "uu_Index (snd (ent T x)) = ucast (snd x)"
  by (simp_all add: ent_def Let_def split: prod.splits)

lemma ent_inj: "ent T x = ent T y \<Longrightarrow> x = y"
  using ent_snd [of T x] ent_snd [of T y] by (metis prod.expand ucast_u16_inj)

lemma ent_Some:
  "T h = Some (t, height) \<Longrightarrow> ent T (h, i) =
     (let out = tx_Outputs t ! unat i
      in ((to_ProgramHash out, to_AssetID out, height), \<lparr>uu_Txid = h, uu_Index = ucast i, uu_Value = to_Value out\<rparr>))"
  by (simp add: ent_def)

section \<open>Reading\<close>

lemma GetTransaction_ok:
  assumes "leveldb_ok L view" and "txs_stored (view (cs_db cs)) T"
  shows "GetTransaction L cs h = Some (case T h of None \<Rightarrow> Inl ErrDBNotFound | Some (t, height) \<Rightarrow> Inr (t, height))"
proof (cases "T h")
  case None
  then show ?thesis using assms by (simp add: GetTransaction_def store_Get_ok txs_stored_def)
next
  case (Some p)
  obtain t height where p: "p = (t, height)" by (cases p)
  have "Transaction_Deserialize new_Transaction (Rd BytesReader (tx_wire t)) = Some (t, None, Rd BytesReader [])"
    by (rule Transaction_stored) (use assms(2) Some p in \<open>auto simp: txs_stored_def\<close>)
  then show ?thesis using assms Some p
    by (simp add: GetTransaction_def store_Get_ok txs_stored_def uint32.roundtrip)
qed

lemma stored_Hash: "txs_stored v T \<Longrightarrow> T h = Some (t, height) \<Longrightarrow> Transaction_Hash t = Some (h, hashed t)"
  using Transaction_Hash_ok [of t] by (auto simp: txs_stored_def)

lemma unspent_Get:
  assumes "leveldb_ok L view" and "table (hash_key IX_Unspent) ToByteArray (view (cs_db cs)) base"
  shows "store_Get L cs (hash_key IX_Unspent h) =
    (if base h = [] then ([], Some ErrDBNotFound) else (ToByteArray (base h), None))"
  using assms by (simp add: store_Get_ok table_def)

lemma read_unspent_ptrs:
  "read_fill None (length us) (rd_ptr (UTXOUnspent_Deserialize z)) (Rd k (concat (map UTXOUnspent_Serialize us)))
     = Some (map Some us, None, Rd k [])"
  by (induction us) (simp_all add: rd_run rd_ptr_def unspent.roundtrip)

lemma read_unspents_ok: "8 * length us \<le> maxAlloc \<Longrightarrow> read_unspents (enc_unspents us) = Some (Inr us)"
proof -
  assume s: "8 * length us \<le> maxAlloc"
  have "unat (word_of_nat (length us) :: u64) = length us"
    by (rule unat_of_nat_small) (use s in \<open>simp add: maxAlloc_def\<close>)
  then show ?thesis using s
    by (simp add: read_unspents_def enc_unspents_def VarUint_front read_make_def go_make_def read_unspent_ptrs o_def)
qed

lemma GetUnspentElement_ok:
  assumes "leveldb_ok L view" and "table utxo_key enc_unspents (view (cs_db cs)) base" and "8 * length (base (p, a, h)) \<le> maxAlloc"
  shows "GetUnspentElementFromProgramHash L cs p a h =
    Some (if base (p, a, h) = [] then Inl ErrDBNotFound else Inr (base (p, a, h)))"
  using assms
  by (simp add: GetUnspentElementFromProgramHash_def store_Get_ok table_def read_unspents_ok del: utxo_key.simps)

section \<open>The index of a block's transactions\<close>

definition out_set :: "Uint256 \<Rightarrow> nat \<Rightarrow> nat \<Rightarrow> (Uint256 \<times> u16) set" where
  "out_set h n len = (\<lambda>i. (h, word_of_nat i)) ` {n..<n + len}"

lemma out_set_0 [simp]: "out_set h n 0 = {}"
  by (simp add: out_set_def)

lemma out_set_Suc: "out_set h n (Suc len) = insert (h, word_of_nat n) (out_set h (Suc n) len)"
proof -
  have "{n..<n + Suc len} = insert n {Suc n..<Suc n + len}" by auto
  then show ?thesis by (simp add: out_set_def)
qed

lemma word16_inj: "i < 65536 \<Longrightarrow> j < 65536 \<Longrightarrow> (word_of_nat i :: u16) = word_of_nat j \<Longrightarrow> i = j"
  by (metis unat_of_nat_small [where 'a = 16, simplified])

lemma out_set_fresh: "Suc n + len \<le> 65536 \<Longrightarrow> (h, word_of_nat n) \<notin> out_set h (Suc n) len"
  by (auto simp: out_set_def dest: word16_inj [rotated 2])

lemma unspend_outputs_rep:
  assumes "rep m base U" and "base h = []" and "U \<inter> out_set h n (length outs) = {}" and "n + length outs \<le> 65536"
  shows "rep (unspend_outputs h n outs m) base (U \<union> out_set h n (length outs))"
  using assms
proof (induction outs arbitrary: n m U)
  case (Cons out outs)
  have e: "(case map_of m h of None \<Rightarrow> [] | Some xs \<Rightarrow> xs) = eff m base h"
    using Cons.prems(2) by (simp add: eff_def split: option.splits)
  have new: "(h, word_of_nat n) \<notin> U" using Cons.prems(3) by (auto simp: out_set_Suc)
  have "rep (unspend_outputs h (Suc n) outs (AList.update h (eff m base h @ [word_of_nat n]) m)) base
      (insert (h, word_of_nat n) U \<union> out_set h (Suc n) (length outs))"
    by (rule Cons.IH [OF rep_add [OF Cons.prems(1) new] Cons.prems(2)])
       (use Cons.prems(3,4) out_set_fresh [of n "length outs" h] in \<open>auto simp: out_set_Suc\<close>)
  then show ?case by (simp add: e out_set_Suc)
qed simp

lemma spend_inputs_rep:
  assumes "leveldb_ok L view" and "table (hash_key IX_Unspent) ToByteArray (view (cs_db cs)) base"
    and "rep m base U" and "distinct (map outpoint us)" and "outpoint ` set us \<subseteq> U"
  shows "\<exists>m'. spend_inputs L cs us m = Inr m' \<and> rep m' base (U - outpoint ` set us)"
  using assms(3-5)
proof (induction us arbitrary: m U)
  case (Cons u us)
  define h i where "h = ui_ReferTxID u" and "i = ui_ReferTxOutputIndex u"
  have hi: "outpoint u = (h, i)" by (simp add: outpoint_def h_def i_def)
  then have mem: "(h, i) \<in> U" using Cons.prems(3) by simp
  obtain ys where ys: "swap_remove (\<lambda>j. j = i) (eff m base h) = Some ys"
    and rep: "rep (AList.update h ys m) base (U - {(h, i)})"
    using rep_remove [OF Cons.prems(1) mem, of "\<lambda>j. j = i"] by auto
  have "eff m base h \<noteq> []" using rep_set [OF Cons.prems(1), of h] mem by auto
  then have load: "(case map_of m h of
              Some xs \<Rightarrow> Inr xs
            | None \<Rightarrow>
                (case store_Get L cs (hash_key IX_Unspent h) of
                   (_, Some err) \<Rightarrow> Inl err
                 | (unspentValue, None) \<Rightarrow>
                     (case GetUint16Array (Some unspentValue) of
                        (_, Some err) \<Rightarrow> Inl err
                      | (None, None) \<Rightarrow> Inr []
                      | (Some xs, None) \<Rightarrow> Inr xs))) = Inr (eff m base h)"
    by (auto simp: eff_def unspent_Get [OF assms(1,2)] GetUint16Array_ToByteArray split: option.splits)
  have "\<exists>m'. spend_inputs L cs us (AList.update h ys m) = Inr m' \<and> rep m' base (U - {(h, i)} - outpoint ` set us)"
    by (rule Cons.IH [OF rep]) (use Cons.prems(2,3) in \<open>auto simp: hi [symmetric]\<close>)
  moreover have "U - {(h, i)} - outpoint ` set us = U - outpoint ` set (u # us)"
    by (auto simp: hi)
  ultimately show ?case by (simp add: load [unfolded h_def] ys [unfolded h_def i_def] h_def)
qed simp

section \<open>The index over a whole block\<close>

text \<open>Registrations are not indexed; a coinbase creates outputs but spends none.\<close>

definition indexed :: "Transaction \<Rightarrow> bool" where
  "indexed t \<longleftrightarrow> tx_TxType t \<noteq> RegisterAsset"

definition spends :: "Transaction \<Rightarrow> bool" where
  "spends t \<longleftrightarrow> indexed t \<and> \<not> IsCoinBaseTx t"

definition created :: "Transaction list \<Rightarrow> (Uint256 \<times> u16) set" where
  "created ts = (\<Union>t \<in> set (filter indexed ts). out_set (tx_id t) 0 (length (tx_Outputs t)))"

definition spent :: "Transaction list \<Rightarrow> (Uint256 \<times> u16) list" where
  "spent ts = concat (map (\<lambda>t. map outpoint (tx_UTXOInputs t)) (filter spends ts))"

lemma created_Nil [simp]: "created [] = {}"
  and spent_Nil [simp]: "spent [] = []"
  by (simp_all add: created_def spent_def)

lemma created_one: "created [t] = (if indexed t then out_set (tx_id t) 0 (length (tx_Outputs t)) else {})"
  and spent_one: "spent [t] = (if spends t then map outpoint (tx_UTXOInputs t) else [])"
  by (simp_all add: created_def spent_def)

lemma created_Cons: "created (t # ts) = created [t] \<union> created ts"
  and spent_Cons: "spent (t # ts) = spent [t] @ spent ts"
  by (simp_all add: created_def spent_def)

lemma created_ids: "(h, i) \<in> created ts \<Longrightarrow> h \<in> tx_id ` set ts"
  by (auto simp: created_def out_set_def)

definition fresh :: "(Uint256 \<times> u16) set \<Rightarrow> Transaction list \<Rightarrow> bool" where
  "fresh U ts \<longleftrightarrow> list_all live_tx ts \<and> distinct (map tx_id ts) \<and>
     (\<forall>t\<in>set ts. (\<forall>i. (tx_id t, i) \<notin> U) \<and> length (tx_Outputs t) \<le> 65536) \<and>
     distinct (spent ts) \<and> set (spent ts) \<subseteq> U"

text \<open>One transaction: its outputs appear, then its inputs go.\<close>

definition after_tx :: "Transaction \<Rightarrow> (Uint256 \<times> u16) set \<Rightarrow> (Uint256 \<times> u16) set" where
  "after_tx t U = U \<union> created [t] - set (spent [t])"

lemma fresh_ConsD:
  assumes "fresh U (t # ts)"
  shows "live_tx t" "length (tx_Outputs t) \<le> 65536" "\<And>i. (tx_id t, i) \<notin> U"
    "distinct (spent [t])" "set (spent [t]) \<subseteq> U" "set (spent [t]) \<inter> set (spent ts) = {}"
    "set (spent ts) \<subseteq> U" "created ts \<inter> U = {}" "created [t] \<inter> U = {}"
proof -
  have sp: "spent (t # ts) = spent [t] @ spent ts" by (rule spent_Cons)
  show "live_tx t" "length (tx_Outputs t) \<le> 65536" "\<And>i. (tx_id t, i) \<notin> U"
    "distinct (spent [t])" "set (spent [t]) \<subseteq> U" "set (spent [t]) \<inter> set (spent ts) = {}" "set (spent ts) \<subseteq> U"
    using assms unfolding fresh_def sp by auto
  show "created ts \<inter> U = {}" "created [t] \<inter> U = {}"
    using assms unfolding fresh_def by (fastforce dest: created_ids)+
qed

lemma fresh_tl:
  assumes "fresh U (t # ts)"
  shows "fresh (after_tx t U) ts"
proof -
  note D = fresh_ConsD [OF assms]
  have sp: "spent (t # ts) = spent [t] @ spent ts" by (rule spent_Cons)
  have "set (spent ts) \<subseteq> after_tx t U" using D(6,7) by (auto simp: after_tx_def)
  moreover have "(tx_id t', i) \<notin> after_tx t U" if "t' \<in> set ts" for t' i
  proof -
    have "(tx_id t', i) \<notin> U" "tx_id t \<notin> tx_id ` set ts" using assms that unfolding fresh_def by auto
    then have "tx_id t' \<noteq> tx_id t" using that by (metis imageI)
    with \<open>(tx_id t', i) \<notin> U\<close> show ?thesis by (auto simp: after_tx_def dest: created_ids)
  qed
  ultimately show ?thesis using assms unfolding fresh_def sp by auto
qed

lemma after_tx_Cons:
  assumes "fresh U (t # ts)"
  shows "after_tx t U \<union> created ts - set (spent ts) = U \<union> created (t # ts) - set (spent (t # ts))"
proof -
  note D = fresh_ConsD [OF assms]
  have "created ts \<inter> set (spent [t]) = {}" using D(5,8) by auto
  moreover have "created (t # ts) = created [t] \<union> created ts" "spent (t # ts) = spent [t] @ spent ts"
    by (rule created_Cons spent_Cons)+
  ultimately show ?thesis by (auto simp: after_tx_def)
qed

lemma PersistUnspend_loop_rep:
  assumes "leveldb_ok L view" and "table (hash_key IX_Unspent) ToByteArray (view (cs_db cs)) base"
    and "rep m base U" and "fresh U ts" and "\<forall>t\<in>set ts. base (tx_id t) = []"
  shows "\<exists>m'. PersistUnspend_loop L cs ts m = Some (Inr m') \<and> rep m' base (U \<union> created ts - set (spent ts))"
  using assms(3-5)
proof (induction ts arbitrary: m U)
  case Nil
  then show ?case by (simp add: created_def spent_def)
next
  case (Cons t ts)
  note D = fresh_ConsD [OF Cons.prems(2)]
  obtain t' where hash: "Transaction_Hash t = Some (tx_id t, t')" using live_Hash [OF D(1)] ..
  have IH: "rep m' base (after_tx t U) \<Longrightarrow> \<exists>m''. PersistUnspend_loop L cs ts m' = Some (Inr m'') \<and>
      rep m'' base (U \<union> created (t # ts) - set (spent (t # ts)))" for m'
    using Cons.IH [OF _ fresh_tl [OF Cons.prems(2)]] Cons.prems(3) by (simp add: after_tx_Cons [OF Cons.prems(2)])
  show ?case
  proof (cases "indexed t")
    case False
    then have "after_tx t U = U" by (simp add: after_tx_def created_one spent_one spends_def)
    then show ?thesis using IH [of m] Cons.prems(1) False by (simp add: indexed_def)
  next
    case True
    define m1 where "m1 = unspend_outputs (tx_id t) 0 (tx_Outputs t) m"
    have "rep m1 base (U \<union> out_set (tx_id t) 0 (length (tx_Outputs t)))"
      unfolding m1_def
      by (rule unspend_outputs_rep [OF Cons.prems(1)]) (use Cons.prems(3) D(2,3) in \<open>auto simp: out_set_def\<close>)
    then have m1: "rep m1 base (U \<union> created [t])" using True by (simp add: created_one)
    show ?thesis
    proof (cases "IsCoinBaseTx t")
      case True
      then have "after_tx t U = U \<union> created [t]" by (simp add: after_tx_def spent_one spends_def)
      then show ?thesis using IH [of m1] m1 hash True \<open>indexed t\<close> by (simp add: indexed_def m1_def Let_def)
    next
      case False
      then have sp: "spent [t] = map outpoint (tx_UTXOInputs t)" using \<open>indexed t\<close> by (simp add: spent_one spends_def)
      have "outpoint ` set (tx_UTXOInputs t) \<subseteq> U \<union> created [t]" "distinct (map outpoint (tx_UTXOInputs t))"
        using D(4,5) unfolding sp by auto
      from spend_inputs_rep [OF assms(1,2) m1 this(2,1)] obtain m2
        where "spend_inputs L cs (tx_UTXOInputs t) m1 = Inr m2" "rep m2 base (after_tx t U)"
        unfolding after_tx_def sp by auto
      then show ?thesis using IH [of m2] hash False \<open>indexed t\<close> by (simp add: indexed_def m1_def Let_def)
    qed
  qed
qed

section \<open>The index per owner\<close>

lemma ucast_index: "n < 65536 \<Longrightarrow> (ucast (word_of_nat n :: u16) :: u32) = word_of_nat n"
proof -
  assume n: "n < 65536"
  then have "unat (word_of_nat n :: u16) = n" by (intro unat_of_nat_small) simp
  then have "unat (ucast (word_of_nat n :: u16) :: u32) = n" using n by (simp add: unat_ucast_small)
  moreover have "unat (word_of_nat n :: u32) = n" using n by (intro unat_of_nat_small) simp
  ultimately show ?thesis by (metis unsigned_word_eqI)
qed

lemma ent_output:
  assumes "T h = Some (t, height)" and "n < 65536"
  shows "ent T (h, word_of_nat n) =
    ((to_ProgramHash (tx_Outputs t ! n), to_AssetID (tx_Outputs t ! n), height),
     \<lparr>uu_Txid = h, uu_Index = word_of_nat n, uu_Value = to_Value (tx_Outputs t ! n)\<rparr>)"
proof -
  have "unat (word_of_nat n :: u16) = n" using assms(2) by (intro unat_of_nat_small) simp
  then show ?thesis using assms by (simp add: ent_Some ucast_index Let_def)
qed

lemma inj_ent: "inj (ent T)"
  by (rule injI) (rule ent_inj)

lemma ent_mem: "ent T x \<in> ent T ` U \<longleftrightarrow> x \<in> U"
  by (rule inj_image_mem_iff [OF inj_ent])

lemma ent_diff: "ent T ` U - {ent T x} = ent T ` (U - {x})"
  by (simp add: image_set_diff [OF inj_ent])

lemma compare_eq: "Uint256_CompareTo a b = 0 \<longleftrightarrow> a = b"
  by (auto simp: Uint256_CompareTo_sign)

text \<open>Loading an entry of the Go map, from the database when the block has not touched it.\<close>

lemma utxo_outputs_rep:
  assumes "leveldb_ok L view" and "table utxo_key enc_unspents (view (cs_db cs)) base"
    and "\<And>k. 8 * length (base k) \<le> maxAlloc"
    and "T h = Some (t, height)" and "Transaction_Hash txn = Some (h, txn')"
    and "rep m base (ent T ` U)" and "drop n (tx_Outputs t) = outs" and "n + length outs \<le> 65536"
    and "U \<inter> out_set h n (length outs) = {}"
  shows "\<exists>m'. utxo_outputs L cs height txn n outs m = Some m' \<and> rep m' base (ent T ` (U \<union> out_set h n (length outs)))"
  using assms(6-9)
proof (induction outs arbitrary: n m U)
  case (Cons out outs)
  have n: "n < length (tx_Outputs t)" "tx_Outputs t ! n = out" "drop (Suc n) (tx_Outputs t) = outs"
    using Cons.prems(2) by (metis drop_all leI list.distinct(1), metis hd_drop_conv_nth drop_all leI list.distinct(1) list.sel(1),
      metis drop_Suc list.sel(3) tl_drop)
  define k e where "k = (to_ProgramHash out, to_AssetID out, height)"
    and "e = \<lparr>uu_Txid = h, uu_Index = (word_of_nat n :: u32), uu_Value = to_Value out\<rparr>"
  have ke: "ent T (h, word_of_nat n) = (k, e)"
    using ent_output [of T h t height n, OF assms(4)] Cons.prems(3) n(2) by (simp add: k_def e_def)
  have load: "(case map_of m k of
       Some us \<Rightarrow> Some us
     | None \<Rightarrow> do {
         r \<leftarrow> GetUnspentElementFromProgramHash L cs (to_ProgramHash out) (to_AssetID out) height;
         Some (case r of Inl err \<Rightarrow> [] | Inr us \<Rightarrow> us) }) = Some (eff m base k)"
    using GetUnspentElement_ok [OF assms(1,2), of "to_ProgramHash out" "to_AssetID out" height] assms(3) [of k]
    by (simp add: eff_def k_def split: option.splits)
  have "(k, e) \<notin> ent T ` U"
    unfolding ke [symmetric] ent_mem using Cons.prems(4) by (auto simp: out_set_Suc)
  from rep_add [OF Cons.prems(1) this]
  have rep: "rep (AList.update k (eff m base k @ [e]) m) base (ent T ` insert (h, word_of_nat n) U)" by (simp add: ke)
  have "\<exists>m'. utxo_outputs L cs height txn (Suc n) outs (AList.update k (eff m base k @ [e]) m) = Some m' \<and>
      rep m' base (ent T ` (insert (h, word_of_nat n) U \<union> out_set h (Suc n) (length outs)))"
    by (rule Cons.IH [OF rep n(3)])
       (use Cons.prems(3,4) out_set_fresh [of n "length outs" h] in \<open>auto simp: out_set_Suc\<close>)
  moreover have "utxo_outputs L cs height txn n (out # outs) m =
      utxo_outputs L cs height txn (Suc n) outs (AList.update k (eff m base k @ [e]) m)"
    unfolding utxo_outputs.simps Let_def k_def [symmetric] load by (simp add: assms(5) e_def)
  ultimately show ?case by (simp add: out_set_Suc)
qed simp

lemma utxo_inputs_rep:
  assumes "leveldb_ok L view" and "table utxo_key enc_unspents (view (cs_db cs)) base"
    and "\<And>k. 8 * length (base k) \<le> maxAlloc" and "txs_stored (view (cs_db cs)) T0"
    and "\<And>h x. T0 h = Some x \<Longrightarrow> T h = Some x"
    and "rep m base (ent T ` U)" and "distinct (map outpoint us)" and "outpoint ` set us \<subseteq> U"
    and "\<forall>(h, i) \<in> outpoint ` set us. \<exists>t height. T0 h = Some (t, height) \<and> unat i < length (tx_Outputs t)"
  shows "\<exists>m'. utxo_inputs L cs us m = Some (Inr m') \<and> rep m' base (ent T ` (U - outpoint ` set us))"
  using assms(6-9)
proof (induction us arbitrary: m U)
  case (Cons u us)
  define h i where "h = ui_ReferTxID u" and "i = ui_ReferTxOutputIndex u"
  have hi: "outpoint u = (h, i)" by (simp add: outpoint_def h_def i_def)
  then have mem: "(h, i) \<in> U" using Cons.prems(3) by simp
  obtain t height where t: "T0 h = Some (t, height)" and i: "unat i < length (tx_Outputs t)"
    using Cons.prems(4) hi by auto
  define out where "out = tx_Outputs t ! unat i"
  define k e where "k = (to_ProgramHash out, to_AssetID out, height)"
    and "e = \<lparr>uu_Txid = h, uu_Index = (ucast i :: u32), uu_Value = to_Value out\<rparr>"
  have ke: "ent T (h, i) = (k, e)"
    using ent_Some [of T h t height i] assms(5) [OF t] by (simp add: k_def e_def out_def Let_def)
  have in_R: "(k, e) \<in> ent T ` U" unfolding ke [symmetric] ent_mem by (rule mem)
  have only: "(uu_Txid e' = h \<and> uu_Index e' = ucast i) \<longleftrightarrow> e' = e" if "(k, e') \<in> ent T ` U" for e'
  proof
    assume e': "uu_Txid e' = h \<and> uu_Index e' = ucast i"
    from that obtain x where "(k, e') = ent T x" by (rule imageE)
    then have x: "ent T x = (k, e')" by (rule sym)
    have "fst x = h" "(ucast (snd x) :: u32) = ucast i" using ent_snd [of T x] e' by (simp_all add: x)
    then have "x = (h, i)" by (simp add: prod_eq_iff ucast_u16_inj)
    then show "e' = e" using x ke by simp
  qed (simp add: e_def)
  obtain ys where ys: "swap_remove (\<lambda>v. uu_Txid v = h \<and> uu_Index v = ucast i) (eff m base k) = Some ys"
    and "rep (AList.update k ys m) base (ent T ` U - {(k, e)})"
    using rep_remove [OF Cons.prems(1) in_R, of "\<lambda>v. uu_Txid v = h \<and> uu_Index v = ucast i"] only by blast
  then have rep: "rep (AList.update k ys m) base (ent T ` (U - {(h, i)}))"
    unfolding ke [symmetric] ent_diff by simp
  have ne: "eff m base k \<noteq> []" using rep_set [OF Cons.prems(1), of k] in_R by auto
  have load: "(case map_of m k of
       Some us \<Rightarrow> Some (Inr us)
     | None \<Rightarrow> GetUnspentElementFromProgramHash L cs (to_ProgramHash out) (to_AssetID out) height) = Some (Inr (eff m base k))"
    using GetUnspentElement_ok [OF assms(1,2), of "to_ProgramHash out" "to_AssetID out" height] assms(3) [of k] ne
    by (auto simp: eff_def k_def split: option.splits)
  have "\<exists>m'. utxo_inputs L cs us (AList.update k ys m) = Some (Inr m') \<and> rep m' base (ent T ` (U - {(h, i)} - outpoint ` set us))"
    by (rule Cons.IH [OF rep]) (use Cons.prems(2-4) in \<open>auto simp: hi [symmetric]\<close>)
  moreover have "U - {(h, i)} - outpoint ` set us = U - outpoint ` set (u # us)" by (auto simp: hi)
  moreover have "GetTransaction L cs (ui_ReferTxID u) = Some (Inr (t, height))"
    using GetTransaction_ok [OF assms(1,4), of h] t by (simp add: h_def)
  moreover have "utxo_inputs L cs (u # us) m = utxo_inputs L cs us (AList.update k ys m)"
    if "GetTransaction L cs (ui_ReferTxID u) = Some (Inr (t, height))"
    unfolding utxo_inputs.simps that bind.simps sum.case prod.case Let_def i_def [symmetric] out_def [symmetric]
      k_def [symmetric] load stored_Hash [OF assms(4) t] compare_eq ys option.case
    using i by simp
  ultimately show ?case by simp
qed simp

definition known :: "(Uint256 \<Rightarrow> (Transaction \<times> u32) option) \<Rightarrow> (Uint256 \<times> u16) set \<Rightarrow> bool" where
  "known T X \<longleftrightarrow> (\<forall>(h, i) \<in> X. \<exists>t height. T h = Some (t, height) \<and> unat i < length (tx_Outputs t))"

lemma PersistUnspendUTXOs_loop_rep:
  assumes "leveldb_ok L view" and "table utxo_key enc_unspents (view (cs_db cs)) base"
    and "\<And>k. 8 * length (base k) \<le> maxAlloc" and "txs_stored (view (cs_db cs)) T0"
    and "\<And>h x. T0 h = Some x \<Longrightarrow> T h = Some x"
    and "rep m base (ent T ` U)" and "fresh U ts" and "\<forall>t\<in>set ts. T (tx_id t) = Some (plain t, height)"
    and "known T0 (set (spent ts))"
  shows "\<exists>m'. PersistUnspendUTXOs_loop L cs height ts m = Some (Inr m') \<and>
    rep m' base (ent T ` (U \<union> created ts - set (spent ts)))"
  using assms(6-9)
proof (induction ts arbitrary: m U)
  case (Cons t ts)
  note D = fresh_ConsD [OF Cons.prems(2)]
  obtain t' where hash: "Transaction_Hash t = Some (tx_id t, t')" using live_Hash [OF D(1)] ..
  have T: "T (tx_id t) = Some (plain t, height)" using Cons.prems(3) by simp
  have kn: "known T0 (set (spent [t]))" "known T0 (set (spent ts))"
    using Cons.prems(4) unfolding spent_Cons [of t ts] known_def by auto
  have IH: "rep m' base (ent T ` after_tx t U) \<Longrightarrow> \<exists>m''. PersistUnspendUTXOs_loop L cs height ts m' = Some (Inr m'') \<and>
      rep m'' base (ent T ` (U \<union> created (t # ts) - set (spent (t # ts))))" for m'
    using Cons.IH [OF _ fresh_tl [OF Cons.prems(2)]] Cons.prems(3) kn(2)
    by (simp add: after_tx_Cons [OF Cons.prems(2)])
  show ?case
  proof (cases "indexed t")
    case False
    then have "after_tx t U = U" by (simp add: after_tx_def created_one spent_one spends_def)
    then show ?thesis using IH [of m] Cons.prems(1) False by (simp add: indexed_def)
  next
    case True
    have "\<exists>m1. utxo_outputs L cs height t 0 (tx_Outputs t) m = Some m1 \<and>
        rep m1 base (ent T ` (U \<union> out_set (tx_id t) 0 (length (tx_Outputs t))))"
      by (rule utxo_outputs_rep [OF assms(1-3) T hash Cons.prems(1)]) (use D(2,3) in \<open>auto simp: out_set_def\<close>)
    then obtain m1 where m1: "utxo_outputs L cs height t 0 (tx_Outputs t) m = Some m1"
      "rep m1 base (ent T ` (U \<union> created [t]))"
      using True by (auto simp: created_one)
    show ?thesis
    proof (cases "IsCoinBaseTx t")
      case True
      then have "after_tx t U = U \<union> created [t]" by (simp add: after_tx_def spent_one spends_def)
      then show ?thesis using IH [of m1] m1 True \<open>indexed t\<close> by (simp add: indexed_def)
    next
      case False
      then have sp: "spent [t] = map outpoint (tx_UTXOInputs t)" using \<open>indexed t\<close> by (simp add: spent_one spends_def)
      have "outpoint ` set (tx_UTXOInputs t) \<subseteq> U \<union> created [t]" "distinct (map outpoint (tx_UTXOInputs t))"
        "\<forall>(h, i) \<in> outpoint ` set (tx_UTXOInputs t). \<exists>t height. T0 h = Some (t, height) \<and> unat i < length (tx_Outputs t)"
        using D(4,5) kn(1) unfolding sp known_def by auto
      from utxo_inputs_rep [where T = T, OF assms(1-5) m1(2) this(2,1,3)] obtain m2
        where "utxo_inputs L cs (tx_UTXOInputs t) m1 = Some (Inr m2)" "rep m2 base (ent T ` after_tx t U)"
        unfolding after_tx_def sp by auto
      then show ?thesis using IH [of m2] m1(1) False \<open>indexed t\<close> by (simp add: indexed_def)
    qed
  qed
qed simp

section \<open>Persisting a block\<close>

text \<open>The operations that the writers append to the batch.\<close>

definition tx_ops :: "u32 \<Rightarrow> Transaction \<Rightarrow> batch_op list" where
  "tx_ops height t =
     BPut (hash_key DATA_Transaction (tx_id t)) (WriteUint32 height @ tx_wire (plain t)) #
     (case tx_Payload t of
        Some (PRegisterAsset p) \<Rightarrow> [BPut (hash_key ST_Info (tx_id t)) (Asset_Serialize (ra_Asset p))]
      | _ \<Rightarrow> [])"

lemma live_payload:
  assumes "live_tx t"
  shows "(tx_TxType t = RegisterAsset) = (\<exists>p. tx_Payload t = Some (PRegisterAsset p))"
proof -
  obtain p where "tx_Payload t = Some p" "payload_ok (tx_TxType t) p"
    using assms by (auto simp: live_tx_def transaction_ok_def split: option.splits)
  then show ?thesis by (cases p) auto
qed

lemma PersistTransactions_ops:
  assumes "list_all live_tx ts" and "cs_batch cs = Some ops"
  shows "PersistTransactions_loop height ts cs = Some (cs\<lparr>cs_batch := Some (ops @ concat (map (tx_ops height) ts))\<rparr>)"
  using assms
proof (induction ts arbitrary: cs ops)
  case (Cons t ts)
  obtain t' where hash: "Transaction_Hash t = Some (tx_id t, t')" using live_Hash Cons.prems(1) by auto
  have ser: "Transaction_Serialize t = Some (tx_wire (plain t), None)" using live_Serialize Cons.prems(1) by simp
  have pay: "(tx_TxType t = RegisterAsset) = (\<exists>p. tx_Payload t = Some (PRegisterAsset p))"
    using live_payload Cons.prems(1) by simp
  show ?case
  proof (cases "tx_TxType t = RegisterAsset")
    case True
    then obtain p where "tx_Payload t = Some (PRegisterAsset p)" using pay by auto
    then show ?thesis using Cons hash ser True
      by (simp add: PersistTransaction_def PersistAsset_def batch_add_ok tx_ops_def)
  next
    case False
    then have "\<And>p. tx_Payload t \<noteq> Some (PRegisterAsset p)" using pay by auto
    then show ?thesis using Cons hash ser False
      by (simp add: PersistTransaction_def batch_add_ok tx_ops_def split: option.splits Payload.splits)
  qed
qed simp

lemma put_unspents_ops:
  "cs_batch cs = Some ops \<Longrightarrow>
     put_unspents m cs = Some (cs\<lparr>cs_batch := Some (ops @ map (put_op (hash_key IX_Unspent) ToByteArray) m)\<rparr>)"
  by (induction m cs arbitrary: ops rule: put_unspents.induct) (auto simp: batch_add_ok put_op_def)

lemma put_utxos_ops:
  "cs_batch cs = Some ops \<Longrightarrow>
     put_utxos m cs = Some (cs\<lparr>cs_batch := Some (ops @ map (put_op utxo_key enc_unspents) m)\<rparr>)"
  by (induction m cs arbitrary: ops rule: put_utxos.induct)
     (auto simp: batch_add_ok put_op_def PersistUnspentWithProgramHash_def enc_unspents_def simp del: utxo_key.simps)

end
