(* ===== verification/Store_Persist.thy ===== *)
theory Store_Persist
  imports Store_Refine
begin

text \<open>
  One block through the store: the batch that persisting it commits, what reading the
  database gives afterwards, and what rolling the block back undoes.
\<close>

section \<open>The batch of a block\<close>

definition touches :: "byte set \<Rightarrow> batch_op list \<Rightarrow> bool" where
  "touches ps ops \<longleftrightarrow> (\<forall>op\<in>set ops. hd (op_key op) \<in> ps)"

lemma touches_append [simp]: "touches ps (xs @ ys) \<longleftrightarrow> touches ps xs \<and> touches ps ys"
  by (auto simp: touches_def)

lemma get_untouched: "touches ps ops \<Longrightarrow> hd k \<notin> ps \<Longrightarrow> apply_batch v ops k = v k"
  by (rule apply_batch_other) (auto simp: touches_def)

lemma table_untouched:
  "table key enc v base \<Longrightarrow> touches ps ops \<Longrightarrow> (\<And>k. hd (key k) \<notin> ps) \<Longrightarrow> table key enc (apply_batch v ops) base"
  by (simp add: table_def get_untouched)

lemma hd_keys [simp]: "hd (hash_key p h) = p" "hd (height_key n) = DATA_BlockHash"
  by (simp_all add: hash_key_def height_key_def)

lemma hd_utxo_key [simp]: "hd (utxo_key k) = IX_Unspent_UTXO"
  by (cases k) simp

lemma put_op_touches:
  "touches {IX_Unspent} (map (put_op (hash_key IX_Unspent) enc) m)"
  "touches {IX_Unspent_UTXO} (map (put_op utxo_key enc') m')"
  by (simp_all add: touches_def)

lemma tx_ops_touches: "touches {DATA_Transaction, ST_Info} (concat (map (tx_ops height) ts))"
  by (auto simp: touches_def tx_ops_def split: option.splits Payload.splits)

definition tx_entry :: "u32 \<Rightarrow> Transaction \<Rightarrow> Uint256 \<times> Transaction \<times> u32" where
  "tx_entry height t = (tx_id t, plain t, height)"

lemma map_of_entries: "h \<notin> tx_id ` set ts \<Longrightarrow> map_of (map (tx_entry height) ts) h = None"
  by (induction ts) (auto simp: tx_entry_def)

lemma tx_ops_get:
  assumes "distinct (map tx_id ts)"
  shows "apply_batch v (concat (map (tx_ops height) ts)) (hash_key DATA_Transaction h) =
    (case map_of (map (tx_entry height) ts) h of
       Some (t, height) \<Rightarrow> Some (WriteUint32 height @ tx_wire t)
     | None \<Rightarrow> v (hash_key DATA_Transaction h))"
  using assms
proof (induction ts arbitrary: v)
  case (Cons t ts)
  have ne: "hash_key ST_Info x \<noteq> hash_key DATA_Transaction h" for x
    by (simp add: hash_key_inj prefix_defs)
  have one: "apply_batch v (tx_ops height t) (hash_key DATA_Transaction h) =
      (if h = tx_id t then Some (WriteUint32 height @ tx_wire (plain t)) else v (hash_key DATA_Transaction h))" for v
    using ne [of "tx_id t"]
    by (auto simp: apply_batch_Cons hash_key_inj tx_ops_def split: option.splits Payload.splits)
  have "map_of (map (tx_entry height) (t # ts)) h =
      (if h = tx_id t then Some (plain t, height) else map_of (map (tx_entry height) ts) h)"
    by (simp add: tx_entry_def)
  moreover have "h = tx_id t \<Longrightarrow> map_of (map (tx_entry height) ts) h = None"
    using Cons.prems by (intro map_of_entries) simp
  moreover have "apply_batch v (concat (map (tx_ops height) (t # ts))) =
      apply_batch (apply_batch v (tx_ops height t)) (concat (map (tx_ops height) ts))"
    by simp
  ultimately show ?case using Cons.IH [of "apply_batch v (tx_ops height t)"] Cons.prems one [of v]
    by (cases "h = tx_id t") (simp_all only: if_True if_False option.case prod.case distinct.simps list.map refl simp_thms)
qed simp

lemma tx_ops_asset:
  assumes "distinct (map tx_id ts)" and "t \<in> set ts" and "tx_Payload t = Some (PRegisterAsset p)"
  shows "apply_batch v (concat (map (tx_ops height) ts)) (hash_key ST_Info (tx_id t)) = Some (Asset_Serialize (ra_Asset p))"
  using assms
proof (induction ts arbitrary: v)
  case (Cons a ts)
  have rest: "t \<notin> set ts \<Longrightarrow> tx_id t \<notin> tx_id ` set ts \<Longrightarrow>
      apply_batch v (concat (map (tx_ops height) ts)) (hash_key ST_Info (tx_id t)) = v (hash_key ST_Info (tx_id t))" for v
    by (rule apply_batch_other)
       (auto simp: hash_key_inj prefix_defs tx_ops_def split: option.splits Payload.splits)
  show ?case
  proof (cases "t = a")
    case True
    then have "tx_id t \<notin> tx_id ` set ts" "t \<notin> set ts" using Cons.prems(1) by auto
    then show ?thesis using rest True Cons.prems(3) by (simp add: apply_batch_Cons tx_ops_def [of _ a])
  next
    case False
    then show ?thesis using Cons by simp
  qed
qed simp

section \<open>Persisting refines adding a block\<close>

definition apply_block :: "u32 \<Rightarrow> Transaction list \<Rightarrow> ledger_abs \<Rightarrow> ledger_abs" where
  "apply_block height ts A =
     \<lparr>ab_tx = ab_tx A ++ map_of (map (tx_entry height) ts),
      ab_utxo = ab_utxo A \<union> created ts - set (spent ts)\<rparr>"

text \<open>
  The transactions of a block fit a ledger when their hashes are new and pairwise different,
  they have few enough outputs to be numbered, and the outputs they spend are unspent and
  pairwise different.
\<close>

definition fits :: "Transaction list \<Rightarrow> ledger_abs \<Rightarrow> bool" where
  "fits ts A \<longleftrightarrow> fresh (ab_utxo A) ts \<and> (\<forall>t\<in>set ts. ab_tx A (tx_id t) = None)"

definition live_block :: "Block \<Rightarrow> bool" where
  "live_block b \<longleftrightarrow>
     (case bk_Blockdata b of
        None \<Rightarrow> False
      | Some bd \<Rightarrow> blockdata_ok bd \<and> bd_TransactionsRoot bd = merkle_root (map tx_id (bk_Transactions b)) \<and>
                  (bk_hash b = None \<or> bk_hash b = Some (Blockdata_Hash bd))) \<and>
     bk_Transactions b \<noteq> [] \<and> list_all live_tx (bk_Transactions b) \<and> length (bk_Transactions b) < 2 ^ 32"

lemma trim_txs_live: "list_all live_tx ts \<Longrightarrow> trim_txs ts = Some (concat (map Uint256_Serialize (map tx_id ts)))"
  by (induction ts) (use live_Hash in fastforce)+

lemma live_Block_Hash: "live_block b \<Longrightarrow> bk_Blockdata b = Some bd \<Longrightarrow> \<exists>b'. Block_Hash b = Some (Blockdata_Hash bd, b')"
  by (auto simp: live_block_def Block_Hash_def)

lemma Trim_live:
  assumes "live_block b" and "bk_Blockdata b = Some bd"
  shows "\<exists>bs. Block_Trim b = Some bs \<and>
    (\<forall>z k rest. FromTrimmedData (new_Block\<lparr>bk_Blockdata := Some z\<rparr>) (Rd k (bs @ rest)) =
      Some (\<lparr>bk_Blockdata = Some bd, bk_Transactions = map (\<lambda>t. new_Transaction\<lparr>tx_hash := Some (tx_id t)\<rparr>) (bk_Transactions b),
             bk_hash = None\<rparr>, None, Rd k rest))"
proof -
  have bd: "blockdata_ok bd" "bd_TransactionsRoot bd = merkle_root (map tx_id (bk_Transactions b))"
    "bk_Transactions b \<noteq> []" "list_all live_tx (bk_Transactions b)" "length (bk_Transactions b) < 2 ^ 32"
    using assms by (simp_all add: live_block_def)
  obtain hb where hb: "Blockdata_Serialize bd = Some hb"
    "\<And>z k rest. Blockdata_Deserialize z (Rd k (hb @ rest)) = Some (bd, None, Rd k rest)"
    using Blockdata_codec [OF bd(1)] by blast
  show ?thesis using assms(2) bd(2-) hb read_hashes_ok [of "map tx_id (bk_Transactions b)" 0]
    by (simp add: Block_Trim_def FromTrimmedData_def new_Block_def trim_txs_live rd_run field_rt len32
        set_root_same o_def Let_def)
qed

lemma fits_known: "represents v A \<Longrightarrow> fits ts A \<Longrightarrow> known (ab_tx A) (set (spent ts))"
  by (fastforce simp: represents_def fits_def fresh_def known_def)

lemma apply_block_tx:
  assumes "fits ts A"
  shows "ab_tx A h = Some x \<Longrightarrow> ab_tx (apply_block height ts A) h = Some x"
    and "t \<in> set ts \<Longrightarrow> ab_tx (apply_block height ts A) (tx_id t) = Some (plain t, height)"
proof -
  assume h: "ab_tx A h = Some x"
  then have "h \<notin> tx_id ` set ts" using assms by (auto simp: fits_def)
  then show "ab_tx (apply_block height ts A) h = Some x"
    using h map_of_entries [of h ts height] by (simp add: apply_block_def map_add_def)
next
  assume t: "t \<in> set ts"
  have "distinct (map fst (map (tx_entry height) ts))"
    using assms by (simp add: fits_def fresh_def o_def tx_entry_def)
  then have "map_of (map (tx_entry height) ts) (tx_id t) = Some (plain t, height)"
    using t by (intro map_of_is_SomeI) (auto simp: tx_entry_def)
  then show "ab_tx (apply_block height ts A) (tx_id t) = Some (plain t, height)"
    by (simp add: apply_block_def map_add_Some_iff)
qed

lemma ent_old:
  assumes "fits ts A" and "known (ab_tx A) X"
  shows "ent (ab_tx (apply_block height ts A)) ` X = ent (ab_tx A) ` X"
proof (rule image_cong [OF refl])
  fix x assume "x \<in> X"
  obtain h i where x: "x = (h, i)" by (cases x)
  with \<open>x \<in> X\<close> obtain t ht where "ab_tx A h = Some (t, ht)" using assms(2) by (auto simp: known_def)
  then show "ent (ab_tx (apply_block height ts A)) x = ent (ab_tx A) x"
    using apply_block_tx(1) [OF assms(1)] by (simp add: x ent_def)
qed

lemma represents_known: "represents v A \<Longrightarrow> known (ab_tx A) (ab_utxo A)"
  by (auto simp: represents_def known_def)

lemma small_base:
  assumes "small A" and "rep [] base (ent (ab_tx A) ` ab_utxo A)"
  shows "8 * length (base k) \<le> maxAlloc"
proof -
  have "length (base k) = card {e. (k, e) \<in> ent (ab_tx A) ` ab_utxo A}"
    using rep_set [OF assms(2), of k] rep_distinct [OF assms(2), of k] by (simp add: distinct_card [symmetric])
  then show ?thesis using assms(1) unfolding small_def by metis
qed

lemma fresh_empty:
  assumes "rep [] base U" and "fresh U ts"
  shows "\<forall>t\<in>set ts. base (tx_id t) = []"
proof
  fix t assume "t \<in> set ts"
  then have "set (base (tx_id t)) = {}" using assms rep_set [OF assms(1), of "tx_id t"] by (simp add: fresh_def)
  then show "base (tx_id t) = []" by simp
qed

definition head_ops :: "Blockdata \<Rightarrow> byte list \<Rightarrow> Transaction list \<Rightarrow> batch_op list" where
  "head_ops bd tb ts =
     [BPut (hash_key DATA_Header (Blockdata_Hash bd)) (WriteUint64 0 @ tb),
      BPut (height_key (bd_Height bd)) (Uint256_Serialize (Blockdata_Hash bd))] @ concat (map (tx_ops (bd_Height bd)) ts)"

definition block_ops :: "Blockdata \<Rightarrow> byte list \<Rightarrow> Transaction list \<Rightarrow> utxo_map \<Rightarrow> unspent_map \<Rightarrow> batch_op list" where
  "block_ops bd tb ts m1 m2 =
     head_ops bd tb ts @ map (put_op utxo_key enc_unspents) m1 @ map (put_op (hash_key IX_Unspent) ToByteArray) m2 @
     [BPut [SYS_CurrentBlock] (Uint256_Serialize (Blockdata_Hash bd) @ WriteUint32 (bd_Height bd))]"

lemma persist_run:
  assumes "leveldb_ok L view" and "live_block b" and "bk_Blockdata b = Some bd" and "Block_Trim b = Some tb"
    and "PersistUnspendUTXOs_loop L (cs\<lparr>cs_batch := Some (head_ops bd tb (bk_Transactions b))\<rparr>) (bd_Height bd)
           (bk_Transactions b) [] = Some (Inr m1)"
    and "PersistUnspend_loop L (cs\<lparr>cs_batch := Some (head_ops bd tb (bk_Transactions b) @ map (put_op utxo_key enc_unspents) m1)\<rparr>)
           (bk_Transactions b) [] = Some (Inr m2)"
  shows "\<exists>cs'. persist L b cs = Some cs' \<and>
    view (cs_db cs') = apply_batch (view (cs_db cs)) (block_ops bd tb (bk_Transactions b) m1 m2) \<and>
    cs_headerIdx cs' = cs_headerIdx cs"
proof -
  define ts where "ts = bk_Transactions b"
  obtain b' where hash: "Block_Hash b = Some (Blockdata_Hash bd, b')" using live_Block_Hash [OF assms(2,3)] ..
  have live: "list_all live_tx ts" using assms(2) by (simp add: live_block_def ts_def)
  have txs: "PersistTransactions_loop (bd_Height bd) ts (cs\<lparr>cs_batch := Some (take 2 (head_ops bd tb ts))\<rparr>) =
      Some (cs\<lparr>cs_batch := Some (head_ops bd tb ts)\<rparr>)"
    using PersistTransactions_ops [OF live, of "cs\<lparr>cs_batch := Some (take 2 (head_ops bd tb ts))\<rparr>" "take 2 (head_ops bd tb ts)" "bd_Height bd"]
    by (simp add: head_ops_def)
  define cs2 where "cs2 = cs\<lparr>cs_batch := Some (block_ops bd tb ts m1 m2)\<rparr>"
  have "persist L b cs = Some (snd (BatchCommit L cs2))"
    using txs assms(5,6)
    by (simp add: persist_def PersistTrimmedBlock_def PersistBlockHash_def PersistTransactions_def
        PersistUnspendUTXOs_def PersistUnspend_def PersistCurrentBlock_def block_header_def NewBatch_def
        hash assms(3,4) batch_add_ok head_ops_def cs2_def block_ops_def put_utxos_ops put_unspents_ops ts_def)
  moreover have "view (cs_db (snd (BatchCommit L cs2))) = apply_batch (view (cs_db cs)) (block_ops bd tb ts m1 m2)"
    using BatchCommit_ok [OF assms(1), of cs2] by (simp add: cs2_def)
  moreover have "cs_headerIdx (snd (BatchCommit L cs2)) = cs_headerIdx cs"
    by (simp add: BatchCommit_def cs2_def split: prod.splits)
  ultimately show ?thesis by (simp add: ts_def)
qed

lemma rep_eff: "rep m base R \<Longrightarrow> rep [] (eff m base) R"
  by (simp add: rep_def)

lemma apply_block_ok:
  assumes "represents v A" and "fits ts A" and "ab_tx (apply_block height ts A) h = Some (t, ht)"
  shows "transaction_ok t \<and> txid t = h"
proof (cases "map_of (map (tx_entry height) ts) h")
  case None
  then show ?thesis using assms(1,3) by (auto simp: apply_block_def represents_def txs_stored_def map_add_def)
next
  case (Some x)
  then have "(h, x) \<in> set (map (tx_entry height) ts)" by (rule map_of_SomeD)
  then obtain t0 where t0: "t0 \<in> set ts" "h = tx_id t0" "x = (plain t0, height)" by (auto simp: tx_entry_def)
  have "live_tx t0" using assms(2) t0(1) by (auto simp: fits_def fresh_def list_all_iff)
  then show ?thesis using assms(3) Some t0 by (simp add: apply_block_def live_tx_def tx_id_def)
qed

lemma apply_block_known:
  assumes "known (ab_tx A) (ab_utxo A)" and "fits ts A"
  shows "known (ab_tx (apply_block height ts A)) (ab_utxo (apply_block height ts A))"
  unfolding known_def
proof clarify
  fix h i assume "(h, i) \<in> ab_utxo (apply_block height ts A)"
  then consider "(h, i) \<in> ab_utxo A" | "(h, i) \<in> created ts" by (auto simp: apply_block_def)
  then show "\<exists>t ht. ab_tx (apply_block height ts A) h = Some (t, ht) \<and> unat i < length (tx_Outputs t)"
  proof cases
    case 1
    then show ?thesis using assms(1) apply_block_tx(1) [OF assms(2)] by (fastforce simp: known_def)
  next
    case 2
    then obtain t j where t: "t \<in> set ts" "h = tx_id t" "i = word_of_nat j" "j < length (tx_Outputs t)"
      by (auto simp: created_def out_set_def)
    moreover have "length (tx_Outputs t) \<le> 65536" using assms(2) t(1) by (simp add: fits_def fresh_def)
    ultimately have "unat i = j" by (simp add: unat_of_nat_small)
    then show ?thesis using apply_block_tx(2) [OF assms(2) t(1)] t by simp
  qed
qed

lemma block_ops_represent:
  assumes "represents v A" and "fits ts A" and "table (hash_key IX_Unspent) ToByteArray v base1"
    and "rep m2 base1 (ab_utxo A \<union> created ts - set (spent ts))" and "table utxo_key enc_unspents v base2"
    and "rep m1 base2 (ent (ab_tx (apply_block (bd_Height bd) ts A)) ` (ab_utxo A \<union> created ts - set (spent ts)))"
  shows "represents (apply_batch v (block_ops bd tb ts m1 m2)) (apply_block (bd_Height bd) ts A)"
proof -
  define A' where "A' = apply_block (bd_Height bd) ts A"
  define pre where "pre = head_ops bd tb ts"
  define u1 u2 where "u1 = map (put_op utxo_key enc_unspents) m1" and "u2 = map (put_op (hash_key IX_Unspent) ToByteArray) m2"
  define cur where "cur = [BPut [SYS_CurrentBlock] (Uint256_Serialize (Blockdata_Hash bd) @ WriteUint32 (bd_Height bd))]"
  have utxo: "ab_utxo A' = ab_utxo A \<union> created ts - set (spent ts)" by (simp add: A'_def apply_block_def)
  have split: "block_ops bd tb ts m1 m2 = pre @ u1 @ u2 @ cur"
    by (simp add: block_ops_def pre_def u1_def u2_def cur_def)
  have t: "touches {DATA_Header, DATA_BlockHash, DATA_Transaction, ST_Info} pre" "touches {IX_Unspent_UTXO} u1"
    "touches {IX_Unspent} u2" "touches {SYS_CurrentBlock} cur"
    using tx_ops_touches [of "bd_Height bd" ts]
    by (auto simp: touches_def pre_def head_ops_def cur_def u1_def u2_def)
  have unspent: "table (hash_key IX_Unspent) ToByteArray (apply_batch v (pre @ u1 @ u2 @ cur)) (eff m2 base1)"
    unfolding apply_batch_append u2_def
    by (intro table_untouched [OF _ t(4)] table_put [OF inj_hash_key] table_untouched [OF _ t(2)]
        table_untouched [OF _ t(1)] assms(3) rep_keys [OF assms(4)]) (simp_all add: prefix_defs)
  have owned: "table utxo_key enc_unspents (apply_batch v (pre @ u1 @ u2 @ cur)) (eff m1 base2)"
    unfolding apply_batch_append u1_def
    by (intro table_untouched [OF _ t(4)] table_untouched [OF _ t(3)] table_put [OF inj_utxo_key]
        table_untouched [OF _ t(1)] assms(5) rep_keys [OF assms(6)]) (simp_all add: prefix_defs)
  have "apply_batch v (pre @ u1 @ u2 @ cur) (hash_key DATA_Transaction h) = apply_batch v pre (hash_key DATA_Transaction h)" for h
    unfolding apply_batch_append
    by (subst get_untouched [OF t(4)], simp add: prefix_defs, subst get_untouched [OF t(3)], simp add: prefix_defs,
        subst get_untouched [OF t(2)], simp_all add: prefix_defs)
  moreover have "apply_batch v pre (hash_key DATA_Transaction h) =
      map_option (\<lambda>(t, height). WriteUint32 height @ tx_wire t) (ab_tx A' h)" for h
    using assms(1,2) tx_ops_get [of ts]
    by (auto simp: pre_def head_ops_def apply_batch_Cons hash_key_inj height_key_def hash_key_def prefix_defs
        represents_def txs_stored_def fits_def fresh_def A'_def apply_block_def map_add_def split: option.splits)
  ultimately have get: "apply_batch v (pre @ u1 @ u2 @ cur) (hash_key DATA_Transaction h) =
      map_option (\<lambda>(t, height). WriteUint32 height @ tx_wire t) (ab_tx A' h)" for h by simp
  have "txs_stored (apply_batch v (pre @ u1 @ u2 @ cur)) (ab_tx A')"
    using get apply_block_ok [OF assms(1,2)] by (simp add: txs_stored_def A'_def)
  moreover have "known (ab_tx A') (ab_utxo A')"
    using apply_block_known [OF represents_known [OF assms(1)] assms(2)] by (simp add: A'_def)
  moreover have "rep [] (eff m2 base1) (ab_utxo A')" "rep [] (eff m1 base2) (ent (ab_tx A') ` ab_utxo A')"
    using rep_eff [OF assms(4)] rep_eff [OF assms(6)] by (simp_all add: utxo A'_def [symmetric])
  ultimately show ?thesis
    using unspent owned unfolding A'_def [symmetric] split represents_def known_def by blast
qed

lemma persist_correct:
  assumes "leveldb_ok L view" and "represents (view (cs_db cs)) A" and "small A"
    and "live_block b" and "bk_Blockdata b = Some bd" and "fits (bk_Transactions b) A"
  shows "\<exists>cs' tb m1 m2. persist L b cs = Some cs' \<and> Block_Trim b = Some tb \<and>
    view (cs_db cs') = apply_batch (view (cs_db cs)) (block_ops bd tb (bk_Transactions b) m1 m2) \<and>
    cs_headerIdx cs' = cs_headerIdx cs \<and>
    represents (view (cs_db cs')) (apply_block (bd_Height bd) (bk_Transactions b) A)"
proof -
  define ts v T where "ts = bk_Transactions b" and "v = view (cs_db cs)"
    and "T = ab_tx (apply_block (bd_Height bd) ts A)"
  have stored: "txs_stored v (ab_tx A)" using assms(2) by (simp add: represents_def v_def)
  obtain base1 base2 where base1: "table (hash_key IX_Unspent) ToByteArray v base1" "rep [] base1 (ab_utxo A)"
    and base2: "table utxo_key enc_unspents v base2" "rep [] base2 (ent (ab_tx A) ` ab_utxo A)"
    using assms(2) by (auto simp: represents_def v_def)
  have fits: "fits ts A" and fresh: "fresh (ab_utxo A) ts" using assms(6) by (simp_all add: ts_def fits_def)
  note kn = fits_known [OF assms(2) fits]
  obtain tb where trim: "Block_Trim b = Some tb" using Trim_live [OF assms(4,5)] by blast
  have rep2: "rep [] base2 (ent T ` ab_utxo A)"
    using base2(2) unfolding T_def ent_old [OF fits represents_known [OF assms(2)]] .
  obtain m1 where m1: "PersistUnspendUTXOs_loop L (cs\<lparr>cs_batch := Some (head_ops bd tb ts)\<rparr>) (bd_Height bd) ts [] = Some (Inr m1)"
    and r1: "rep m1 base2 (ent T ` (ab_utxo A \<union> created ts - set (spent ts)))"
    using PersistUnspendUTXOs_loop_rep [where T = T and cs = "cs\<lparr>cs_batch := Some (head_ops bd tb ts)\<rparr>" and height = "bd_Height bd",
        OF assms(1) _ small_base [OF assms(3) base2(2)] _ _ rep2 fresh _ kn]
      base2(1) stored apply_block_tx [OF fits] by (auto simp: T_def v_def)
  obtain m2 where m2: "PersistUnspend_loop L (cs\<lparr>cs_batch := Some (head_ops bd tb ts @ map (put_op utxo_key enc_unspents) m1)\<rparr>) ts []
      = Some (Inr m2)"
    and r2: "rep m2 base1 (ab_utxo A \<union> created ts - set (spent ts))"
    using PersistUnspend_loop_rep [where cs = "cs\<lparr>cs_batch := Some (head_ops bd tb ts @ map (put_op utxo_key enc_unspents) m1)\<rparr>",
        OF assms(1) _ base1(2) fresh fresh_empty [OF base1(2) fresh]] base1(1) by (auto simp: v_def)
  obtain cs' where "persist L b cs = Some cs'" "view (cs_db cs') = apply_batch v (block_ops bd tb ts m1 m2)"
    "cs_headerIdx cs' = cs_headerIdx cs"
    using persist_run [OF assms(1,4,5) trim m1 [unfolded ts_def] m2 [unfolded ts_def]] by (auto simp: v_def ts_def)
  moreover have "represents (apply_batch v (block_ops bd tb ts m1 m2)) (apply_block (bd_Height bd) ts A)"
    by (rule block_ops_represent [OF assms(2) [folded v_def] fits base1(1) r2 base2(1) r1 [unfolded T_def]])
  ultimately show ?thesis using trim by (auto simp: v_def ts_def)
qed

section \<open>Reading a stored block\<close>

definition bare :: "Block \<Rightarrow> Block" where
  "bare b = b\<lparr>bk_Transactions := map plain (bk_Transactions b), bk_hash := None\<rparr>"

text \<open>A database that stores a block: its header with the hashes, and its transactions.\<close>

definition block_stored :: "(byte list \<Rightarrow> byte list option) \<Rightarrow> ledger_abs \<Rightarrow> Block \<Rightarrow> bool" where
  "block_stored v A b \<longleftrightarrow> live_block b \<and>
     (\<exists>bd tb. bk_Blockdata b = Some bd \<and> Block_Trim b = Some tb \<and>
        v (hash_key DATA_Header (Blockdata_Hash bd)) = Some (WriteUint64 0 @ tb) \<and>
        (\<forall>t\<in>set (bk_Transactions b). ab_tx A (tx_id t) = Some (plain t, bd_Height bd)))"

lemma load_txs_ok:
  assumes "leveldb_ok L view" and "txs_stored (view (cs_db cs)) T" and "\<forall>t\<in>set ts. T (tx_id t) = Some (plain t, height)"
  shows "load_txs L cs (map (\<lambda>t. new_Transaction\<lparr>tx_hash := Some (tx_id t)\<rparr>) ts) = Some (Inr (map plain ts))"
  using assms(3) by (induction ts) (auto simp: Transaction_Hash_def GetTransaction_ok [OF assms(1,2)])

lemma GetBlock_stored:
  assumes "leveldb_ok L view" and "represents (view (cs_db cs)) A" and "block_stored (view (cs_db cs)) A b"
    and "bk_Blockdata b = Some bd"
  shows "GetBlock L cs (Blockdata_Hash bd) = Some (Inr (bare b))"
proof -
  have live: "live_block b" using assms(3) by (simp add: block_stored_def)
  obtain tb where tb: "Block_Trim b = Some tb" "view (cs_db cs) (hash_key DATA_Header (Blockdata_Hash bd)) = Some (WriteUint64 0 @ tb)"
    and txs: "\<forall>t\<in>set (bk_Transactions b). ab_tx A (tx_id t) = Some (plain t, bd_Height bd)"
    using assms(3,4) by (auto simp: block_stored_def)
  have "FromTrimmedData (new_Block\<lparr>bk_Blockdata := Some z\<rparr>) (Rd k (tb @ [])) =
      Some (\<lparr>bk_Blockdata = Some bd, bk_Transactions = map (\<lambda>t. new_Transaction\<lparr>tx_hash := Some (tx_id t)\<rparr>) (bk_Transactions b),
             bk_hash = None\<rparr>, None, Rd k [])" for z k
    using Trim_live [OF live assms(4)] unfolding tb(1) option.inject by blast
  then show ?thesis
    using tb(2) load_txs_ok [OF assms(1) _ txs] assms(2,4)
    by (simp add: GetBlock_def store_Get_ok [OF assms(1)] uint64.roundtrip represents_def bare_def)
qed

lemma block_ops_header:
  "apply_batch v (block_ops bd tb ts m1 m2) (hash_key DATA_Header (Blockdata_Hash bd)) = Some (WriteUint64 0 @ tb)"
  "apply_batch v (block_ops bd tb ts m1 m2) (height_key (bd_Height bd)) = Some (Uint256_Serialize (Blockdata_Hash bd))"
  "apply_batch v (block_ops bd tb ts m1 m2) [SYS_CurrentBlock] =
     Some (Uint256_Serialize (Blockdata_Hash bd) @ WriteUint32 (bd_Height bd))"
  "h \<noteq> Blockdata_Hash bd \<Longrightarrow>
     apply_batch v (block_ops bd tb ts m1 m2) (hash_key DATA_Header h) = v (hash_key DATA_Header h)"
proof -
  have rest: "touches {DATA_Transaction, ST_Info, IX_Unspent_UTXO, IX_Unspent, SYS_CurrentBlock}
      (drop 2 (block_ops bd tb ts m1 m2))"
    using tx_ops_touches [of "bd_Height bd" ts]
    by (auto simp: touches_def block_ops_def head_ops_def)
  have split: "block_ops bd tb ts m1 m2 = take 2 (block_ops bd tb ts m1 m2) @ drop 2 (block_ops bd tb ts m1 m2)" by simp
  have two: "take 2 (block_ops bd tb ts m1 m2) =
      [BPut (hash_key DATA_Header (Blockdata_Hash bd)) (WriteUint64 0 @ tb),
       BPut (height_key (bd_Height bd)) (Uint256_Serialize (Blockdata_Hash bd))]"
    by (simp add: block_ops_def head_ops_def)
  show "apply_batch v (block_ops bd tb ts m1 m2) (hash_key DATA_Header (Blockdata_Hash bd)) = Some (WriteUint64 0 @ tb)"
    by (subst split, unfold apply_batch_append, subst get_untouched [OF rest])
       (simp_all add: two prefix_defs apply_batch_Cons hash_key_def height_key_def)
  show "apply_batch v (block_ops bd tb ts m1 m2) (height_key (bd_Height bd)) = Some (Uint256_Serialize (Blockdata_Hash bd))"
    by (subst split, unfold apply_batch_append, subst get_untouched [OF rest])
       (simp_all add: two prefix_defs apply_batch_Cons)
  show "apply_batch v (block_ops bd tb ts m1 m2) [SYS_CurrentBlock] =
     Some (Uint256_Serialize (Blockdata_Hash bd) @ WriteUint32 (bd_Height bd))"
    by (simp add: block_ops_def apply_batch_Cons)
  show "apply_batch v (block_ops bd tb ts m1 m2) (hash_key DATA_Header h) = v (hash_key DATA_Header h)"
    if "h \<noteq> Blockdata_Hash bd"
    using that
    by (subst split, unfold apply_batch_append, subst get_untouched [OF rest])
       (simp_all add: two prefix_defs apply_batch_Cons hash_key_inj height_key_def, simp add: hash_key_def)
qed

lemma block_ops_stored:
  assumes "live_block b" and "bk_Blockdata b = Some bd" and "Block_Trim b = Some tb" and "fits (bk_Transactions b) A"
  shows "block_stored (apply_batch v (block_ops bd tb (bk_Transactions b) m1 m2))
    (apply_block (bd_Height bd) (bk_Transactions b) A) b"
  unfolding block_stored_def using assms block_ops_header(1) apply_block_tx(2) [OF assms(4)] by auto

section \<open>Double spending\<close>

lemma double_spend_ok:
  assumes "leveldb_ok L view" and "table (hash_key IX_Unspent) ToByteArray (view (cs_db cs)) base" and "rep [] base U"
  shows "double_spend_loop L cs us \<longleftrightarrow> \<not> outpoint ` set us \<subseteq> U"
proof (induction us)
  case (Cons u us)
  have "set (base (ui_ReferTxID u)) = {i. (ui_ReferTxID u, i) \<in> U}" using rep_set [OF assms(3)] by simp
  then have "outpoint u \<in> U \<longleftrightarrow> ui_ReferTxOutputIndex u \<in> set (base (ui_ReferTxID u))" by (simp add: outpoint_def)
  then show ?case using Cons
    by (auto simp: unspent_Get [OF assms(1,2)] GetUint16Array_ToByteArray)
qed simp

lemma IsDoubleSpend_ok:
  assumes "leveldb_ok L view" and "represents (view (cs_db cs)) A"
  shows "IsDoubleSpend L cs t \<longleftrightarrow> \<not> outpoint ` set (tx_UTXOInputs t) \<subseteq> ab_utxo A"
proof -
  obtain base where base: "table (hash_key IX_Unspent) ToByteArray (view (cs_db cs)) base" "rep [] base (ab_utxo A)"
    using assms(2) by (auto simp: represents_def)
  show ?thesis unfolding IsDoubleSpend_def double_spend_ok [OF assms(1) base] by simp
qed

lemma ContainsUnspent_ok:
  assumes "leveldb_ok L view" and "represents (view (cs_db cs)) A"
  shows "fst (ContainsUnspent L cs h i) \<longleftrightarrow> (h, i) \<in> ab_utxo A"
proof -
  obtain base where base: "table (hash_key IX_Unspent) ToByteArray (view (cs_db cs)) base" "rep [] base (ab_utxo A)"
    using assms(2) by (auto simp: represents_def)
  then show ?thesis using rep_set [OF base(2), of h]
    by (auto simp: ContainsUnspent_def unspent_Get [OF assms(1) base(1)] GetUint16Array_ToByteArray)
qed

lemma IsTxHashDuplicate_ok:
  assumes "leveldb_ok L view" and "represents (view (cs_db cs)) A"
  shows "IsTxHashDuplicate L cs h \<longleftrightarrow> h \<in> dom (ab_tx A)"
  using assms by (auto simp: IsTxHashDuplicate_def store_Get_ok represents_def txs_stored_def dom_def split: option.splits)

lemma GetUnspent_ok:
  assumes "leveldb_ok L view" and "represents (view (cs_db cs)) A"
  shows "GetUnspent L cs h i =
    Some (if (h, i) \<in> ab_utxo A then Inr (tx_Outputs (fst (the (ab_tx A h))) ! unat i)
          else Inl (ErrNew ''[GetUnspent] NOT ContainsUnspent.''))"
proof (cases "(h, i) \<in> ab_utxo A")
  case True
  then obtain t height where "ab_tx A h = Some (t, height)" "unat i < length (tx_Outputs t)"
    using assms(2) unfolding represents_def by blast
  moreover have "txs_stored (view (cs_db cs)) (ab_tx A)" using assms(2) by (simp add: represents_def)
  ultimately show ?thesis using True
    by (simp add: GetUnspent_def ContainsUnspent_ok [OF assms] GetTransaction_ok [OF assms(1)])
qed (simp add: GetUnspent_def ContainsUnspent_ok [OF assms])

lemma GetUnspentFrom_ok:
  assumes "leveldb_ok L view" and "represents (view (cs_db cs)) A" and "small A"
  shows "\<exists>us. GetUnspentElementFromProgramHash L cs p a h = Some us \<and>
    (let E = {e. ((p, a, h), e) \<in> ent (ab_tx A) ` ab_utxo A}
     in case us of Inl _ \<Rightarrow> E = {} | Inr xs \<Rightarrow> E \<noteq> {} \<and> distinct xs \<and> set xs = E)"
proof -
  obtain base where base: "table utxo_key enc_unspents (view (cs_db cs)) base" "rep [] base (ent (ab_tx A) ` ab_utxo A)"
    using assms(2) by (auto simp: represents_def)
  have "set (base (p, a, h)) = {e. ((p, a, h), e) \<in> ent (ab_tx A) ` ab_utxo A}" "distinct (base (p, a, h))"
    using rep_set [OF base(2), of "(p, a, h)"] rep_distinct [OF base(2), of "(p, a, h)"] by simp_all
  then show ?thesis
    unfolding GetUnspentElement_ok [OF assms(1) base(1) small_base [OF assms(3) base(2)]] Let_def
    by (cases "base (p, a, h)") (simp_all, force)
qed

end
