(* ===== verification/Store_Rollback.thy ===== *)
theory Store_Rollback
  imports Store_Persist
begin

text \<open>
  Rolling a block back: the two unspent indices and the transactions return to what they
  stood for before the block, so that the store's \<^verbatim>\<open>SaveBlock\<close> and \<^verbatim>\<open>RollbackBlock\<close> refine
  adding and removing a block of the abstract ledger.
\<close>

section \<open>Removing and restoring entries\<close>

lemma remove_position_ok:
  assumes "rep m base R" and "(k, e) \<in> R"
    and "\<And>e'. (k, e') \<in> R \<Longrightarrow> (uu_Txid e' = h \<and> uu_Index e' = i) \<longleftrightarrow> e' = e"
  shows "\<exists>ys. remove_position h i (eff m base k) = Some ys \<and> rep (AList.update k ys m) base (R - {(k, e)})"
proof -
  define P where "P u \<longleftrightarrow> uu_Txid u = h \<and> uu_Index u = i" for u :: UTXOUnspent
  define xs where "xs = eff m base k"
  have mem: "y \<in> set xs \<longleftrightarrow> (k, y) \<in> R" for y using rep_set [OF assms(1), of k] by (simp add: xs_def)
  then have "e \<in> set xs" "P e" using assms(2,3) by (simp_all add: P_def)
  then obtain n where n: "first_index P xs = Some n" using first_index_None [of P xs] by (cases "first_index P xs") auto
  then have "n < length xs" "P (xs ! n)" using first_index_Some by auto
  then have "xs ! n = e" using assms(3) mem [of "xs ! n"] by (simp add: P_def)
  then have "xs = take n xs @ e # drop (Suc n) xs" using id_take_nth_drop [OF \<open>n < length xs\<close>] by simp
  then have "rep (AList.update k (take n xs @ drop (Suc n) xs) m) base (R - {(k, e)})"
    by (intro rep_drop [OF assms(1,2)]) (simp add: xs_def)
  moreover have "remove_position h i xs = Some (take n xs @ drop (Suc n) xs)"
    using n \<open>n < length xs\<close> by (simp add: remove_position_def P_def [abs_def])
  ultimately show ?thesis by (auto simp: xs_def)
qed

lemma ent_only:
  assumes "ent T (h, i) = (k, e)" and "(k, e') \<in> ent T ` U"
  shows "(uu_Txid e' = h \<and> uu_Index e' = ucast i) \<longleftrightarrow> e' = e"
proof
  assume e': "uu_Txid e' = h \<and> uu_Index e' = ucast i"
  from assms(2) obtain x where "(k, e') = ent T x" by (rule imageE)
  then have x: "ent T x = (k, e')" by (rule sym)
  have "fst x = h" "(ucast (snd x) :: u32) = ucast i" using ent_snd [of T x] e' by (simp_all add: x)
  then have "x = (h, i)" by (simp add: prod_eq_iff ucast_u16_inj)
  then show "e' = e" using x assms(1) by simp
next
  assume "e' = e"
  then show "uu_Txid e' = h \<and> uu_Index e' = ucast i" using ent_snd [of T "(h, i)"] assms(1) by simp
qed

lemma drop_Cons:
  assumes "drop n xs = y # ys"
  shows "n < length xs" "xs ! n = y" "drop (Suc n) xs = ys"
proof -
  show n: "n < length xs" using assms by (metis drop_all leI list.distinct(1))
  show "xs ! n = y" "drop (Suc n) xs = ys" using Cons_nth_drop_Suc [OF n] assms by simp_all
qed

lemma rollback_utxo_outputs_rep:
  assumes "leveldb_ok L view" and "table utxo_key enc_unspents (view (cs_db cs)) base"
    and "\<And>k. 8 * length (base k) \<le> maxAlloc"
    and "T h = Some (t, height)" and "Transaction_Hash txn = Some (h, txn')"
    and "rep m base (ent T ` V)" and "drop n (tx_Outputs t) = outs" and "n + length outs \<le> 65536"
    and "out_set h n (length outs) \<subseteq> V"
  shows "\<exists>m'. rollback_utxo_outputs L cs height txn n outs m = Some (Inr m') \<and>
    rep m' base (ent T ` (V - out_set h n (length outs)))"
  using assms(6-9)
proof (induction outs arbitrary: n m V)
  case (Cons out outs)
  note n = drop_Cons [OF Cons.prems(2)]
  define k e where "k = (to_ProgramHash out, to_AssetID out, height)"
    and "e = \<lparr>uu_Txid = h, uu_Index = (word_of_nat n :: u32), uu_Value = to_Value out\<rparr>"
  have ke: "ent T (h, word_of_nat n) = (k, e)"
    using ent_output [of T h t height n, OF assms(4)] Cons.prems(3) n(2) by (simp add: k_def e_def)
  have idx: "(ucast (word_of_nat n :: u16) :: u32) = word_of_nat n" using Cons.prems(3) by (simp add: ucast_index)
  have in_R: "(k, e) \<in> ent T ` V"
    unfolding ke [symmetric] ent_mem using Cons.prems(4) by (auto simp: out_set_Suc)
  obtain ys where ys: "remove_position h (word_of_nat n) (eff m base k) = Some ys"
    and "rep (AList.update k ys m) base (ent T ` V - {(k, e)})"
    using remove_position_ok [OF Cons.prems(1) in_R ent_only [OF ke, unfolded idx]] by blast
  then have rep: "rep (AList.update k ys m) base (ent T ` (V - {(h, word_of_nat n)}))"
    unfolding ke [symmetric] ent_diff by simp
  have ne: "eff m base k \<noteq> []" using rep_set [OF Cons.prems(1), of k] in_R by auto
  have load: "(case map_of m k of
       Some us \<Rightarrow> Some (Inr us)
     | None \<Rightarrow> GetUnspentElementFromProgramHash L cs (to_ProgramHash out) (to_AssetID out) height) = Some (Inr (eff m base k))"
    using GetUnspentElement_ok [OF assms(1,2), of "to_ProgramHash out" "to_AssetID out" height] assms(3) [of k] ne
    by (auto simp: eff_def k_def split: option.splits)
  have "\<exists>m'. rollback_utxo_outputs L cs height txn (Suc n) outs (AList.update k ys m) = Some (Inr m') \<and>
      rep m' base (ent T ` (V - {(h, word_of_nat n)} - out_set h (Suc n) (length outs)))"
    by (rule Cons.IH [OF rep n(3)])
       (use Cons.prems(3,4) out_set_fresh [of n "length outs" h] in \<open>auto simp: out_set_Suc\<close>)
  moreover have "V - {(h, word_of_nat n)} - out_set h (Suc n) (length outs) = V - out_set h n (Suc (length outs))"
    by (auto simp: out_set_Suc)
  moreover have "rollback_utxo_outputs L cs height txn n (out # outs) m =
      rollback_utxo_outputs L cs height txn (Suc n) outs (AList.update k ys m)"
    unfolding rollback_utxo_outputs.simps Let_def k_def [symmetric] load by (simp add: assms(5) ys)
  ultimately show ?case by simp
qed simp

lemma rollback_utxo_inputs_rep:
  assumes "leveldb_ok L view" and "table utxo_key enc_unspents (view (cs_db cs)) base"
    and "\<And>k. 8 * length (base k) \<le> maxAlloc" and "txs_stored (view (cs_db cs)) T"
    and "rep m base (ent T ` V)" and "distinct (map outpoint us)" and "outpoint ` set us \<inter> V = {}"
    and "known T (outpoint ` set us)"
  shows "\<exists>m'. rollback_utxo_inputs L cs us m = Some (Inr m') \<and> rep m' base (ent T ` (V \<union> outpoint ` set us))"
  using assms(5-8)
proof (induction us arbitrary: m V)
  case (Cons u us)
  define h i where "h = ui_ReferTxID u" and "i = ui_ReferTxOutputIndex u"
  have hi: "outpoint u = (h, i)" by (simp add: outpoint_def h_def i_def)
  obtain t height where t: "T h = Some (t, height)" and i: "unat i < length (tx_Outputs t)"
    using Cons.prems(4) hi by (auto simp: known_def)
  define out where "out = tx_Outputs t ! unat i"
  define k e where "k = (to_ProgramHash out, to_AssetID out, height)"
    and "e = \<lparr>uu_Txid = h, uu_Index = (ucast i :: u32), uu_Value = to_Value out\<rparr>"
  have ke: "ent T (h, i) = (k, e)"
    using ent_Some [of T h t height i] t by (simp add: k_def e_def out_def Let_def)
  have "(k, e) \<notin> ent T ` V" unfolding ke [symmetric] ent_mem using Cons.prems(3) hi by auto
  from rep_add [OF Cons.prems(1) this]
  have rep: "rep (AList.update k (eff m base k @ [e]) m) base (ent T ` insert (h, i) V)" by (simp add: ke)
  have load: "(case map_of m k of
       Some us \<Rightarrow> Some us
     | None \<Rightarrow> do {
         r \<leftarrow> GetUnspentElementFromProgramHash L cs (to_ProgramHash out) (to_AssetID out) height;
         Some (case r of Inl err \<Rightarrow> [] | Inr us \<Rightarrow> us) }) = Some (eff m base k)"
    using GetUnspentElement_ok [OF assms(1,2), of "to_ProgramHash out" "to_AssetID out" height] assms(3) [of k]
    by (simp add: eff_def k_def split: option.splits)
  have "\<exists>m'. rollback_utxo_inputs L cs us (AList.update k (eff m base k @ [e]) m) = Some (Inr m') \<and>
      rep m' base (ent T ` (insert (h, i) V \<union> outpoint ` set us))"
    by (rule Cons.IH [OF rep]) (use Cons.prems(2-4) in \<open>auto simp: hi [symmetric] known_def\<close>)
  moreover have "insert (h, i) V \<union> outpoint ` set us = V \<union> outpoint ` set (u # us)" by (auto simp: hi)
  moreover have "GetTransaction L cs (ui_ReferTxID u) = Some (Inr (t, height))"
    using GetTransaction_ok [OF assms(1,4), of h] t by (simp add: h_def)
  moreover have "rollback_utxo_inputs L cs (u # us) m = rollback_utxo_inputs L cs us (AList.update k (eff m base k @ [e]) m)"
    if "GetTransaction L cs (ui_ReferTxID u) = Some (Inr (t, height))"
    unfolding rollback_utxo_inputs.simps that bind.simps sum.case prod.case Let_def i_def [symmetric] out_def [symmetric]
      k_def [symmetric] load stored_Hash [OF assms(4) t] e_def [symmetric]
    using i by simp
  ultimately show ?case by (simp only: Un_insert_left ex_simps)
qed simp

lemma ToByteArray_empty: "ToByteArray ws = [] \<longleftrightarrow> ws = []"
  by (cases ws) simp_all

lemma restore_inputs_rep:
  assumes "leveldb_ok L view" and "table (hash_key IX_Unspent) ToByteArray (view (cs_db cs)) base"
    and "rep m base V" and "distinct (map outpoint us)" and "outpoint ` set us \<inter> V = {}"
  shows "\<exists>m'. restore_inputs L cs us m = Inr m' \<and> rep m' base (V \<union> outpoint ` set us) \<and>
    fst ` set m' \<subseteq> fst ` set m \<union> ui_ReferTxID ` set us"
  using assms(3-5)
proof (induction us arbitrary: m V)
  case (Cons u us)
  define h i where "h = ui_ReferTxID u" and "i = ui_ReferTxOutputIndex u"
  have hi: "outpoint u = (h, i)" by (simp add: outpoint_def h_def i_def)
  have "(h, i) \<notin> V" using Cons.prems(3) hi by auto
  note rep = rep_add [OF Cons.prems(1) this]
  have load: "(case map_of m h of
              Some xs \<Rightarrow> Inr xs
            | None \<Rightarrow>
                (case store_Get L cs (hash_key IX_Unspent h) of
                   (unspentValue, _) \<Rightarrow>
                     if unspentValue = [] then Inr []
                     else (case GetUint16Array (Some unspentValue) of
                             (_, Some err) \<Rightarrow> Inl err
                           | (None, None) \<Rightarrow> Inr []
                           | (Some xs, None) \<Rightarrow> Inr xs))) = Inr (eff m base h)"
    by (auto simp: eff_def unspent_Get [OF assms(1,2)] GetUint16Array_ToByteArray ToByteArray_empty split: option.splits)
  obtain m' where m': "restore_inputs L cs us (AList.update h (eff m base h @ [i]) m) = Inr m'"
      "rep m' base (insert (h, i) V \<union> outpoint ` set us)"
      "fst ` set m' \<subseteq> fst ` set (AList.update h (eff m base h @ [i]) m) \<union> ui_ReferTxID ` set us"
    using Cons.IH [OF rep] Cons.prems(2,3) by (auto simp: hi [symmetric])
  moreover have "insert (h, i) V \<union> outpoint ` set us = V \<union> outpoint ` set (u # us)" by (auto simp: hi)
  moreover have "fst ` set (AList.update h (eff m base h @ [i]) m) \<subseteq> insert h (fst ` set m)"
    unfolding set_map [symmetric] update_keys by auto
  then have "fst ` set m' \<subseteq> fst ` set m \<union> ui_ReferTxID ` set (u # us)"
    using m'(3) by (simp add: h_def) blast
  ultimately show ?case
    unfolding restore_inputs.simps h_def [symmetric] load sum.case i_def [symmetric] by simp
qed simp

section \<open>Undoing the transactions of a block\<close>

text \<open>
  The transactions of a block can be undone from a set of unspent outpoints when their own
  outputs are all in it and the outputs they spent are not.
\<close>

definition undoable :: "(Uint256 \<times> u16) set \<Rightarrow> Transaction list \<Rightarrow> bool" where
  "undoable V ts \<longleftrightarrow> list_all live_tx ts \<and> distinct (map tx_id ts) \<and>
     (\<forall>t\<in>set ts. length (tx_Outputs t) \<le> 65536) \<and>
     created ts \<subseteq> V \<and> distinct (spent ts) \<and> set (spent ts) \<inter> V = {}"

definition before_tx :: "Transaction \<Rightarrow> (Uint256 \<times> u16) set \<Rightarrow> (Uint256 \<times> u16) set" where
  "before_tx t V = V - created [t] \<union> set (spent [t])"

lemma fresh_undoable:
  assumes "fresh U ts"
  shows "undoable (U \<union> created ts - set (spent ts)) ts"
    and "U \<union> created ts - set (spent ts) - created ts \<union> set (spent ts) = U"
proof -
  have "created ts \<inter> U = {}" using assms unfolding fresh_def by (fastforce dest: created_ids)
  moreover have "set (spent ts) \<subseteq> U" using assms by (simp add: fresh_def)
  ultimately show "undoable (U \<union> created ts - set (spent ts)) ts"
    "U \<union> created ts - set (spent ts) - created ts \<union> set (spent ts) = U"
    using assms unfolding fresh_def undoable_def by auto
qed

lemma undoable_ConsD:
  assumes "undoable V (t # ts)"
  shows "live_tx t" "length (tx_Outputs t) \<le> 65536" "created [t] \<subseteq> V" "distinct (spent [t])" "set (spent [t]) \<inter> V = {}"
    "created ts \<inter> created [t] = {}" "undoable (before_tx t V) ts"
    "before_tx t V - created ts \<union> set (spent ts) = V - created (t # ts) \<union> set (spent (t # ts))"
proof -
  have cr: "created (t # ts) = created [t] \<union> created ts" "spent (t # ts) = spent [t] @ spent ts"
    by (rule created_Cons spent_Cons)+
  show *: "live_tx t" "length (tx_Outputs t) \<le> 65536" "created [t] \<subseteq> V" "distinct (spent [t])" "set (spent [t]) \<inter> V = {}"
    using assms unfolding undoable_def cr by auto
  have "tx_id t \<notin> tx_id ` set ts" using assms by (simp add: undoable_def)
  then show **: "created ts \<inter> created [t] = {}"
    by (auto dest: created_ids simp: created_one out_set_def split: if_splits)
  show "undoable (before_tx t V) ts"
    using assms ** unfolding undoable_def cr before_tx_def by auto
  show "before_tx t V - created ts \<union> set (spent ts) = V - created (t # ts) \<union> set (spent (t # ts))"
    using assms * ** unfolding undoable_def cr before_tx_def by auto
qed

lemma RollbackUnspendUTXOs_loop_rep:
  assumes "leveldb_ok L view" and "table utxo_key enc_unspents (view (cs_db cs)) base"
    and "\<And>k. 8 * length (base k) \<le> maxAlloc" and "txs_stored (view (cs_db cs)) T"
    and "rep m base (ent T ` V)" and "undoable V ts" and "\<forall>t\<in>set ts. T (tx_id t) = Some (plain t, height)"
    and "known T (set (spent ts))"
  shows "\<exists>m'. RollbackUnspendUTXOs_loop L cs height ts m = Some (Inr m') \<and>
    rep m' base (ent T ` (V - created ts \<union> set (spent ts)))"
  using assms(5-8)
proof (induction ts arbitrary: m V)
  case (Cons t ts)
  note D = undoable_ConsD [OF Cons.prems(2)]
  obtain t' where hash: "Transaction_Hash t = Some (tx_id t, t')" using live_Hash [OF D(1)] ..
  have T: "T (tx_id t) = Some (plain t, height)" using Cons.prems(3) by simp
  have kn: "known T (set (spent [t]))" "known T (set (spent ts))"
    using Cons.prems(4) unfolding spent_Cons [of t ts] known_def by auto
  have IH: "rep m' base (ent T ` before_tx t V) \<Longrightarrow> \<exists>m''. RollbackUnspendUTXOs_loop L cs height ts m' = Some (Inr m'') \<and>
      rep m'' base (ent T ` (V - created (t # ts) \<union> set (spent (t # ts))))" for m'
    using Cons.IH [OF _ D(7)] Cons.prems(3) kn(2) unfolding D(8) by simp
  show ?case
  proof (cases "indexed t")
    case False
    then have "before_tx t V = V" by (simp add: before_tx_def created_one spent_one spends_def)
    then show ?thesis using IH [of m] Cons.prems(1) False by (simp add: indexed_def)
  next
    case True
    then have cr: "created [t] = out_set (tx_id t) 0 (length (tx_Outputs t))" by (simp add: created_one)
    obtain m1 where m1: "rollback_utxo_outputs L cs height t 0 (tx_Outputs t) m = Some (Inr m1)"
      "rep m1 base (ent T ` (V - created [t]))"
      using rollback_utxo_outputs_rep [OF assms(1-3) T hash Cons.prems(1), of 0 "tx_Outputs t"] D(2,3) cr by auto
    show ?thesis
    proof (cases "IsCoinBaseTx t")
      case True
      then have "before_tx t V = V - created [t]" by (simp add: before_tx_def spent_one spends_def)
      then show ?thesis using IH [of m1] m1 True \<open>indexed t\<close> by (simp add: indexed_def)
    next
      case False
      then have sp: "spent [t] = map outpoint (tx_UTXOInputs t)" using \<open>indexed t\<close> by (simp add: spent_one spends_def)
      have "distinct (map outpoint (tx_UTXOInputs t))" "outpoint ` set (tx_UTXOInputs t) \<inter> (V - created [t]) = {}"
        "known T (outpoint ` set (tx_UTXOInputs t))"
        using D(4,5) kn(1) unfolding sp by auto
      from rollback_utxo_inputs_rep [OF assms(1-4) m1(2) this] obtain m2
        where "rollback_utxo_inputs L cs (tx_UTXOInputs t) m1 = Some (Inr m2)" "rep m2 base (ent T ` before_tx t V)"
        unfolding before_tx_def sp by auto
      then show ?thesis using IH [of m2] m1(1) False \<open>indexed t\<close> by (simp add: indexed_def)
    qed
  qed
qed simp

definition unspent_dels :: "Transaction list \<Rightarrow> batch_op list" where
  "unspent_dels ts = map (\<lambda>t. BDelete (hash_key IX_Unspent (tx_id t))) (filter indexed ts)"

lemma RollbackUnspend_loop_rep:
  assumes "leveldb_ok L view" and "table (hash_key IX_Unspent) ToByteArray (view (cs_db cs)) base"
    and "rep m base V" and "list_all live_tx ts" and "distinct (spent ts)" and "set (spent ts) \<inter> V = {}"
    and "cs_batch cs = Some ops"
  shows "\<exists>m'. RollbackUnspend_loop L ts m cs = Some (Inr m', cs\<lparr>cs_batch := Some (ops @ unspent_dels ts)\<rparr>) \<and>
    rep m' base (V \<union> set (spent ts)) \<and> fst ` set m' \<subseteq> fst ` set m \<union> fst ` set (spent ts)"
  using assms(2-7)
proof (induction ts arbitrary: m V cs ops)
  case Nil
  then show ?case by (simp add: unspent_dels_def)
next
  case (Cons t ts)
  have sc: "spent (t # ts) = spent [t] @ spent ts" by (rule spent_Cons)
  obtain t' where hash: "Transaction_Hash t = Some (tx_id t, t')" using live_Hash Cons.prems(3) by auto
  show ?case
  proof (cases "indexed t")
    case False
    then have "spent [t] = []" by (simp add: spent_one spends_def)
    then show ?thesis using Cons.IH [OF Cons.prems(1,2) _ _ _ Cons.prems(6)] Cons.prems(3-5) False
      unfolding sc by (simp add: indexed_def unspent_dels_def)
  next
    case True
    define cs1 where "cs1 = cs\<lparr>cs_batch := Some (ops @ [BDelete (hash_key IX_Unspent (tx_id t))])\<rparr>"
    have tab: "table (hash_key IX_Unspent) ToByteArray (view (cs_db cs1)) base" using Cons.prems(1) by (simp add: cs1_def)
    have IH: "\<exists>m''. RollbackUnspend_loop L ts m' cs1 = Some (Inr m'', cs\<lparr>cs_batch := Some (ops @ unspent_dels (t # ts))\<rparr>) \<and>
        rep m'' base (V \<union> set (spent (t # ts))) \<and> fst ` set m'' \<subseteq> fst ` set m' \<union> fst ` set (spent ts)"
      if "rep m' base (V \<union> set (spent [t]))" for m'
      using Cons.IH [OF tab that, of "ops @ [BDelete (hash_key IX_Unspent (tx_id t))]"] Cons.prems(3-5) True
      unfolding sc by (simp add: cs1_def unspent_dels_def Un_assoc Int_Un_distrib Int_commute)
    have step: "RollbackUnspend_loop L (t # ts) m cs = (if IsCoinBaseTx t then RollbackUnspend_loop L ts m cs1
         else (case restore_inputs L cs1 (tx_UTXOInputs t) m of
                 Inl err \<Rightarrow> Some (Inl err, cs1)
               | Inr m \<Rightarrow> RollbackUnspend_loop L ts m cs1))"
      using True hash Cons.prems(6) by (simp add: indexed_def batch_add_ok cs1_def split: sum.splits)
    show ?thesis
    proof (cases "IsCoinBaseTx t")
      case True
      then have "spent [t] = []" by (simp add: spent_one spends_def)
      then show ?thesis using IH [of m] Cons.prems(2) True unfolding step sc by simp
    next
      case False
      then have sp: "spent [t] = map outpoint (tx_UTXOInputs t)" using \<open>indexed t\<close> by (simp add: spent_one spends_def)
      have "distinct (map outpoint (tx_UTXOInputs t))" "outpoint ` set (tx_UTXOInputs t) \<inter> V = {}"
        using Cons.prems(4,5) unfolding sc sp by auto
      from restore_inputs_rep [OF assms(1) tab Cons.prems(2) this] obtain m2
        where m2: "restore_inputs L cs1 (tx_UTXOInputs t) m = Inr m2" "rep m2 base (V \<union> set (spent [t]))"
          "fst ` set m2 \<subseteq> fst ` set m \<union> ui_ReferTxID ` set (tx_UTXOInputs t)"
        unfolding sp by auto
      moreover have "ui_ReferTxID ` set (tx_UTXOInputs t) = fst ` set (spent [t])"
        unfolding sp by (force simp: outpoint_def)
      ultimately have keys: "fst ` set m2 \<subseteq> fst ` set m \<union> fst ` set (spent [t])" by simp
      obtain m'' where m'': "RollbackUnspend_loop L ts m2 cs1 = Some (Inr m'', cs\<lparr>cs_batch := Some (ops @ unspent_dels (t # ts))\<rparr>)"
        "rep m'' base (V \<union> set (spent (t # ts)))" "fst ` set m'' \<subseteq> fst ` set m2 \<union> fst ` set (spent ts)"
        using IH [OF m2(2)] by blast
      have eq: "fst ` set (spent (t # ts)) = fst ` set (spent [t]) \<union> fst ` set (spent ts)"
        unfolding sc by (simp add: image_Un)
      have "fst ` set m'' \<subseteq> fst ` set m \<union> fst ` set (spent (t # ts))"
        using subset_trans [OF m''(3) Un_mono [OF keys subset_refl]] unfolding eq Un_assoc .
      then show ?thesis using False m2(1) m''(1,2) unfolding step by simp
    qed
  qed
qed

section \<open>Rolling back refines removing a block\<close>

definition tx_dels :: "Transaction \<Rightarrow> batch_op list" where
  "tx_dels t = BDelete (hash_key DATA_Transaction (tx_id t)) #
     (if tx_TxType t = RegisterAsset then [BDelete (hash_key ST_Info (tx_id t))] else [])"

lemma RollbackTransactions_ops:
  assumes "list_all live_tx ts" and "cs_batch cs = Some ops"
  shows "RollbackTransactions_loop ts cs = Some (cs\<lparr>cs_batch := Some (ops @ concat (map tx_dels ts))\<rparr>)"
  using assms
proof (induction ts arbitrary: cs ops)
  case (Cons t ts)
  obtain t' where "Transaction_Hash t = Some (tx_id t, t')" using live_Hash Cons.prems(1) by auto
  then show ?case using Cons
    by (simp add: RollbackTransaction_def RollbackAsset_def batch_add_ok tx_dels_def)
qed simp

lemma tx_dels_get:
  "apply_batch v (concat (map tx_dels ts)) (hash_key DATA_Transaction h) =
     (if h \<in> tx_id ` set ts then None else v (hash_key DATA_Transaction h))"
proof (induction ts arbitrary: v)
  case (Cons t ts)
  have "apply_batch v (tx_dels t) (hash_key DATA_Transaction h) =
      (if h = tx_id t then None else v (hash_key DATA_Transaction h))" for v
    by (simp add: tx_dels_def apply_batch_Cons hash_key_inj prefix_defs)
  then show ?case using Cons by (cases "h = tx_id t") simp_all
qed simp

definition undo_ops :: "Blockdata \<Rightarrow> Transaction list \<Rightarrow> utxo_map \<Rightarrow> unspent_map \<Rightarrow> batch_op list" where
  "undo_ops bd ts m1 m2 =
     [BDelete (hash_key DATA_Header (Blockdata_Hash bd)), BDelete (height_key (bd_Height bd))] @
     concat (map tx_dels ts) @ map (put_op utxo_key enc_unspents) m1 @ unspent_dels ts @
     map (put_op (hash_key IX_Unspent) ToByteArray) m2 @
     [BPut [SYS_CurrentBlock] (Uint256_Serialize (bd_PrevBlockHash bd) @ WriteUint32 (bd_Height bd - 1))]"

lemma rollback_run:
  assumes "leveldb_ok L view" and "live_block b" and "bk_Blockdata b = Some bd"
    and "ts = bk_Transactions b"
    and "head = [BDelete (hash_key DATA_Header (Blockdata_Hash bd)), BDelete (height_key (bd_Height bd))]"
    and "RollbackUnspendUTXOs_loop L (cs\<lparr>cs_batch := Some (head @ concat (map tx_dels ts))\<rparr>) (bd_Height bd) ts [] = Some (Inr m1)"
    and "cs1 = cs\<lparr>cs_batch := Some (head @ concat (map tx_dels ts) @ map (put_op utxo_key enc_unspents) m1)\<rparr>"
    and "RollbackUnspend_loop L ts [] cs1 =
      Some (Inr m2, cs1\<lparr>cs_batch := Some (head @ concat (map tx_dels ts) @ map (put_op utxo_key enc_unspents) m1 @ unspent_dels ts)\<rparr>)"
  shows "\<exists>cs'. rollback L b cs = Some cs' \<and>
    view (cs_db cs') = apply_batch (view (cs_db cs)) (undo_ops bd ts m1 m2) \<and>
    cs_headerIdx cs' = cs_headerIdx cs \<and> cs_currentBlockHeight cs' = bd_Height bd - 1"
proof -
  obtain b' where hash: "Block_Hash b = Some (Blockdata_Hash bd, b')" using live_Block_Hash [OF assms(2,3)] ..
  have live: "list_all live_tx ts" using assms(2,4) by (simp add: live_block_def)
  have txs: "RollbackTransactions_loop ts (cs\<lparr>cs_batch := Some head\<rparr>) =
      Some (cs\<lparr>cs_batch := Some (head @ concat (map tx_dels ts))\<rparr>)"
    using RollbackTransactions_ops [OF live, of "cs\<lparr>cs_batch := Some head\<rparr>" head] by simp
  define cs2 where "cs2 = cs\<lparr>cs_batch := Some (undo_ops bd ts m1 m2)\<rparr>"
  have "rollback L b cs = Some ((snd (BatchCommit L cs2))\<lparr>cs_bestHeight := bd_Height bd - 1, cs_currentBlockHeight := bd_Height bd - 1\<rparr>)"
    using txs assms(6,8)
    by (simp add: rollback_def RollbackTrimemedBlock_def RollbackBlockHash_def RollbackTransactions_def
        RollbackUnspendUTXOs_def RollbackUnspend_def RollbackCurrentBlock_def block_header_def NewBatch_def
        hash assms(3) assms(4) [symmetric] assms(5,7) batch_add_ok cs2_def undo_ops_def put_utxos_ops put_unspents_ops)
  moreover have "view (cs_db (snd (BatchCommit L cs2))) = apply_batch (view (cs_db cs)) (undo_ops bd ts m1 m2)"
    using BatchCommit_ok [OF assms(1), of cs2] by (simp add: cs2_def)
  moreover have "cs_headerIdx (snd (BatchCommit L cs2)) = cs_headerIdx cs"
    by (simp add: BatchCommit_def cs2_def split: prod.splits)
  ultimately show ?thesis by simp
qed

text \<open>Deleting the entries of the block's own transactions removes their outputs.\<close>

lemma unspent_dels_table:
  assumes "table (hash_key IX_Unspent) ToByteArray v base"
  shows "table (hash_key IX_Unspent) ToByteArray (apply_batch v (unspent_dels ts))
    (\<lambda>h. if h \<in> tx_id ` set (filter indexed ts) then [] else base h)"
proof -
  have "apply_batch v (unspent_dels ts) (hash_key IX_Unspent h) =
      (if h \<in> tx_id ` set (filter indexed ts) then None else v (hash_key IX_Unspent h))" for h
    unfolding unspent_dels_def
    by (induction ts arbitrary: v) (auto simp: apply_batch_Cons hash_key_inj)
  then show ?thesis using assms by (simp add: table_def)
qed

lemma undo_rep:
  assumes "rep m base (U \<union> created ts)" and "fresh U ts" and "fst ` set m \<subseteq> fst ` set (spent ts)"
  shows "rep m (\<lambda>h. if h \<in> tx_id ` set (filter indexed ts) then [] else base h) U"
proof -
  define ids where "ids = tx_id ` set (filter indexed ts)"
  have fr: "(h, i) \<notin> U" if "h \<in> ids" for h i using assms(2) that by (auto simp: fresh_def ids_def)
  have sp: "set (spent ts) \<subseteq> U" using assms(2) by (simp add: fresh_def)
  have m: "map_of m h = None" if "h \<in> ids" for h
  proof -
    have "h \<notin> fst ` set (spent ts)" using fr [OF that] sp by auto
    then show ?thesis using assms(3) by (auto simp: map_of_eq_None_iff)
  qed
  have cr: "(h, i) \<notin> created ts" if "h \<notin> ids" for h i using that by (auto simp: created_def out_set_def ids_def)
  have "distinct (eff m (\<lambda>h. if h \<in> ids then [] else base h) h) \<and>
      set (eff m (\<lambda>h. if h \<in> ids then [] else base h) h) = {e. (h, e) \<in> U}" for h
  proof (cases "h \<in> ids")
    case True
    then show ?thesis using m fr by (simp add: eff_def)
  next
    case False
    then have "eff m (\<lambda>h. if h \<in> ids then [] else base h) h = eff m base h" by (simp add: eff_def)
    then show ?thesis using rep_distinct [OF assms(1), of h] rep_set [OF assms(1), of h] cr [OF False] by simp
  qed
  then show ?thesis using rep_keys [OF assms(1)] unfolding rep_def ids_def by blast
qed

lemma undo_ops_represent:
  assumes "represents v (apply_block (bd_Height bd) ts A)" and "fits ts A" and "known (ab_tx A) (ab_utxo A)"
    and "table (hash_key IX_Unspent) ToByteArray v base1" and "rep m2 base1 (ab_utxo A \<union> created ts)"
    and "fst ` set m2 \<subseteq> fst ` set (spent ts)"
    and "table utxo_key enc_unspents v base2" and "rep m1 base2 (ent (ab_tx A) ` ab_utxo A)"
  shows "represents (apply_batch v (undo_ops bd ts m1 m2)) A"
proof -
  define pre where "pre = [BDelete (hash_key DATA_Header (Blockdata_Hash bd)), BDelete (height_key (bd_Height bd))] @ concat (map tx_dels ts)"
  define u1 u2 where "u1 = map (put_op utxo_key enc_unspents) m1" and "u2 = map (put_op (hash_key IX_Unspent) ToByteArray) m2"
  define cur where "cur = [BPut [SYS_CurrentBlock] (Uint256_Serialize (bd_PrevBlockHash bd) @ WriteUint32 (bd_Height bd - 1))]"
  define d where "d = unspent_dels ts @ u2"
  define base where "base h = (if h \<in> tx_id ` set (filter indexed ts) then [] else base1 h)" for h
  have split: "undo_ops bd ts m1 m2 = pre @ u1 @ d @ cur"
    by (simp add: undo_ops_def d_def pre_def u1_def u2_def cur_def)
  have t: "touches {DATA_Header, DATA_BlockHash, DATA_Transaction, ST_Info} pre" "touches {IX_Unspent_UTXO} u1"
    "touches {IX_Unspent} d" "touches {SYS_CurrentBlock} cur"
    by (auto simp: touches_def d_def pre_def cur_def u1_def u2_def tx_dels_def unspent_dels_def)
  have rep2: "rep m2 base (ab_utxo A)"
    using undo_rep [OF assms(5) _ assms(6)] assms(2) by (simp add: fits_def base_def [abs_def])
  have unspent: "table (hash_key IX_Unspent) ToByteArray (apply_batch v (pre @ u1 @ d @ cur)) (eff m2 base)"
    unfolding d_def apply_batch_append u2_def base_def [abs_def]
    by (intro table_untouched [OF _ t(4)] table_put [OF inj_hash_key] unspent_dels_table table_untouched [OF _ t(2)]
        table_untouched [OF _ t(1)] assms(4) rep_keys [OF assms(5)]) (simp_all add: prefix_defs)
  have owned: "table utxo_key enc_unspents (apply_batch v (pre @ u1 @ d @ cur)) (eff m1 base2)"
    unfolding apply_batch_append u1_def
    by (intro table_untouched [OF _ t(4)] table_untouched [OF _ t(3)] table_put [OF inj_utxo_key]
        table_untouched [OF _ t(1)] assms(7) rep_keys [OF assms(8)]) (simp_all add: prefix_defs)
  have "apply_batch v (pre @ u1 @ d @ cur) (hash_key DATA_Transaction h) =
      apply_batch v pre (hash_key DATA_Transaction h)" for h
    unfolding apply_batch_append
    by (subst get_untouched [OF t(4)], simp add: prefix_defs, subst get_untouched [OF t(3)], simp add: prefix_defs,
        subst get_untouched [OF t(2)], simp_all add: prefix_defs)
  moreover have "apply_batch v pre (hash_key DATA_Transaction h) =
      (if h \<in> tx_id ` set ts then None else v (hash_key DATA_Transaction h))" for h
    unfolding pre_def apply_batch_append tx_dels_get
    by (simp add: apply_batch_Cons hash_key_inj hash_key_def height_key_def prefix_defs)
  moreover have "v (hash_key DATA_Transaction h) = map_option (\<lambda>(t, height). WriteUint32 height @ tx_wire t) (ab_tx A h)"
    if "h \<notin> tx_id ` set ts" for h
    using assms(1) map_of_entries [OF that, of "bd_Height bd"]
    by (simp add: represents_def txs_stored_def apply_block_def map_add_def)
  moreover have "ab_tx A h = None" if "h \<in> tx_id ` set ts" for h using assms(2) that by (auto simp: fits_def)
  moreover have "transaction_ok t \<and> txid t = h" if "ab_tx A h = Some (t, height)" for h t height
    using assms(1) apply_block_tx(1) [OF assms(2) that, of "bd_Height bd"] by (auto simp: represents_def txs_stored_def)
  ultimately have "txs_stored (apply_batch v (pre @ u1 @ d @ cur)) (ab_tx A)"
    by (simp add: txs_stored_def)
  then show ?thesis
    using unspent owned rep_eff [OF rep2] rep_eff [OF assms(8)] assms(3)
    unfolding split append_assoc represents_def known_def by blast
qed

lemma rollback_correct:
  assumes "leveldb_ok L view" and "represents (view (cs_db cs)) (apply_block (bd_Height bd) (bk_Transactions b) A)"
    and "small (apply_block (bd_Height bd) (bk_Transactions b) A)"
    and "live_block b" and "bk_Blockdata b = Some bd" and "fits (bk_Transactions b) A" and "known (ab_tx A) (ab_utxo A)"
  shows "\<exists>cs' m1 m2. rollback L b cs = Some cs' \<and>
    view (cs_db cs') = apply_batch (view (cs_db cs)) (undo_ops bd (bk_Transactions b) m1 m2) \<and>
    cs_headerIdx cs' = cs_headerIdx cs \<and> cs_currentBlockHeight cs' = bd_Height bd - 1 \<and>
    represents (view (cs_db cs')) A"
proof -
  define ts v A' where "ts = bk_Transactions b" and "v = view (cs_db cs)" and "A' = apply_block (bd_Height bd) ts A"
  define U V where "U = ab_utxo A" and "V = ab_utxo A'"
  have fits: "fits ts A" and fresh: "fresh U ts" using assms(6) by (simp_all add: ts_def fits_def U_def)
  have V: "V = U \<union> created ts - set (spent ts)" by (simp add: V_def U_def A'_def apply_block_def)
  note undo = fresh_undoable [OF fresh, folded V]
  obtain base1 base2 where base1: "table (hash_key IX_Unspent) ToByteArray v base1" "rep [] base1 V"
    and base2: "table utxo_key enc_unspents v base2" "rep [] base2 (ent (ab_tx A') ` V)"
    using assms(2) by (auto simp: represents_def v_def V_def A'_def ts_def)
  have stored: "txs_stored v (ab_tx A')" using assms(2) by (simp add: represents_def v_def A'_def ts_def)
  have new: "\<forall>t\<in>set ts. ab_tx A' (tx_id t) = Some (plain t, bd_Height bd)"
    using apply_block_tx(2) [OF fits] by (simp add: A'_def)
  have sp: "set (spent ts) \<subseteq> U" using fresh by (simp add: fresh_def)
  have kn: "known (ab_tx A') (set (spent ts))"
    using assms(7) sp apply_block_tx(1) [OF fits] unfolding known_def U_def [symmetric] A'_def by fastforce
  define head where "head = [BDelete (hash_key DATA_Header (Blockdata_Hash bd)), BDelete (height_key (bd_Height bd))]"
  have bound: "8 * length (base2 k) \<le> maxAlloc" for k
    using small_base [OF assms(3) base2(2) [unfolded V_def A'_def ts_def]] .
  obtain m1 where m1: "RollbackUnspendUTXOs_loop L (cs\<lparr>cs_batch := Some (head @ concat (map tx_dels ts))\<rparr>) (bd_Height bd) ts [] = Some (Inr m1)"
    and r1: "rep m1 base2 (ent (ab_tx A') ` U)"
    using RollbackUnspendUTXOs_loop_rep [where cs = "cs\<lparr>cs_batch := Some (head @ concat (map tx_dels ts))\<rparr>",
        OF assms(1) _ bound _ base2(2) undo(1) new kn] base2(1) stored
    unfolding undo(2) by (auto simp: v_def)
  define cs1 where "cs1 = cs\<lparr>cs_batch := Some (head @ concat (map tx_dels ts) @ map (put_op utxo_key enc_unspents) m1)\<rparr>"
  obtain m2 where m2: "RollbackUnspend_loop L ts [] cs1 =
      Some (Inr m2, cs1\<lparr>cs_batch := Some (head @ concat (map tx_dels ts) @ map (put_op utxo_key enc_unspents) m1 @ unspent_dels ts)\<rparr>)"
    and r2: "rep m2 base1 (V \<union> set (spent ts))" and keys: "fst ` set m2 \<subseteq> fst ` set (spent ts)"
    using RollbackUnspend_loop_rep [where cs = cs1 and ts = ts and
        ops = "head @ concat (map tx_dels ts) @ map (put_op utxo_key enc_unspents) m1", OF assms(1) _ base1(2)] base1(1) undo(1)
    by (auto simp: v_def cs1_def undoable_def)
  have "V \<union> set (spent ts) = U \<union> created ts" using sp by (auto simp: V)
  then have "represents (apply_batch v (undo_ops bd ts m1 m2)) A"
    using undo_ops_represent [OF assms(2) [folded v_def ts_def] fits assms(7) base1(1) _ keys base2(1), of m1] r2 r1
      ent_old [OF fits assms(7), of "bd_Height bd"] by (simp add: U_def A'_def)
  then show ?thesis
    using rollback_run [OF assms(1,4,5) ts_def head_def m1 cs1_def m2] unfolding ts_def v_def by metis
qed

section \<open>A block as the store returns it\<close>

lemma bare_simps [simp]: "bk_Blockdata (bare b) = bk_Blockdata b" "bk_Transactions (bare b) = map plain (bk_Transactions b)"
  "bk_hash (bare b) = None"
  by (simp_all add: bare_def)

lemma plain_tx [simp]: "tx_id (plain t) = tx_id t" "indexed (plain t) = indexed t" "spends (plain t) = spends t"
  "tx_entry height (plain t) = tx_entry height t"
  by (simp_all add: tx_id_def indexed_def spends_def IsCoinBaseTx_def tx_entry_def)

lemma live_plain: "live_tx t \<Longrightarrow> live_tx (plain t)"
  by (simp add: live_tx_def)

lemma created_plain: "created (map plain ts) = created ts"
  by (simp add: created_def filter_map o_def image_image)

lemma spent_plain: "spent (map plain ts) = spent ts"
  by (simp add: spent_def filter_map o_def)

lemma apply_block_plain: "apply_block height (map plain ts) A = apply_block height ts A"
  by (simp add: apply_block_def created_plain spent_plain o_def)

lemma fits_plain: "fits ts A \<Longrightarrow> fits (map plain ts) A"
  by (auto simp: fits_def fresh_def spent_plain list_all_iff live_plain o_def)

lemma live_bare: "live_block b \<Longrightarrow> live_block (bare b)"
  by (auto simp: live_block_def list_all_iff live_plain o_def split: option.splits)

lemma undo_ops_header:
  "apply_batch v (undo_ops bd ts m1 m2) (hash_key DATA_Header h) =
     (if h = Blockdata_Hash bd then None else v (hash_key DATA_Header h))"
proof -
  have rest: "touches {DATA_Transaction, ST_Info, IX_Unspent_UTXO, IX_Unspent, SYS_CurrentBlock} (drop 2 (undo_ops bd ts m1 m2))"
    by (auto simp: touches_def undo_ops_def tx_dels_def unspent_dels_def)
  have split: "undo_ops bd ts m1 m2 = take 2 (undo_ops bd ts m1 m2) @ drop 2 (undo_ops bd ts m1 m2)" by simp
  have two: "take 2 (undo_ops bd ts m1 m2) =
      [BDelete (hash_key DATA_Header (Blockdata_Hash bd)), BDelete (height_key (bd_Height bd))]"
    by (simp add: undo_ops_def)
  have ne: "hash_key DATA_Header h \<noteq> height_key n" for n by (simp add: hash_key_def height_key_def prefix_defs)
  show ?thesis
    by (subst split, unfold apply_batch_append, subst get_untouched [OF rest])
       (simp_all add: two prefix_defs apply_batch_Cons hash_key_inj ne [unfolded prefix_defs])
qed

lemma RollbackBlock_stored:
  assumes "leveldb_ok L view" and "represents (view (cs_db cs)) (apply_block (bd_Height bd) (bk_Transactions b) A)"
    and "small (apply_block (bd_Height bd) (bk_Transactions b) A)"
    and "block_stored (view (cs_db cs)) (apply_block (bd_Height bd) (bk_Transactions b) A) b"
    and "bk_Blockdata b = Some bd" and "fits (bk_Transactions b) A" and "known (ab_tx A) (ab_utxo A)"
  shows "\<exists>cs'. RollbackBlock L (Blockdata_Hash bd) cs = Some (None, cs') \<and> represents (view (cs_db cs')) A \<and>
    GetHeight cs' = bd_Height bd - 1 \<and> GetBlock L cs' (Blockdata_Hash bd) = Some (Inl ErrDBNotFound) \<and>
    (\<forall>h. h \<noteq> Blockdata_Hash bd \<longrightarrow> view (cs_db cs') (hash_key DATA_Header h) = view (cs_db cs) (hash_key DATA_Header h))"
proof -
  have live: "live_block b" using assms(4) by (simp add: block_stored_def)
  note eq = apply_block_plain [of "bd_Height bd" "bk_Transactions b" A]
  obtain cs' m1 m2 where cs': "rollback L (bare b) cs = Some cs'" "represents (view (cs_db cs')) A"
      "view (cs_db cs') = apply_batch (view (cs_db cs)) (undo_ops bd (map plain (bk_Transactions b)) m1 m2)"
      "cs_currentBlockHeight cs' = bd_Height bd - 1"
    using rollback_correct [OF assms(1), of cs bd "bare b" A] assms(2,3,5,7) live_bare [OF live] fits_plain [OF assms(6)]
    unfolding bare_simps eq by blast
  have "view (cs_db cs') (hash_key DATA_Header h) =
      (if h = Blockdata_Hash bd then None else view (cs_db cs) (hash_key DATA_Header h))" for h
    unfolding cs'(3) by (rule undo_ops_header)
  note header = this
  then have "GetBlock L cs' (Blockdata_Hash bd) = Some (Inl ErrDBNotFound)"
    by (simp add: GetBlock_def store_Get_ok [OF assms(1)])
  then show ?thesis using header cs'(1,2,4) GetBlock_stored [OF assms(1,2,4,5)]
    by (simp add: RollbackBlock_def handleRollbackBlockTask_def GetHeight_def)
qed

lemma GetBlockHash_ok:
  assumes "leveldb_ok L view" and "view (cs_db cs) (height_key n) = Some (Uint256_Serialize h)"
  shows "GetBlockHash L cs n = (h, None)"
  using assms(2) Uint256ParseFromBytes_ToArray [of h]
  by (simp add: GetBlockHash_def store_Get_ok [OF assms(1)] Uint256_Serialize_def Uint256_ToArray_def)

lemma SaveBlock_correct:
  assumes "leveldb_ok L view" and "represents (view (cs_db cs)) A" and "small A" and "live_block b"
    and "bk_Blockdata b = Some bd" and "fits (bk_Transactions b) A" and "GetHeight cs < bd_Height bd"
    and "A' = apply_block (bd_Height bd) (bk_Transactions b) A"
  shows "\<exists>cs'. SaveBlock L b cs = Some (None, cs') \<and> represents (view (cs_db cs')) A' \<and>
    block_stored (view (cs_db cs')) A' b \<and> GetHeight cs' = bd_Height bd \<and>
    GetBlock L cs' (Blockdata_Hash bd) = Some (Inr (bare b)) \<and>
    GetBlockHash L cs' (bd_Height bd) = (Blockdata_Hash bd, None) \<and> GetCurrentBlockHash L cs' = Blockdata_Hash bd \<and>
    (\<forall>h. h \<noteq> Blockdata_Hash bd \<longrightarrow> view (cs_db cs') (hash_key DATA_Header h) = view (cs_db cs) (hash_key DATA_Header h))"
proof -
  obtain cs1 tb m1 m2 where cs1: "persist L b cs = Some cs1" "Block_Trim b = Some tb" "represents (view (cs_db cs1)) A'"
      "view (cs_db cs1) = apply_batch (view (cs_db cs)) (block_ops bd tb (bk_Transactions b) m1 m2)"
    using persist_correct [OF assms(1-6)] assms(8) by blast
  have st: "block_stored (view (cs_db cs1)) A' b"
    unfolding cs1(4) assms(8) by (rule block_ops_stored [OF assms(4,5) cs1(2) assms(6)])
  obtain b' where hash: "Block_Hash b = Some (Blockdata_Hash bd, b')" using live_Block_Hash [OF assms(4,5)] ..
  define cs2 where "cs2 = cs1\<lparr>cs_bestHeight := bd_Height bd, cs_currentBlockHeight := bd_Height bd\<rparr>"
  define cs3 where "cs3 = (if cs_headerIdx cs2 = [] then cs2 else cs2\<lparr>cs_headerIdx := remove_header (Blockdata_Hash bd) (cs_headerIdx cs2)\<rparr>)"
  have "SaveBlock L b cs = Some (None, cs3)"
    using assms(5,7) cs1(1) hash
    by (simp add: SaveBlock_def handlePersistBlockTask_def persistBlocks_def block_header_def GetHeight_def
        clearCache_def cs2_def cs3_def)
  moreover have db: "cs_db cs3 = cs_db cs1" "cs_currentBlockHeight cs3 = bd_Height bd" by (simp_all add: cs3_def cs2_def)
  moreover have "GetBlock L cs3 (Blockdata_Hash bd) = Some (Inr (bare b))"
    using GetBlock_stored [OF assms(1) _ _ assms(5), of cs3 A'] cs1(3) st db by simp
  moreover have "GetBlockHash L cs3 (bd_Height bd) = (Blockdata_Hash bd, None)"
    by (rule GetBlockHash_ok [OF assms(1)]) (simp add: db cs1(4) block_ops_header)
  moreover have "view (cs_db cs3) (hash_key DATA_Header h) = view (cs_db cs) (hash_key DATA_Header h)"
    if "h \<noteq> Blockdata_Hash bd" for h
    unfolding db cs1(4) by (rule block_ops_header(4) [OF that])
  ultimately show ?thesis using cs1(3) st by (simp add: GetHeight_def GetCurrentBlockHash_def)
qed

section \<open>A first block\<close>

definition empty_abs :: ledger_abs where
  "empty_abs = \<lparr>ab_tx = (\<lambda>_. None), ab_utxo = {}\<rparr>"

definition mint_tx :: Transaction where
  "mint_tx = new_Transaction
     \<lparr>tx_TxType := CoinBase, tx_Payload := Some (PCoinBase [1, 2]),
      tx_Outputs := [\<lparr>to_AssetID = 9, to_Value = 100000000, to_ProgramHash = 4660\<rparr>,
                     \<lparr>to_AssetID = 9, to_Value = 7, to_ProgramHash = 4661\<rparr>]\<rparr>"

definition mint_data :: Blockdata where
  "mint_data = new_Blockdata\<lparr>bd_TransactionsRoot := merkle_root [tx_id mint_tx], bd_Timestamp := 7, bd_Height := 1\<rparr>"

definition mint_block :: Block where
  "mint_block = \<lparr>bk_Blockdata = Some mint_data, bk_Transactions = [mint_tx], bk_hash = None\<rparr>"

definition mint_store :: "(byte list \<Rightarrow> byte list option) ChainStore" where
  "mint_store = NewChainStore (\<lambda>_. None)"

lemma represents_empty: "represents (\<lambda>_. None) empty_abs"
  by (auto simp: represents_def empty_abs_def txs_stored_def table_def rep_def intro!: exI [of _ "\<lambda>_. []"])

lemma small_finite:
  assumes "finite (ab_utxo A)" and "8 * card (ab_utxo A) \<le> maxAlloc"
  shows "small A"
  unfolding small_def
proof
  fix k
  define S where "S = ent (ab_tx A) ` ab_utxo A"
  have fin: "finite S" "card S \<le> card (ab_utxo A)" using assms(1) by (simp_all add: S_def card_image_le)
  have "{e. (k, e) \<in> S} \<subseteq> snd ` S" by force
  then have "card {e. (k, e) \<in> S} \<le> card S"
    using fin(1) by (meson card_image_le card_mono finite_imageI order_trans)
  then show "8 * card {e. (k, e) \<in> ent (ab_tx A) ` ab_utxo A} \<le> maxAlloc"
    using fin(2) assms(2) unfolding S_def by linarith
qed

lemma mint_live: "live_tx mint_tx"
  by (simp add: live_tx_def mint_tx_def transaction_ok_def new_Transaction_def bytes_ok_def maxAlloc_def plain_def wire_form_def)

lemma mint_ok:
  "live_block mint_block" "bk_Blockdata mint_block = Some mint_data" "fits (bk_Transactions mint_block) empty_abs"
  "GetHeight mint_store < bd_Height mint_data" "small empty_abs" "represents (cs_db mint_store) empty_abs"
  "small (apply_block (bd_Height mint_data) (bk_Transactions mint_block) empty_abs)"
proof -
  show "live_block mint_block"
    using mint_live new_AuxPow_ok
    by (simp add: live_block_def mint_block_def mint_data_def blockdata_ok_def new_Blockdata_def)
  show "bk_Blockdata mint_block = Some mint_data" by (simp add: mint_block_def)
  have "spent [mint_tx] = []" by (simp add: spent_one spends_def IsCoinBaseTx_def mint_tx_def)
  then show "fits (bk_Transactions mint_block) empty_abs"
    using mint_live by (simp add: fits_def fresh_def mint_block_def empty_abs_def mint_tx_def)
  show "GetHeight mint_store < bd_Height mint_data" "represents (cs_db mint_store) empty_abs"
    using represents_empty by (simp_all add: GetHeight_def mint_store_def NewChainStore_def mint_data_def)
  show "small empty_abs" by (rule small_finite) (simp_all add: empty_abs_def)
  define U where "U = out_set (tx_id mint_tx) 0 2"
  have "finite U" "card U \<le> card {0 ..< 0 + (2 :: nat)}" unfolding U_def out_set_def by (simp, rule card_image_le, simp)
  moreover have "ab_utxo (apply_block (bd_Height mint_data) (bk_Transactions mint_block) empty_abs) = U"
    using \<open>spent [mint_tx] = []\<close>
    by (simp add: apply_block_def mint_block_def empty_abs_def created_one indexed_def U_def) (simp add: mint_tx_def numeral_2_eq_2)
  ultimately show "small (apply_block (bd_Height mint_data) (bk_Transactions mint_block) empty_abs)"
    by (intro small_finite) (simp_all add: maxAlloc_def)
qed

text \<open>
  C3. Saving a block whose transactions fit the ledger succeeds: the database then represents
  the ledger with its transactions added, its outputs unspent and the outputs it spends gone,
  in both unspent indices, and the block is read back by hash and by height.
\<close>

theorem SaveBlock_refines:
  assumes "leveldb_ok L view" and "represents (view (cs_db cs)) A" and "small A" and "live_block b"
    and "bk_Blockdata b = Some bd" and "fits (bk_Transactions b) A" and "GetHeight cs < bd_Height bd"
  shows "\<exists>cs'. SaveBlock L b cs = Some (None, cs') \<and>
    represents (view (cs_db cs')) (apply_block (bd_Height bd) (bk_Transactions b) A) \<and>
    GetHeight cs' = bd_Height bd \<and> GetCurrentBlockHash L cs' = Blockdata_Hash bd \<and>
    GetBlockHash L cs' (bd_Height bd) = (Blockdata_Hash bd, None) \<and>
    GetBlock L cs' (Blockdata_Hash bd) =
      Some (Inr \<lparr>bk_Blockdata = Some bd, bk_Transactions = map plain (bk_Transactions b), bk_hash = None\<rparr>)"
proof -
  have "bare b = \<lparr>bk_Blockdata = Some bd, bk_Transactions = map plain (bk_Transactions b), bk_hash = None\<rparr>"
    using assms(5) by (simp add: bare_def)
  then show ?thesis using SaveBlock_correct [OF assms refl] by auto
qed

theorem SaveBlock_refines_witness:
  "\<exists>cs'. SaveBlock map_db mint_block mint_store = Some (None, cs') \<and>
    represents (cs_db cs') (apply_block (bd_Height mint_data) (bk_Transactions mint_block) empty_abs) \<and>
    GetHeight cs' = bd_Height mint_data \<and> GetCurrentBlockHash map_db cs' = Blockdata_Hash mint_data \<and>
    GetBlockHash map_db cs' (bd_Height mint_data) = (Blockdata_Hash mint_data, None) \<and>
    GetBlock map_db cs' (Blockdata_Hash mint_data) =
      Some (Inr \<lparr>bk_Blockdata = Some mint_data, bk_Transactions = map plain (bk_Transactions mint_block), bk_hash = None\<rparr>)"
  by (rule SaveBlock_refines [OF map_db_ok mint_ok(6,5,1,2,3,4)])

text \<open>
  C4. Rolling back the block just saved restores the ledger: both unspent indices stand again for
  the outputs unspent before, and the transactions and the block are gone. The height is one less
  than the block's, so it is the one before if the block was one higher than the chain.
\<close>

theorem RollbackBlock_SaveBlock:
  assumes "leveldb_ok L view" and "represents (view (cs_db cs)) A" and "small A" and "live_block b"
    and "bk_Blockdata b = Some bd" and "fits (bk_Transactions b) A" and "GetHeight cs < bd_Height bd"
    and "small (apply_block (bd_Height bd) (bk_Transactions b) A)"
  shows "\<exists>cs1 cs2. SaveBlock L b cs = Some (None, cs1) \<and> RollbackBlock L (Blockdata_Hash bd) cs1 = Some (None, cs2) \<and>
    represents (view (cs_db cs2)) A \<and> GetHeight cs2 = bd_Height bd - 1 \<and>
    (bd_Height bd = GetHeight cs + 1 \<longrightarrow> GetHeight cs2 = GetHeight cs) \<and>
    GetBlock L cs2 (Blockdata_Hash bd) = Some (Inl ErrDBNotFound)"
proof -
  define A' where "A' = apply_block (bd_Height bd) (bk_Transactions b) A"
  obtain cs1 where cs1: "SaveBlock L b cs = Some (None, cs1)" "represents (view (cs_db cs1)) A'" "block_stored (view (cs_db cs1)) A' b"
    using SaveBlock_correct [OF assms(1-7) A'_def] by blast
  obtain cs2 where "RollbackBlock L (Blockdata_Hash bd) cs1 = Some (None, cs2)" "represents (view (cs_db cs2)) A"
      "GetHeight cs2 = bd_Height bd - 1" "GetBlock L cs2 (Blockdata_Hash bd) = Some (Inl ErrDBNotFound)"
    using RollbackBlock_stored [OF assms(1) cs1(2) [unfolded A'_def] assms(8) cs1(3) [unfolded A'_def]
        assms(5,6) represents_known [OF assms(2)]] by blast
  then show ?thesis using cs1(1) by simp
qed

theorem RollbackBlock_SaveBlock_witness:
  "\<exists>cs1 cs2. SaveBlock map_db mint_block mint_store = Some (None, cs1) \<and>
    RollbackBlock map_db (Blockdata_Hash mint_data) cs1 = Some (None, cs2) \<and>
    represents (cs_db cs2) empty_abs \<and> GetHeight cs2 = GetHeight mint_store \<and>
    GetBlock map_db cs2 (Blockdata_Hash mint_data) = Some (Inl ErrDBNotFound)"
proof -
  have "bd_Height mint_data = GetHeight mint_store + 1"
    by (simp add: GetHeight_def mint_store_def NewChainStore_def mint_data_def)
  then show ?thesis using RollbackBlock_SaveBlock [OF map_db_ok mint_ok(6,5,1,2,3,4,7)] by blast
qed

text \<open>
  C5. On a database that represents a ledger, a transaction is reported as a double spend exactly
  when one of its inputs is not an unspent output, and an output is looked up exactly when it
  is unspent.
\<close>

theorem IsDoubleSpend_refines:
  assumes "leveldb_ok L view" and "represents (view (cs_db cs)) A"
  shows "(IsDoubleSpend L cs t \<longleftrightarrow> \<not> outpoint ` set (tx_UTXOInputs t) \<subseteq> ab_utxo A) \<and>
    (IsTxHashDuplicate L cs h \<longleftrightarrow> h \<in> dom (ab_tx A)) \<and>
    GetUnspent L cs h i =
      Some (if (h, i) \<in> ab_utxo A then Inr (tx_Outputs (fst (the (ab_tx A h))) ! unat i)
            else Inl (ErrNew ''[GetUnspent] NOT ContainsUnspent.''))"
  using IsDoubleSpend_ok [OF assms] IsTxHashDuplicate_ok [OF assms] GetUnspent_ok [OF assms] by blast

theorem IsDoubleSpend_refines_witness:
  "(IsDoubleSpend map_db mint_store sample_tx \<longleftrightarrow> \<not> outpoint ` set (tx_UTXOInputs sample_tx) \<subseteq> ab_utxo empty_abs) \<and>
   (IsTxHashDuplicate map_db mint_store 77 \<longleftrightarrow> 77 \<in> dom (ab_tx empty_abs)) \<and>
   GetUnspent map_db mint_store 77 1 =
     Some (if (77, 1) \<in> ab_utxo empty_abs then Inr (tx_Outputs (fst (the (ab_tx empty_abs 77))) ! unat (1 :: u16))
           else Inl (ErrNew ''[GetUnspent] NOT ContainsUnspent.''))"
  using IsDoubleSpend_refines [OF map_db_ok, of mint_store empty_abs sample_tx 77 1] mint_ok(6) by blast

end
