(* ===== verification/Chain_Ledger.thy ===== *)
theory Chain_Ledger
  imports Chain_Select Store_Rollback
begin

text \<open>
  The block chain and its store together. The contract of a store (\<open>ledger_laws\<close>) says what saving,
  rolling back and reading blocks do to the chain it holds; \<open>synced\<close> says that the tree of nodes
  in memory and that chain agree. Under the contract \<open>ConnectBestChain\<close> keeps them in step, also
  through a reorganisation, and the chain store keeps the contract.
\<close>

section \<open>The contract of a ledger store\<close>

definition hash_of :: "Block \<Rightarrow> Uint256" where
  "hash_of b = Blockdata_Hash (the (bk_Blockdata b))"

text \<open>
  \<open>holds s bs\<close>: the store state holds the chain \<open>bs\<close>, the newest block first. \<open>extends bs b\<close>:
  the block may be saved on top of that chain.
\<close>

locale ledger_laws =
  fixes S :: "'s ledger_store" and holds :: "'s \<Rightarrow> Block list \<Rightarrow> bool" and extends :: "Block list \<Rightarrow> Block \<Rightarrow> bool"
  assumes save: "\<And>s bs b. holds s bs \<Longrightarrow> extends bs b \<Longrightarrow> check_context (ls_env S s) (bk_Transactions b) = Some True \<Longrightarrow>
      \<exists>s'. ls_SaveBlock S b s = Some (None, s') \<and> holds s' (b # bs)"
    and rollback: "\<And>s bs b. holds s (b # bs) \<Longrightarrow> bs \<noteq> [] \<Longrightarrow>
      \<exists>s'. ls_RollbackBlock S (hash_of b) s = Some (None, s') \<and> holds s' bs"
    and get: "\<And>s bs b. holds s bs \<Longrightarrow> b \<in> set bs \<Longrightarrow> ls_GetBlock S s (hash_of b) = Some (Inr (bare b))"

section \<open>Memory and store in step\<close>

lemma ConnectBestChain_side:
  assumes "bc_BestChain bc = Some best" and "node_parent bc node = Some p" and "node_hash bc p \<noteq> node_hash bc best"
    and "bc1 = upd_node p (\<lambda>n. n\<lparr>bn_Children := bn_Children n @ [node]\<rparr>)
      (upd_node node (\<lambda>n. n\<lparr>bn_InMainChain := False\<rparr>)
       (AddNodeToIndex node (bc\<lparr>bc_BlockCache := (bc_BlockCache bc)(node_hash bc node \<mapsto> block)\<rparr>)))"
  shows "ConnectBestChain S node block bc =
      (if bn_WorkSum (bc_nodes bc node) \<le> bn_WorkSum (bc_nodes bc best) then Some (Inr False, bc1)
       else do {
         (detachNodes, attachNodes) \<leftarrow> GetReorganizeNodes node bc1;
         (err, bc) \<leftarrow> ReorganizeChain S detachNodes attachNodes bc1;
         Some (case err of Some e \<Rightarrow> (Inl e, bc) | None \<Rightarrow> (Inr True, bc)) })"
  using assms by (simp add: ConnectBestChain_def Let_def Uint256_CompareTo_sign)

text \<open>
  The nodes \<open>as\<close> from the end of the best chain to the root in memory are those of the newest
  blocks of the chain \<open>bs\<close> that the store holds, and are marked as main chain.
\<close>

definition synced :: "('s \<Rightarrow> Block list \<Rightarrow> bool) \<Rightarrow> 's Blockchain \<Rightarrow> nat list \<Rightarrow> Block list \<Rightarrow> bool" where
  "synced holds bc as bs \<longleftrightarrow> holds (bc_store bc) bs \<and> as \<noteq> [] \<and>
     path_up (bc_nodes bc) (bc_BestChain bc) = Some as \<and> length as \<le> length bs \<and>
     map (node_hash bc) as = map hash_of (take (length as) bs) \<and> (\<forall>a\<in>set as. bn_InMainChain (bc_nodes bc a))"

text \<open>The nodes of a side chain, oldest first, with their blocks in the cache.\<close>

fun side_chain ::
  "(Block list \<Rightarrow> Block \<Rightarrow> bool) \<Rightarrow> 's Blockchain \<Rightarrow> nat \<Rightarrow> Block list \<Rightarrow> nat list \<Rightarrow> Block list \<Rightarrow> bool" where
  "side_chain extends bc p bs [] [] = True"
| "side_chain extends bc p bs (n # ns) (b # bls) \<longleftrightarrow> node_parent bc n = Some p \<and> node_hash bc n = hash_of b \<and>
     bc_BlockCache bc (node_hash bc n) = Some b \<and> extends bs b \<and> side_chain extends bc n (b # bs) ns bls"
| "side_chain extends bc p bs _ _ = False"

lemma path_up_suffix: "path_up h p = Some (ys @ x # zs) \<Longrightarrow> path_up h (Some x) = Some (x # zs)"
  by (induction ys arbitrary: p) (auto simp: path_up_Cons)

lemma path_up_distinct: "path_up h p = Some as \<Longrightarrow> distinct as"
proof (induction as arbitrary: p)
  case (Cons x xs)
  then have p: "p = Some x" "path_up h (bn_Parent (h x)) = Some xs" by (simp_all add: path_up_Cons)
  have "x \<notin> set xs"
  proof
    assume "x \<in> set xs"
    then obtain ys zs where "xs = ys @ x # zs" by (metis split_list)
    then have "path_up h (Some x) = Some (x # zs)" using path_up_suffix [of h "Some x" "x # ys" x zs] Cons.prems p(1) by simp
    then have "x # zs = x # xs" using Cons.prems p(1) by simp
    then show False using \<open>xs = ys @ x # zs\<close> by (metis append_Cons length_append length_Cons list.inject not_add_less2 lessI add_Suc_right less_SucI)
  qed
  then show ?case using Cons.IH [OF p(2)] by simp
qed simp

lemma CalcPastMedianTime_Some: "chain \<noteq> [] \<Longrightarrow> \<exists>t. CalcPastMedianTime chain = Some t"
  by (cases chain) (auto simp: CalcPastMedianTime_def Let_def min_def)

lemma set_median_path:
  assumes "path_up (bc_nodes bc) (bc_BestChain bc) = Some as" and "as \<noteq> []"
  shows "\<exists>t. set_median bc = Some (bc\<lparr>bc_MedianTimePast := t\<rparr>)"
  using assms CalcPastMedianTime_Some [of "map (bc_nodes bc) as"] by (auto simp: set_median_def chain_of_def)

lemma side_chain_cong:
  assumes "side_chain extends bc p bs ns bls" and "same_tree (bc_nodes bc) (bc_nodes bc')"
    and "\<forall>n\<in>set ns. bc_BlockCache bc' (node_hash bc n) = bc_BlockCache bc (node_hash bc n)"
  shows "side_chain extends bc' p bs ns bls"
  using assms by (induction extends bc p bs ns bls rule: side_chain.induct) (auto simp: same_tree_def)

lemma side_chain_cached: "side_chain extends bc p bs ns bls \<Longrightarrow> n \<in> set ns \<Longrightarrow> bc_BlockCache bc (node_hash bc n) \<noteq> None"
  by (induction extends bc p bs ns bls rule: side_chain.induct) auto

lemma side_chain_length: "side_chain extends bc p bs ns bls \<Longrightarrow> length bls = length ns"
  by (induction extends bc p bs ns bls rule: side_chain.induct) auto

lemma synced_cong:
  assumes "synced holds bc as bs" and "same_tree (bc_nodes bc) (bc_nodes bc')" and "bc_store bc' = bc_store bc"
    and "bc_BestChain bc' = bc_BestChain bc" and "\<And>a. a \<in> set as \<Longrightarrow> bn_InMainChain (bc_nodes bc' a) = bn_InMainChain (bc_nodes bc a)"
  shows "synced holds bc' as bs"
  using assms same_tree_path [OF assms(2)] by (simp add: synced_def same_tree_def)

lemma side_chain_snoc:
  "side_chain extends bc p bs ns bls \<Longrightarrow>
   side_chain extends bc p bs (ns @ [n]) (bls @ [b]) \<longleftrightarrow> node_parent bc n = Some (last (p # ns)) \<and> node_hash bc n = hash_of b \<and>
     bc_BlockCache bc (node_hash bc n) = Some b \<and> extends (rev bls @ bs) b"
  by (induction extends bc p bs ns bls rule: side_chain.induct) auto

lemma side_chain_path:
  "side_chain extends bc p bs ns bls \<Longrightarrow> path_up (bc_nodes bc) (Some p) = Some as \<Longrightarrow>
   path_up (bc_nodes bc) (Some (last (p # ns))) = Some (rev ns @ as)"
  by (induction extends bc p bs ns bls arbitrary: as rule: side_chain.induct) (auto simp: path_up_Some)

text \<open>
  The fork of the tree that a new node belongs to: the main chain is \<open>ds @ as\<close>, the side chain
  \<open>ns\<close> leaves it at the first node of \<open>as\<close>, and no two of these nodes have the same hash.
\<close>

definition forked :: "('s \<Rightarrow> Block list \<Rightarrow> bool) \<Rightarrow> (Block list \<Rightarrow> Block \<Rightarrow> bool) \<Rightarrow> 's Blockchain \<Rightarrow>
    nat list \<Rightarrow> nat list \<Rightarrow> Block list \<Rightarrow> nat list \<Rightarrow> Block list \<Rightarrow> bool" where
  "forked holds extends bc ds as bs ns bls \<longleftrightarrow> synced holds bc (ds @ as) bs \<and> as \<noteq> [] \<and>
     side_chain extends bc (hd as) (drop (length ds) bs) ns bls \<and> (\<forall>n\<in>set ns. \<not> bn_InMainChain (bc_nodes bc n)) \<and>
     distinct (map (node_hash bc) (ns @ ds @ as))"

text \<open>
  What \<open>ConnectBestChain\<close> leaves when the node \<open>n\<close> of the block \<open>b\<close> continues the side chain: the new
  chain, the old one, or, with an error, the new chain up to a block that could not be connected.
\<close>

definition chain_outcome ::
  "('s \<Rightarrow> Block list \<Rightarrow> bool) \<Rightarrow> 's Blockchain \<Rightarrow> nat list \<Rightarrow> nat list \<Rightarrow> Block list \<Rightarrow> nat list \<Rightarrow> Block list \<Rightarrow> nat \<Rightarrow> Block \<Rightarrow> goerr + bool \<Rightarrow> bool" where
  "chain_outcome holds bc' ds as bs ns bls n b r \<longleftrightarrow>
     (case r of
        Inr True \<Rightarrow> synced holds bc' (n # rev ns @ as) (b # rev bls @ drop (length ds) bs)
      | Inr False \<Rightarrow> synced holds bc' (ds @ as) bs
      | Inl err \<Rightarrow> \<exists>k\<le>length ns. synced holds bc' (rev (take k ns) @ as) (rev (take k bls) @ drop (length ds) bs))"

lemma forked_best:
  assumes "forked holds extends bc ds as bs ns bls" and "bc_BestChain bc = Some best"
  shows "node_hash bc (last (hd as # ns)) = node_hash bc best \<longleftrightarrow> ds = [] \<and> ns = []"
proof -
  have path: "path_up (bc_nodes bc) (Some best) = Some (ds @ as)" using assms by (simp add: forked_def synced_def)
  have as: "as \<noteq> []" "distinct (map (node_hash bc) (ns @ ds @ as))" using assms(1) unfolding forked_def by blast+
  have best: "best = hd (ds @ as)" using path as(1) by (cases "ds @ as") (auto simp: path_up_Cons)
  show ?thesis
  proof (cases "ns = []")
    case True
    then show ?thesis using as best by (cases ds; cases as) auto
  next
    case False
    then have "last (hd as # ns) \<in> set ns" "best \<in> set (ds @ as)" using as best by (auto simp: hd_append)
    then have "node_hash bc (last (hd as # ns)) \<noteq> node_hash bc best" using as(2) by auto
    then show ?thesis using False by simp
  qed
qed

lemma GetReorganizeNodes_fork:
  assumes "forked holds extends bc ds as bs ns bls" and "ns \<noteq> []"
  shows "GetReorganizeNodes (last ns) bc = Some (ds, ns)"
proof -
  obtain a as' where a: "as = a # as'" using assms(1) by (cases as) (auto simp: forked_def)
  have f: "path_up (bc_nodes bc) (bc_BestChain bc) = Some (ds @ a # as')" "\<forall>n\<in>set ns. \<not> bn_InMainChain (bc_nodes bc n)"
      "bn_InMainChain (bc_nodes bc a)" "side_chain extends bc a (drop (length ds) bs) ns bls"
      "\<forall>n\<in>set ds. node_hash bc n \<noteq> node_hash bc a"
    using assms(1) by (auto simp: forked_def synced_def a) (metis image_eqI)
  have "path_up (bc_nodes bc) (Some a) = Some (a # as')" using path_up_suffix f(1) by blast
  then have "path_up (bc_nodes bc) (Some (last ns)) = Some (rev ns @ a # as')"
    using side_chain_path [OF f(4)] assms(2) by simp
  then have "attach_walk (bc_nodes bc) (last ns) [] = Some (a, ns)"
    using attach_walk_side [of "bc_nodes bc" "last ns" "rev ns" a as' "[]"] f(2,3) by simp
  then show ?thesis using detach_walk_main [OF f(1,5)] by (simp add: GetReorganizeNodes_def)
qed

lemma forked_snoc:
  assumes "forked holds extends bc ds as bs ns bls" and "node_parent bc n = Some (last (hd as # ns))"
    and "node_hash bc n = hash_of b" and "extends (rev bls @ drop (length ds) bs) b"
    and "\<not> bn_InMainChain (bc_nodes bc n)" and "node_hash bc n \<notin> node_hash bc ` set (ns @ ds @ as)"
    and "same_tree (bc_nodes bc) (bc_nodes bc1)" and "bc_store bc1 = bc_store bc" and "bc_BestChain bc1 = bc_BestChain bc"
    and "\<And>a. bn_InMainChain (bc_nodes bc1 a) = (a \<noteq> n \<and> bn_InMainChain (bc_nodes bc a))"
    and "bc_BlockCache bc1 = (bc_BlockCache bc)(node_hash bc n \<mapsto> b)"
  shows "forked holds extends bc1 ds as bs (ns @ [n]) (bls @ [b])"
proof -
  note F = assms(1) [unfolded forked_def]
  have other: "node_hash bc m \<noteq> node_hash bc n" if "m \<in> set (ns @ ds @ as)" for m using assms(6) that by (metis image_eqI)
  then have new: "n \<notin> set (ns @ ds @ as)" by blast
  have tree: "node_hash bc1 a = node_hash bc a" "node_parent bc1 a = node_parent bc a" for a
    using assms(7) by (simp_all add: same_tree_def)
  have "synced holds bc1 (ds @ as) bs"
    by (rule synced_cong [of holds bc]) (use F assms(7-10) new in auto)
  moreover have "side_chain extends bc1 (hd as) (drop (length ds) bs) ns bls"
    by (rule side_chain_cong [of extends bc]) (use F other assms(7,11) in auto)
  ultimately show ?thesis
    using F assms(2-6,10,11) tree new by (auto simp: forked_def side_chain_snoc)
qed

context ledger_laws
begin

lemma disconnect_one:
  assumes "synced holds bc (n # as) bs" and "as \<noteq> []"
  shows "\<exists>b bc'. bs = b # tl bs \<and> ls_GetBlock S (bc_store bc) (node_hash bc n) = Some (Inr (bare b)) \<and>
    DisconnectBlock S n (bare b) bc = Some (None, bc') \<and> synced holds bc' as (tl bs) \<and>
    bc_nodes bc' = (bc_nodes bc)(n := (bc_nodes bc n)\<lparr>bn_InMainChain := False\<rparr>) \<and>
    bc_BlockCache bc' = (bc_BlockCache bc)(node_hash bc n \<mapsto> bare b)"
proof -
  have path: "path_up (bc_nodes bc) (bc_BestChain bc) = Some (n # as)" using assms(1) by (simp add: synced_def)
  then have best: "bc_BestChain bc = Some n" "path_up (bc_nodes bc) (node_parent bc n) = Some as" by (simp_all add: path_up_Cons)
  have new: "n \<notin> set as" using path_up_distinct [OF path] by simp
  obtain p where p: "node_parent bc n = Some p" using best(2) assms(2) by (cases "node_parent bc n") auto
  obtain b bs' where bs: "bs = b # bs'" using assms(1) by (cases bs) (auto simp: synced_def)
  then have b: "holds (bc_store bc) (b # bs')" "node_hash bc n = hash_of b" "length as \<le> length bs'"
      "map (node_hash bc) as = map hash_of (take (length as) bs')" "\<forall>a\<in>set as. bn_InMainChain (bc_nodes bc a)"
    using assms(1) by (simp_all add: synced_def)
  have "bs' \<noteq> []" using b(3) assms(2) by auto
  then obtain s' where s': "ls_RollbackBlock S (hash_of b) (bc_store bc) = Some (None, s')" "holds s' bs'"
    using rollback [OF b(1)] by blast
  have get_b: "ls_GetBlock S (bc_store bc) (node_hash bc n) = Some (Inr (bare b))"
    using get [OF b(1)] b(2) by simp
  define bc1 where "bc1 = upd_node n (\<lambda>n. n\<lparr>bn_InMainChain := False\<rparr>) (bc\<lparr>bc_store := s'\<rparr>)"
  define bc2 where "bc2 = bc1\<lparr>bc_BlockCache := (bc_BlockCache bc1)(node_hash bc1 n \<mapsto> bare b), bc_BestChain := Some p\<rparr>"
  have nodes: "bc_nodes bc2 = (bc_nodes bc)(n := (bc_nodes bc n)\<lparr>bn_InMainChain := False\<rparr>)" by (simp add: bc2_def bc1_def)
  have path2: "path_up (bc_nodes bc2) (bc_BestChain bc2) = Some as"
    using same_tree_path [of "bc_nodes bc" "bc_nodes bc2" "Some p" as] best(2) p
    by (simp add: same_tree_def bc2_def bc1_def)
  obtain t where t: "set_median bc2 = Some (bc2\<lparr>bc_MedianTimePast := t\<rparr>)" using set_median_path [OF path2 assms(2)] by blast
  have run: "DisconnectBlock S n (bare b) bc = Some (None, bc2\<lparr>bc_MedianTimePast := t\<rparr>)"
    using best(1) p s'(1) b(2) t
    by (simp add: DisconnectBlock_def Uint256_CompareTo_sign GetPrevNodeFromNode_def Let_def bc2_def bc1_def)
  have hash2: "node_hash bc2 a = node_hash bc a" for a by (simp add: nodes)
  have main2: "\<forall>a\<in>set as. bn_InMainChain (bc_nodes bc2 a)" using b(5) new by (auto simp: nodes)
  have "synced holds (bc2\<lparr>bc_MedianTimePast := t\<rparr>) as bs'"
    using s'(2) assms(2) path2 b(3-5) new hash2 main2 by (simp add: synced_def) (simp add: bc2_def bc1_def)
  then show ?thesis using bs get_b run nodes by (auto simp: bc2_def bc1_def)
qed

lemma disconnect_all_ok:
  assumes "synced holds bc (ds @ as) bs" and "as \<noteq> []"
  shows "\<exists>bc'. disconnect_all S ds bc = Some (None, bc') \<and> synced holds bc' as (drop (length ds) bs) \<and>
    same_tree (bc_nodes bc) (bc_nodes bc') \<and> (\<forall>d\<in>set ds. \<not> bn_InMainChain (bc_nodes bc' d)) \<and>
    (\<forall>a. a \<notin> set ds \<longrightarrow> bc_nodes bc' a = bc_nodes bc a) \<and>
    (\<forall>h. h \<notin> node_hash bc ` set ds \<longrightarrow> bc_BlockCache bc' h = bc_BlockCache bc h)"
  using assms
proof (induction ds arbitrary: bc bs)
  case (Cons d ds)
  obtain b bc1 where b: "bs = b # tl bs" "ls_GetBlock S (bc_store bc) (node_hash bc d) = Some (Inr (bare b))"
      "DisconnectBlock S d (bare b) bc = Some (None, bc1)" "synced holds bc1 (ds @ as) (tl bs)"
      "bc_nodes bc1 = (bc_nodes bc)(d := (bc_nodes bc d)\<lparr>bn_InMainChain := False\<rparr>)"
      "bc_BlockCache bc1 = (bc_BlockCache bc)(node_hash bc d \<mapsto> bare b)"
    using disconnect_one [of bc d "ds @ as" bs] Cons.prems by auto
  have tree: "same_tree (bc_nodes bc) (bc_nodes bc1)" by (simp add: b(5) same_tree_def)
  obtain bc' where bc': "disconnect_all S ds bc1 = Some (None, bc')" "synced holds bc' as (drop (length ds) (tl bs))"
      "same_tree (bc_nodes bc1) (bc_nodes bc')" "\<forall>d\<in>set ds. \<not> bn_InMainChain (bc_nodes bc' d)"
      "\<forall>a. a \<notin> set ds \<longrightarrow> bc_nodes bc' a = bc_nodes bc1 a"
      "\<forall>h. h \<notin> node_hash bc1 ` set ds \<longrightarrow> bc_BlockCache bc' h = bc_BlockCache bc1 h"
    using Cons.IH [OF b(4) Cons.prems(2)] by blast
  have hash1: "node_hash bc1 ` X = node_hash bc ` X" for X using tree by (simp add: same_tree_def)
  have "disconnect_all S (d # ds) bc = Some (None, bc')" using b(2,3) bc'(1) by simp
  moreover have "drop (length (d # ds)) bs = drop (length ds) (tl bs)" by (simp add: drop_Suc)
  moreover have "\<forall>x\<in>set (d # ds). \<not> bn_InMainChain (bc_nodes bc' x)"
    using bc'(4,5) b(5) by (cases "d \<in> set ds") auto
  moreover have "\<forall>a. a \<notin> set (d # ds) \<longrightarrow> bc_nodes bc' a = bc_nodes bc a" using bc'(5) b(5) by simp
  moreover have "\<forall>h. h \<notin> node_hash bc ` set (d # ds) \<longrightarrow> bc_BlockCache bc' h = bc_BlockCache bc h"
    using bc'(6) b(6) by (simp add: hash1)
  ultimately show ?case using bc'(2) same_tree_trans [OF tree bc'(3)] by simp
qed simp

lemma connect_one:
  assumes "synced holds bc as bs" and "ConnectBlock S n b bc = Some (None, bc')" and "extends bs b"
    and "node_parent bc n = Some (hd as)" and "node_hash bc n = hash_of b"
  shows "synced holds bc' (n # as) (b # bs)" and "same_tree (bc_nodes bc) (bc_nodes bc')"
proof -
  note C = ConnectBlock_done [OF assms(2)]
  show tree: "same_tree (bc_nodes bc) (bc_nodes bc')" by (simp add: C(2) same_tree_def)
  have sy: "holds (bc_store bc) bs" "as \<noteq> []" "path_up (bc_nodes bc) (bc_BestChain bc) = Some as" "length as \<le> length bs"
      "map (node_hash bc) as = map hash_of (take (length as) bs)" "\<forall>a\<in>set as. bn_InMainChain (bc_nodes bc a)"
    using assms(1) by (simp_all add: synced_def)
  then obtain a as' where a: "as = a # as'" "bc_BestChain bc = Some a" by (cases as) (simp_all add: path_up_Cons)
  have "holds (bc_store bc') (b # bs)" using save [OF sy(1) assms(3) C(5)] C(4) by auto
  moreover have "path_up (bc_nodes bc') (Some n) = Some (n # as)"
  proof -
    have "path_up (bc_nodes bc') (Some a) = Some as" using same_tree_path [OF tree] sy(3) a(2) by simp
    moreover have "node_parent bc' n = Some a" using assms(4) a(1) by (simp add: C(2))
    ultimately show ?thesis by (simp add: path_up_Some)
  qed
  moreover have hash: "node_hash bc' x = node_hash bc x" for x by (simp add: C(2))
  moreover have "map (node_hash bc') (n # as) = map hash_of (take (length (n # as)) (b # bs))"
    using sy(5) assms(5) by (simp add: hash)
  moreover have "\<forall>x\<in>set (n # as). bn_InMainChain (bc_nodes bc' x)" using sy(6) by (simp add: C(2))
  ultimately show "synced holds bc' (n # as) (b # bs)"
    using sy(4) C(1) by (simp add: synced_def)
qed

text \<open>A block that cannot be connected leaves memory and store as they are.\<close>

lemma connect_fail:
  assumes "synced holds bc as bs" and "ConnectBlock S n b bc = Some (Some e, bc')" and "extends bs b"
  shows "bc' = bc"
proof (cases "check_context (ls_env S (bc_store bc)) (bk_Transactions b) = Some True")
  case True
  have "holds (bc_store bc) bs" using assms(1) by (simp add: synced_def)
  then obtain s' where "ls_SaveBlock S b (bc_store bc) = Some (None, s')" using save assms(3) True by blast
  then show ?thesis using assms(2) True by (auto simp: ConnectBlock_def Let_def split: bind_splits if_splits)
qed (use assms(2) in \<open>auto simp: ConnectBlock_def split: bind_splits if_splits\<close>)

text \<open>
  Connecting the blocks of a side chain one after the other: without an error all of them are
  connected, and with an error those before the one that failed.
\<close>

lemma connect_all_ok:
  assumes "synced holds bc as bs" and "side_chain extends bc (hd as) bs ns bls" and "distinct (map (node_hash bc) ns)"
    and "connect_all S ns bc = Some (err, bc')"
  shows "\<exists>k\<le>length ns. (if err = None then k = length ns else k < length ns) \<and>
    synced holds bc' (rev (take k ns) @ as) (rev (take k bls) @ bs)"
  using assms
proof (induction ns arbitrary: bc as bs bls)
  case Nil
  then show ?case by (cases bls) simp_all
next
  case (Cons n ns)
  obtain b bls' where bls: "bls = b # bls'" using Cons.prems(2) by (cases bls) simp_all
  have sc: "node_parent bc n = Some (hd as)" "node_hash bc n = hash_of b" "bc_BlockCache bc (node_hash bc n) = Some b"
      "extends bs b" "side_chain extends bc n (b # bs) ns bls'"
    using Cons.prems(2) unfolding bls side_chain.simps by blast+
  obtain err1 bc1 where c1: "ConnectBlock S n b bc = Some (err1, bc1)"
    using Cons.prems(4) sc(3) by (auto split: bind_splits)
  show ?case
  proof (cases err1)
    case (Some e)
    then have "err \<noteq> None \<and> bc' = bc1" using Cons.prems(4) sc(3) c1 by auto
    then show ?thesis using connect_fail [OF Cons.prems(1) c1 [unfolded Some] sc(4)] Cons.prems(1) by (intro exI [of _ 0]) simp
  next
    case None
    note bc1 = c1 [unfolded None]
    note C = ConnectBlock_done [OF bc1]
    define bc2 where "bc2 = bc1\<lparr>bc_BlockCache := (bc_BlockCache bc1)(node_hash bc1 n := None)\<rparr>"
    have rest: "connect_all S ns bc2 = Some (err, bc')" using Cons.prems(4) sc(3) bc1 by (simp add: bc2_def)
    have one: "synced holds bc1 (n # as) (b # bs)" "same_tree (bc_nodes bc) (bc_nodes bc1)"
      by (rule connect_one [OF Cons.prems(1) bc1 sc(4,1,2)])+
    have "synced holds bc2 (n # as) (b # bs)" using one(1) by (simp add: bc2_def synced_def)
    moreover have "side_chain extends bc2 (hd (n # as)) (b # bs) ns bls'"
    proof -
      have "\<forall>m\<in>set ns. node_hash bc m \<noteq> node_hash bc n" using Cons.prems(3) by (auto simp: image_iff)
      then have "\<forall>m\<in>set ns. bc_BlockCache bc2 (node_hash bc m) = bc_BlockCache bc (node_hash bc m)"
        using C(3) one(2) by (simp add: bc2_def same_tree_def)
      then show ?thesis using side_chain_cong [OF sc(5), of bc2] one(2) by (simp add: bc2_def)
    qed
    moreover have "distinct (map (node_hash bc2) ns)" using Cons.prems(3) one(2) by (simp add: bc2_def same_tree_def)
    ultimately obtain k where "k \<le> length ns" "if err = None then k = length ns else k < length ns"
        "synced holds bc' (rev (take k ns) @ n # as) (rev (take k bls') @ b # bs)"
      using Cons.IH [of bc2 "n # as" "b # bs" bls'] rest by blast
    then show ?thesis by (intro exI [of _ "Suc k"]) (simp add: bls split: if_splits)
  qed
qed

lemma reorganize_ok:
  assumes "synced holds bc (ds @ as) bs" and "as \<noteq> []"
    and "side_chain extends bc (hd as) (drop (length ds) bs) ns bls"
    and "distinct (map (node_hash bc) ns)" and "node_hash bc ` set ns \<inter> node_hash bc ` set ds = {}"
    and "ReorganizeChain S ds ns bc = Some (err, bc')"
  shows "\<exists>k\<le>length ns. (if err = None then k = length ns else k < length ns) \<and>
    synced holds bc' (rev (take k ns) @ as) (rev (take k bls) @ drop (length ds) bs)"
proof -
  obtain bc1 where bc1: "disconnect_all S ds bc = Some (None, bc1)" "synced holds bc1 as (drop (length ds) bs)"
      "same_tree (bc_nodes bc) (bc_nodes bc1)"
      "\<forall>h. h \<notin> node_hash bc ` set ds \<longrightarrow> bc_BlockCache bc1 h = bc_BlockCache bc h"
    using disconnect_all_ok [OF assms(1,2)] by blast
  have "connect_all S ns bc1 = Some (err, bc')"
    using assms(6) bc1(1) side_chain_cached [OF assms(3)] by (auto simp: ReorganizeChain_def split: if_splits)
  moreover have "side_chain extends bc1 (hd as) (drop (length ds) bs) ns bls"
    by (rule side_chain_cong [OF assms(3) bc1(3)]) (use bc1(4) assms(5) in auto)
  moreover have "distinct (map (node_hash bc1) ns)" using assms(4) bc1(3) by (simp add: same_tree_def)
  ultimately show ?thesis using connect_all_ok [OF bc1(2)] by blast
qed

text \<open>A reorganisation all of whose blocks can be connected succeeds.\<close>

lemma reorganize_one:
  assumes "synced holds bc (ds @ as) bs" and "as \<noteq> []" and "side_chain extends bc (hd as) (drop (length ds) bs) [n] [b]"
    and "node_hash bc n \<notin> node_hash bc ` set ds"
    and "\<And>bc1. synced holds bc1 as (drop (length ds) bs) \<Longrightarrow> same_tree (bc_nodes bc) (bc_nodes bc1) \<Longrightarrow>
           \<exists>bc2. ConnectBlock S n b bc1 = Some (None, bc2)"
  shows "\<exists>bc'. ReorganizeChain S ds [n] bc = Some (None, bc')"
proof -
  obtain bc1 where bc1: "disconnect_all S ds bc = Some (None, bc1)" "synced holds bc1 as (drop (length ds) bs)"
      "same_tree (bc_nodes bc) (bc_nodes bc1)"
      "\<forall>h. h \<notin> node_hash bc ` set ds \<longrightarrow> bc_BlockCache bc1 h = bc_BlockCache bc h"
    using disconnect_all_ok [OF assms(1,2)] by blast
  obtain bc2 where "ConnectBlock S n b bc1 = Some (None, bc2)" using assms(5) [OF bc1(2,3)] by blast
  moreover have "bc_BlockCache bc (node_hash bc n) = Some b" using assms(3) unfolding side_chain.simps by blast
  moreover have "node_hash bc1 n = node_hash bc n" using bc1(3) by (simp add: same_tree_def)
  ultimately show ?thesis using bc1(1,4) assms(4) by (simp add: ReorganizeChain_def)
qed

lemma extend_ok:
  assumes "synced holds bc as bs" and "ConnectBestChain S n b bc = Some (Inr True, bc')"
    and "node_parent bc n = Some (hd as)" and "node_hash bc n = hash_of b" and "extends bs b"
  shows "synced holds bc' (n # as) (b # bs)"
proof -
  obtain a as' where a: "as = a # as'" "bc_BestChain bc = Some a"
    using assms(1) by (cases as) (auto simp: synced_def path_up_Cons)
  then obtain bc1 p where bc1: "ConnectBlock S n b bc = Some (None, bc1)"
      "bc' = upd_node p (\<lambda>n'. n'\<lparr>bn_Children := bn_Children n' @ [n]\<rparr>) bc1"
    using assms(2,3) by (auto simp: ConnectBestChain_def Uint256_CompareTo_sign ConnectBlock_done(2) split: bind_splits option.splits)
  have "synced holds bc1 (n # as) (b # bs)" by (rule connect_one(1) [OF assms(1) bc1(1) assms(5,3,4)])
  then show ?thesis by (rule synced_cong) (simp_all add: bc1(2) same_tree_def)
qed

text \<open>
  The new node \<open>n\<close> of the block \<open>b\<close> continues the side chain. Whatever \<open>ConnectBestChain\<close> then
  answers, memory and store stay in step: on the new chain, on the old one, or, if a block could not
  be connected, on what the new chain has before that block.
\<close>

lemma extend_outcome:
  assumes "synced holds bc as bs" and "ConnectBestChain S n b bc = Some (r, bc')"
    and "node_parent bc n = Some (hd as)" and "node_hash bc n = hash_of b" and "extends bs b"
  shows "chain_outcome holds bc' [] as bs [] [] n b r"
proof -
  have best: "bc_BestChain bc = Some (hd as)" using assms(1) by (cases as) (auto simp: synced_def path_up_Cons)
  show ?thesis
  proof (cases r)
    case (Inl e)
    then have "ConnectBlock S n b bc = Some (Some e, bc')"
      using assms(2,3) best by (auto simp: ConnectBestChain_def Uint256_CompareTo_sign split: bind_splits option.splits)
    then show ?thesis using connect_fail [OF assms(1) _ assms(5)] assms(1) Inl by (auto simp: chain_outcome_def)
  next
    case (Inr inMain)
    then have inMain using assms(2,3) best
      by (auto simp: ConnectBestChain_def Uint256_CompareTo_sign split: bind_splits option.splits)
    then show ?thesis using extend_ok [OF assms(1) _ assms(3-5)] assms(2) Inr by (simp add: chain_outcome_def)
  qed
qed

lemma side_outcome:
  assumes "forked holds extends bc1 ds as bs (ns @ [n]) (bls @ [b])" and "ReorganizeChain S ds (ns @ [n]) bc1 = Some (err, bc')"
  shows "chain_outcome holds bc' ds as bs ns bls n b (case err of Some e \<Rightarrow> Inl e | None \<Rightarrow> Inr True)"
proof -
  note F = assms(1) [unfolded forked_def]
  obtain k where k: "k \<le> length (ns @ [n])" "if err = None then k = length (ns @ [n]) else k < length (ns @ [n])"
      "synced holds bc' (rev (take k (ns @ [n])) @ as) (rev (take k (bls @ [b])) @ drop (length ds) bs)"
    using reorganize_ok [of bc1 ds as bs "ns @ [n]" "bls @ [b]" err bc'] F assms(2) by fastforce
  have "length bls = length ns" using side_chain_length [of extends bc1 "hd as" _ "ns @ [n]" "bls @ [b]"] F by fastforce
  moreover from this k(2) have "take k (bls @ [b]) = take k bls \<and> take k (ns @ [n]) = take k ns \<and> k \<le> length ns" if "err \<noteq> None"
    using that by (simp add: less_Suc_eq_le)
  ultimately show ?thesis using k by (cases err) (simp_all add: chain_outcome_def, blast)
qed

lemma connect_best_ok:
  assumes "forked holds extends bc ds as bs ns bls" and "node_parent bc n = Some (last (hd as # ns))"
    and "node_hash bc n = hash_of b" and "extends (rev bls @ drop (length ds) bs) b"
    and "\<not> bn_InMainChain (bc_nodes bc n)" and "node_hash bc n \<notin> node_hash bc ` set (ns @ ds @ as)"
    and "ConnectBestChain S n b bc = Some (r, bc')"
  shows "chain_outcome holds bc' ds as bs ns bls n b r"
proof -
  note F = assms(1) [unfolded forked_def]
  obtain best where best: "bc_BestChain bc = Some best"
    using F by (cases "bc_BestChain bc") (auto simp: synced_def)
  show ?thesis
  proof (cases "ds = [] \<and> ns = []")
    case True
    then have "bls = []" using F by (cases bls) auto
    then show ?thesis using extend_outcome [of bc as bs n b r bc'] F assms(2,3,4,7) True by simp
  next
    case False
    define p where "p = last (hd as # ns)"
    define bc1 where "bc1 = upd_node p (\<lambda>n'. n'\<lparr>bn_Children := bn_Children n' @ [n]\<rparr>)
      (upd_node n (\<lambda>n. n\<lparr>bn_InMainChain := False\<rparr>)
        (AddNodeToIndex n (bc\<lparr>bc_BlockCache := (bc_BlockCache bc)(node_hash bc n \<mapsto> b)\<rparr>)))"
    have run: "ConnectBestChain S n b bc =
        (if bn_WorkSum (bc_nodes bc n) \<le> bn_WorkSum (bc_nodes bc best) then Some (Inr False, bc1)
         else do {
           (detachNodes, attachNodes) \<leftarrow> GetReorganizeNodes n bc1;
           (err, bc) \<leftarrow> ReorganizeChain S detachNodes attachNodes bc1;
           Some (case err of Some e \<Rightarrow> (Inl e, bc) | None \<Rightarrow> (Inr True, bc)) })"
      by (rule ConnectBestChain_side [OF best assms(2) [folded p_def] _ bc1_def])
        (use forked_best [OF assms(1) best] False in \<open>simp add: p_def\<close>)
    have f1: "forked holds extends bc1 ds as bs (ns @ [n]) (bls @ [b])"
      by (rule forked_snoc [OF assms(1-6)]) (auto simp: bc1_def same_tree_def)
    have g: "GetReorganizeNodes n bc1 = Some (ds, ns @ [n])" using GetReorganizeNodes_fork [OF f1] by simp
    show ?thesis
    proof (cases "bn_WorkSum (bc_nodes bc n) \<le> bn_WorkSum (bc_nodes bc best)")
      case True
      then show ?thesis using assms(7) f1 unfolding run by (auto simp: forked_def chain_outcome_def)
    next
      case less: False
      then obtain err where "ReorganizeChain S ds (ns @ [n]) bc1 = Some (err, bc')" "r = (case err of Some e \<Rightarrow> Inl e | None \<Rightarrow> Inr True)"
        using assms(7) g unfolding run by (auto split: bind_splits option.splits)
      then show ?thesis using side_outcome [OF f1] by blast
    qed
  qed
qed

text \<open>A block that extends the main chain and passes the checks is connected.\<close>

lemma connect_live:
  assumes "synced holds bc as bs" and "extends bs b" and "check_context (ls_env S (bc_store bc)) (bk_Transactions b) = Some True"
    and "bk_Blockdata b = Some bd" and "bd_PrevBlockHash bd = node_hash bc (hd as)" and "node_parent bc n = Some (hd as)"
  shows "\<exists>bc'. ConnectBlock S n b bc = Some (None, bc')"
proof -
  have sy: "holds (bc_store bc) bs" "path_up (bc_nodes bc) (bc_BestChain bc) = Some as" "as \<noteq> []"
    using assms(1) by (simp_all add: synced_def)
  then obtain as' where a: "as = hd as # as'" "bc_BestChain bc = Some (hd as)" by (cases as) (simp_all add: path_up_Cons)
  obtain s' where s': "ls_SaveBlock S b (bc_store bc) = Some (None, s')" using save [OF sy(1) assms(2,3)] by blast
  define bc1 where "bc1 = add_dep (bd_PrevBlockHash bd) n (AddNodeToIndex n
    (upd_node n (\<lambda>n. n\<lparr>bn_InMainChain := True\<rparr>) (bc\<lparr>bc_store := s'\<rparr>)))\<lparr>bc_BestChain := Some n\<rparr>"
  have nodes: "bc_nodes bc1 = (bc_nodes bc)(n := (bc_nodes bc n)\<lparr>bn_InMainChain := True\<rparr>)" "bc_BestChain bc1 = Some n"
    by (simp_all add: bc1_def)
  have "same_tree (bc_nodes bc) (bc_nodes bc1)" by (simp add: nodes same_tree_def)
  then have "path_up (bc_nodes bc1) (Some (hd as)) = Some as" using same_tree_path sy(2) a(2) by metis
  then have "path_up (bc_nodes bc1) (bc_BestChain bc1) = Some (n # as)"
    unfolding nodes(2) using assms(6) by (simp add: path_up_Some [of _ n] nodes(1))
  then obtain t where "set_median bc1 = Some (bc1\<lparr>bc_MedianTimePast := t\<rparr>)" using set_median_path by blast
  then show ?thesis using assms(3-5) a(2) s'
    by (simp add: ConnectBlock_def Uint256_CompareTo_sign bc1_def)
qed

lemma extend_live:
  assumes "synced holds bc as bs" and "extends bs b" and "check_context (ls_env S (bc_store bc)) (bk_Transactions b) = Some True"
    and "bk_Blockdata b = Some bd" and "bd_PrevBlockHash bd = node_hash bc (hd as)" and "node_parent bc n = Some (hd as)"
    and "node_hash bc n = hash_of b"
  shows "\<exists>bc'. ConnectBestChain S n b bc = Some (Inr True, bc') \<and> synced holds bc' (n # as) (b # bs)"
proof -
  obtain bc1 where bc1: "ConnectBlock S n b bc = Some (None, bc1)" using connect_live [OF assms(1-6)] by blast
  have "bc_BestChain bc = Some (hd as)" using assms(1) by (cases as) (auto simp: synced_def path_up_Cons)
  then have "\<exists>bc'. ConnectBestChain S n b bc = Some (Inr True, bc')"
    using bc1 assms(6) ConnectBlock_done(2) [OF bc1] by (simp add: ConnectBestChain_def Uint256_CompareTo_sign)
  then show ?thesis using extend_ok [OF assms(1) _ assms(6,7,2)] by blast
qed

text \<open>A block with more work that leaves the main chain further down replaces the blocks after that point.\<close>

lemma fork_live:
  assumes "forked holds extends bc ds as bs [] []" and "ds \<noteq> []" and "node_parent bc n = Some (hd as)"
    and "node_hash bc n = hash_of b" and "extends (drop (length ds) bs) b" and "\<not> bn_InMainChain (bc_nodes bc n)"
    and "node_hash bc n \<notin> node_hash bc ` set (ds @ as)" and "bn_WorkSum (bc_nodes bc n) > bn_WorkSum (bc_nodes bc (hd ds))"
    and "bk_Blockdata b = Some bd" and "bd_PrevBlockHash bd = node_hash bc (hd as)"
    and "\<And>s. holds s (drop (length ds) bs) \<Longrightarrow> check_context (ls_env S s) (bk_Transactions b) = Some True"
  shows "\<exists>bc'. ConnectBestChain S n b bc = Some (Inr True, bc')"
proof -
  note F = assms(1) [unfolded forked_def]
  have best: "bc_BestChain bc = Some (hd ds)" using F assms(2) by (cases ds) (auto simp: synced_def path_up_Cons)
  define bc1 where "bc1 = upd_node (hd as) (\<lambda>n'. n'\<lparr>bn_Children := bn_Children n' @ [n]\<rparr>)
    (upd_node n (\<lambda>n. n\<lparr>bn_InMainChain := False\<rparr>)
      (AddNodeToIndex n (bc\<lparr>bc_BlockCache := (bc_BlockCache bc)(node_hash bc n \<mapsto> b)\<rparr>)))"
  have tree: "same_tree (bc_nodes bc) (bc_nodes bc1)" by (auto simp: bc1_def same_tree_def)
  have f1: "forked holds extends bc1 ds as bs ([] @ [n]) ([] @ [b])"
    by (rule forked_snoc [OF assms(1)]) (use assms in \<open>auto simp: bc1_def same_tree_def\<close>)
  have "\<exists>bc'. ReorganizeChain S ds [n] bc1 = Some (None, bc')"
  proof (rule reorganize_one)
    fix bc2 assume b2: "synced holds bc2 as (drop (length ds) bs)" "same_tree (bc_nodes bc1) (bc_nodes bc2)"
    have eq: "same_tree (bc_nodes bc) (bc_nodes bc2)" by (rule same_tree_trans [OF tree b2(2)])
    show "\<exists>bc3. ConnectBlock S n b bc2 = Some (None, bc3)"
      by (rule connect_live [OF b2(1) assms(5) _ assms(9)])
         (use assms(3,10,11) b2(1) eq in \<open>auto simp: synced_def same_tree_def\<close>)
  qed (use f1 assms(7) tree in \<open>auto simp: forked_def same_tree_def\<close>)
  then obtain bc' where "ReorganizeChain S ds [n] bc1 = Some (None, bc')" by blast
  moreover have "GetReorganizeNodes n bc1 = Some (ds, [n])" using GetReorganizeNodes_fork [OF f1] by simp
  moreover have "node_hash bc (hd as) \<noteq> node_hash bc (hd ds)"
    using forked_best [OF assms(1) best] assms(2) by simp
  ultimately show ?thesis
    using ConnectBestChain_side [OF best assms(3) _ bc1_def] assms(8) by simp
qed

end

section \<open>The chain store keeps the contract\<close>

abbreviation height_of :: "Block \<Rightarrow> u32" where
  "height_of b \<equiv> bd_Height (the (bk_Blockdata b))"

primrec ledger_of :: "Block list \<Rightarrow> ledger_abs" where
  "ledger_of [] = empty_abs"
| "ledger_of (b # bs) = apply_block (height_of b) (bk_Transactions b) (ledger_of bs)"

text \<open>
  What a block needs beside the checks of \<open>ConnectBlock\<close>: it is well formed, no two of its
  transactions have the same hash or spend the same output, none has more outputs than the 16-bit
  index can name, it is one higher than the chain and its hash is new; and the owner lists of the new
  ledger can be read back. Two of these conditions are checked nowhere in the program: the inputs of
  different transactions of a block are not compared, and the outputs of a transaction are not counted.
\<close>

definition store_extends :: "Block list \<Rightarrow> Block \<Rightarrow> bool" where
  "store_extends bs b \<longleftrightarrow> live_block b \<and> distinct (map tx_id (bk_Transactions b)) \<and> distinct (spent (bk_Transactions b)) \<and>
     (\<forall>t\<in>set (bk_Transactions b). length (tx_Outputs t) \<le> 65536) \<and>
     (bs \<noteq> [] \<longrightarrow> height_of b = height_of (hd bs) + 1 \<and> height_of (hd bs) < height_of b) \<and>
     hash_of b \<notin> hash_of ` set bs \<and> small (ledger_of (b # bs))"

fun chain_ok :: "Block list \<Rightarrow> bool" where
  "chain_ok [] = True"
| "chain_ok (b # bs) \<longleftrightarrow> chain_ok bs \<and> store_extends bs b \<and> fits (bk_Transactions b) (ledger_of bs)"

definition store_holds :: "'d leveldb \<Rightarrow> ('d \<Rightarrow> byte list \<Rightarrow> byte list option) \<Rightarrow> 'd ChainStore \<Rightarrow> Block list \<Rightarrow> bool" where
  "store_holds L view cs bs \<longleftrightarrow> leveldb_ok L view \<and> bs \<noteq> [] \<and> chain_ok bs \<and> represents (view (cs_db cs)) (ledger_of bs) \<and>
     (\<forall>b\<in>set bs. block_stored (view (cs_db cs)) (ledger_of bs) b) \<and> GetHeight cs = height_of (hd bs)"

lemma check_context_all:
  "check_context env ts = Some True \<longleftrightarrow> (\<forall>t\<in>set ts. CheckTransactionContext env t = Some ErrNoError)"
  by (induction ts) (auto split: bind_splits)

lemma check_context_fits:
  assumes "leveldb_ok L view" and "represents (view (cs_db cs)) A" and "check_context (store_env L env cs) ts = Some True"
    and "list_all live_tx ts" and "distinct (map tx_id ts)" and "distinct (spent ts)" and "\<forall>t\<in>set ts. length (tx_Outputs t) \<le> 65536"
  shows "fits ts A"
proof -
  have new: "ab_tx A (tx_id t) = None" and unspent: "IsCoinBaseTx t \<or> outpoint ` set (tx_UTXOInputs t) \<subseteq> ab_utxo A"
    if tin: "t \<in> set ts" for t
  proof -
    have c: "CheckTransactionContext (store_env L env cs) t = Some ErrNoError" using assms(3) tin by (simp add: check_context_all)
    obtain t' where "Transaction_Hash t = Some (tx_id t, t')" using live_Hash [of t] tin assms(4) by (auto simp: list_all_iff)
    then have "\<not> IsTxHashDuplicate L cs (tx_id t) \<and> (IsCoinBaseTx t \<or> \<not> IsDoubleSpend L cs t)"
      using c by (auto simp: CheckTransactionContext_def store_env_def split: if_splits)
    then show "ab_tx A (tx_id t) = None" "IsCoinBaseTx t \<or> outpoint ` set (tx_UTXOInputs t) \<subseteq> ab_utxo A"
      using IsTxHashDuplicate_ok [OF assms(1,2)] IsDoubleSpend_ok [OF assms(1,2)] by auto
  qed
  have "(tx_id t, i) \<notin> ab_utxo A" if "t \<in> set ts" for t i
  proof
    assume "(tx_id t, i) \<in> ab_utxo A"
    then have "\<exists>x. ab_tx A (tx_id t) = Some x" using assms(2) unfolding represents_def by blast
    then show False using new [OF that] by simp
  qed
  moreover have "set (spent ts) \<subseteq> ab_utxo A" using unspent by (auto simp: spent_def spends_def)
  ultimately show ?thesis using new assms(4-7) by (simp add: fits_def fresh_def)
qed

lemma chain_known: "chain_ok bs \<Longrightarrow> known (ab_tx (ledger_of bs)) (ab_utxo (ledger_of bs))"
proof (induction bs)
  case Nil
  then show ?case by (simp add: empty_abs_def known_def)
qed (simp add: apply_block_known)

lemma chain_txs:
  "chain_ok bs \<Longrightarrow> b \<in> set bs \<Longrightarrow> t \<in> set (bk_Transactions b) \<Longrightarrow> ab_tx (ledger_of bs) (tx_id t) = Some (plain t, height_of b)"
  by (induction bs) (auto simp: apply_block_tx)

lemma chain_new:
  assumes "chain_ok (b # bs)" and "x \<in> set bs"
  shows "hash_of x \<noteq> hash_of b"
proof -
  have "hash_of b \<notin> hash_of ` set bs" using assms(1) by (simp add: store_extends_def)
  then show ?thesis using assms(2) by (metis image_eqI)
qed

lemma live_data: "live_block b \<Longrightarrow> \<exists>bd. bk_Blockdata b = Some bd \<and> hash_of b = Blockdata_Hash bd \<and> height_of b = bd_Height bd"
  by (auto simp: live_block_def hash_of_def split: option.splits)

lemma block_stored_frame:
  assumes "block_stored v A b" and "v' (hash_key DATA_Header (hash_of b)) = v (hash_key DATA_Header (hash_of b))"
    and "chain_ok bs" and "b \<in> set bs"
  shows "block_stored v' (ledger_of bs) b"
  using assms chain_txs [OF assms(3,4)] by (auto simp: block_stored_def hash_of_def)

lemma chain_small: "chain_ok bs \<Longrightarrow> small (ledger_of bs)"
  using mint_ok(5) by (cases bs) (auto simp: store_extends_def)

lemma store_save:
  assumes "store_holds L view cs bs" and "store_extends bs b" and "check_context (store_env L env cs) (bk_Transactions b) = Some True"
  shows "\<exists>cs'. SaveBlock L b cs = Some (None, cs') \<and> store_holds L view cs' (b # bs)"
proof -
  note H = assms(1) [unfolded store_holds_def]
  have live: "live_block b" using assms(2) by (simp add: store_extends_def)
  then obtain bd where bd: "bk_Blockdata b = Some bd" "hash_of b = Blockdata_Hash bd" "height_of b = bd_Height bd" using live_data by blast
  have fit: "fits (bk_Transactions b) (ledger_of bs)"
    using H assms(2) by (intro check_context_fits [OF _ _ assms(3)]) (auto simp: store_extends_def live_block_def)
  have ok: "chain_ok (b # bs)" using H assms(2) fit by simp
  have less: "GetHeight cs < bd_Height bd" using H assms(2) bd by (auto simp: store_extends_def)
  obtain cs' where cs': "SaveBlock L b cs = Some (None, cs')" "represents (view (cs_db cs')) (ledger_of (b # bs))"
      "block_stored (view (cs_db cs')) (ledger_of (b # bs)) b" "GetHeight cs' = bd_Height bd"
      "\<forall>h. h \<noteq> Blockdata_Hash bd \<longrightarrow> view (cs_db cs') (hash_key DATA_Header h) = view (cs_db cs) (hash_key DATA_Header h)"
    using SaveBlock_correct [of L view cs "ledger_of bs" b bd "ledger_of (b # bs)"] H chain_small live bd fit less by auto
  have "block_stored (view (cs_db cs')) (ledger_of (b # bs)) x" if "x \<in> set bs" for x
  proof (rule block_stored_frame [OF _ _ ok])
    show "block_stored (view (cs_db cs)) (ledger_of bs) x" using H that by blast
    have "hash_of x \<noteq> Blockdata_Hash bd" using chain_new [OF ok that] bd(2) by simp
    then show "view (cs_db cs') (hash_key DATA_Header (hash_of x)) = view (cs_db cs) (hash_key DATA_Header (hash_of x))"
      using cs'(5) by blast
  qed (use that in simp)
  then show ?thesis using cs' ok H bd by (intro exI [of _ cs']) (simp add: store_holds_def)
qed

lemma store_rollback:
  assumes "store_holds L view cs (b # bs)" and "bs \<noteq> []"
  shows "\<exists>cs'. RollbackBlock L (hash_of b) cs = Some (None, cs') \<and> store_holds L view cs' bs"
proof -
  note H = assms(1) [unfolded store_holds_def]
  have ok: "chain_ok (b # bs)" using H by blast
  then have live: "live_block b" by (simp add: store_extends_def)
  then obtain bd where bd: "bk_Blockdata b = Some bd" "hash_of b = Blockdata_Hash bd" "height_of b = bd_Height bd" using live_data by blast
  have led: "ledger_of (b # bs) = apply_block (bd_Height bd) (bk_Transactions b) (ledger_of bs)" by (simp add: bd)
  have st: "block_stored (view (cs_db cs)) (ledger_of (b # bs)) b" using H by simp
  obtain cs' where cs': "RollbackBlock L (Blockdata_Hash bd) cs = Some (None, cs')" "represents (view (cs_db cs')) (ledger_of bs)"
      "GetHeight cs' = bd_Height bd - 1"
      "\<forall>h. h \<noteq> Blockdata_Hash bd \<longrightarrow> view (cs_db cs') (hash_key DATA_Header h) = view (cs_db cs) (hash_key DATA_Header h)"
    using RollbackBlock_stored [of L view cs bd b "ledger_of bs"] H chain_small [OF ok] st bd(1) ok chain_known [of bs]
    unfolding led [symmetric] by auto
  have "block_stored (view (cs_db cs')) (ledger_of bs) x" if "x \<in> set bs" for x
  proof (rule block_stored_frame [OF _ _ _ that])
    show "block_stored (view (cs_db cs)) (ledger_of (b # bs)) x" using H that by simp
    have "hash_of x \<noteq> Blockdata_Hash bd" using chain_new [OF ok that] bd(2) by simp
    then show "view (cs_db cs') (hash_key DATA_Header (hash_of x)) = view (cs_db cs) (hash_key DATA_Header (hash_of x))"
      using cs'(4) by blast
  qed (use ok in simp)
  moreover have "height_of (hd bs) = bd_Height bd - 1" using ok assms(2) bd by (auto simp: store_extends_def)
  ultimately show ?thesis using cs' ok H bd assms(2) by (intro exI [of _ cs']) (simp add: store_holds_def)
qed

lemma store_get:
  assumes "store_holds L view cs bs" and "b \<in> set bs"
  shows "GetBlock L cs (hash_of b) = Some (Inr (bare b))"
proof -
  have st: "block_stored (view (cs_db cs)) (ledger_of bs) b" using assms by (simp add: store_holds_def)
  then obtain bd where bd: "bk_Blockdata b = Some bd" "hash_of b = Blockdata_Hash bd" using live_data by (auto simp: block_stored_def)
  then show ?thesis using GetBlock_stored [of L view cs, OF _ _ st bd(1)] assms(1) by (simp add: store_holds_def)
qed

interpretation kept: ledger_laws "chain_store L env" "store_holds L view" store_extends for L env view
  by unfold_locales (simp_all add: chain_store_def store_save store_rollback store_get)

end
