(* ===== verification/Chain_Example.thy ===== *)
theory Chain_Example
  imports Chain_Ledger
begin

text \<open>
  The block chain on the chain store: the contract of \<open>Chain_Ledger\<close> for the definitions of the
  program, and a chain of one block on which a second one is connected.
\<close>

section \<open>Two blocks\<close>

text \<open>A chain of one block and a second block on it; the hashes are evaluated.\<close>

definition first_tx :: Transaction where
  "first_tx = new_Transaction\<lparr>tx_TxType := CoinBase, tx_Payload := Some (PCoinBase [1])\<rparr>"

definition second_tx :: Transaction where
  "second_tx = new_Transaction\<lparr>tx_TxType := CoinBase, tx_Payload := Some (PCoinBase [2])\<rparr>"

definition first_data :: Blockdata where
  "first_data = new_Blockdata
     \<lparr>bd_TransactionsRoot := 5508187771357182981396773302728128877034030935468141644122602003065666346437, bd_Height := 1\<rparr>"

definition second_data :: Blockdata where
  "second_data = new_Blockdata
     \<lparr>bd_PrevBlockHash := 98019652577328198439089269592434231139817929166635670647590958357234856142026,
      bd_TransactionsRoot := 100690024565498823255397395663743064197628494299868215572243007320072899867638, bd_Height := 2\<rparr>"

lemma first_id: "tx_id first_tx = 5508187771357182981396773302728128877034030935468141644122602003065666346437"
  by code_simp

lemma second_id: "tx_id second_tx = 100690024565498823255397395663743064197628494299868215572243007320072899867638"
  by code_simp

lemma first_hash: "Blockdata_Hash first_data = 98019652577328198439089269592434231139817929166635670647590958357234856142026"
  by code_simp

lemma second_hash: "Blockdata_Hash second_data = 22389995921469783261171110687447876797220679043961822125918125520197859208024"
  by code_simp

lemma root_one: "merkle_root [h] = h"
  by (simp add: merkle_root.simps)

definition first_block :: Block where
  "first_block = \<lparr>bk_Blockdata = Some first_data, bk_Transactions = [first_tx], bk_hash = None\<rparr>"

definition second_block :: Block where
  "second_block = \<lparr>bk_Blockdata = Some second_data, bk_Transactions = [second_tx], bk_hash = None\<rparr>"

definition first_chain :: "'s \<Rightarrow> 's Blockchain" where
  "first_chain st = (NewBlockchain st)
     \<lparr>bc_nodes := (\<lambda>_. nil_node)
        (0 := (NewBlockNode first_data (Blockdata_Hash first_data))\<lparr>bn_InMainChain := True\<rparr>,
         1 := (NewBlockNode second_data (Blockdata_Hash second_data))\<lparr>bn_Parent := Some 0\<rparr>),
      bc_BestChain := Some 0\<rparr>"

lemma example_live: "live_tx first_tx" "live_tx second_tx" "live_block first_block" "live_block second_block"
proof -
  show t: "live_tx first_tx" "live_tx second_tx"
    by (simp_all add: live_tx_def first_tx_def second_tx_def transaction_ok_def new_Transaction_def bytes_ok_def maxAlloc_def plain_def wire_form_def)
  show "live_block first_block" "live_block second_block"
    using t new_AuxPow_ok first_id second_id
    by (simp_all add: live_block_def first_block_def second_block_def first_data_def second_data_def blockdata_ok_def
        new_Blockdata_def root_one)
qed

lemma example_txs:
  "spent [first_tx] = []" "spent [second_tx] = []" "created [first_tx] = {}" "created [second_tx] = {}"
  "tx_Outputs first_tx = []" "tx_Outputs second_tx = []" "IsCoinBaseTx second_tx"
  by (simp_all add: spent_one created_one spends_def IsCoinBaseTx_def first_tx_def second_tx_def new_Transaction_def out_set_def)

lemma example_extends: "store_extends [] first_block" "store_extends [first_block] second_block"
proof -
  have utxo: "ab_utxo (ledger_of [first_block]) = {}" "ab_utxo (ledger_of [second_block, first_block]) = {}"
    using example_txs by (simp_all add: apply_block_def first_block_def second_block_def empty_abs_def)
  have "small (ledger_of [first_block])" "small (ledger_of [second_block, first_block])"
    by (rule small_finite; simp only: utxo; simp)+
  moreover have "hash_of second_block \<noteq> hash_of first_block"
    using first_hash second_hash by (simp add: hash_of_def first_block_def second_block_def)
  ultimately show "store_extends [] first_block" "store_extends [first_block] second_block"
    using example_live example_txs
    by (simp_all add: store_extends_def first_block_def second_block_def first_data_def second_data_def)
qed

lemma first_fits: "fits (bk_Transactions first_block) empty_abs"
  using example_live example_txs by (simp add: fits_def fresh_def first_block_def empty_abs_def)

lemma first_stored:
  "\<exists>cs. SaveBlock map_db first_block mint_store = Some (None, cs) \<and> store_holds map_db (\<lambda>d. d) cs [first_block]"
proof -
  have data: "bk_Blockdata first_block = Some first_data" by (simp add: first_block_def)
  have "GetHeight mint_store < bd_Height first_data"
    by (simp add: GetHeight_def mint_store_def NewChainStore_def first_data_def)
  then obtain cs where "SaveBlock map_db first_block mint_store = Some (None, cs)"
      "represents (cs_db cs) (ledger_of [first_block])" "block_stored (cs_db cs) (ledger_of [first_block]) first_block"
      "GetHeight cs = bd_Height first_data"
    using SaveBlock_correct [OF map_db_ok, of mint_store empty_abs first_block first_data "ledger_of [first_block]"]
      mint_ok(5,6) example_live(3) data first_fits by auto
  then show ?thesis using example_extends(1) first_fits map_db_ok
    by (intro exI [of _ cs]) (simp add: store_holds_def data)
qed

lemma first_synced:
  assumes "store_holds map_db (\<lambda>d. d) cs [first_block]"
  shows "synced (store_holds map_db (\<lambda>d. d)) (first_chain cs) [0] [first_block]"
  using assms by (simp add: synced_def first_chain_def NewBlockchain_def path_up_Some NewBlockNode_def hash_of_def first_block_def)

lemma second_checks:
  assumes "store_holds map_db (\<lambda>d. d) cs [first_block]"
  shows "check_context (ls_env (chain_store map_db env) cs) (bk_Transactions second_block) = Some True"
proof -
  have "represents (cs_db cs) (ledger_of [first_block])" using assms by (simp add: store_holds_def)
  moreover have "ab_tx (ledger_of [first_block]) (tx_id second_tx) = None"
    using first_id second_id by (simp add: apply_block_def first_block_def empty_abs_def tx_entry_def)
  ultimately have "\<not> IsTxHashDuplicate map_db cs (tx_id second_tx)"
    using IsTxHashDuplicate_ok [OF map_db_ok, of cs "ledger_of [first_block]"] by (simp add: dom_def)
  then show ?thesis using live_Hash [OF example_live(2)] example_txs(7)
    by (auto simp: CheckTransactionContext_def second_block_def chain_store_def store_env_def)
qed

lemma first_forked:
  assumes "store_holds map_db (\<lambda>d. d) cs [first_block]"
  shows "forked (store_holds map_db (\<lambda>d. d)) store_extends (first_chain cs) [] [0] [first_block] [] []"
  using first_synced [OF assms] by (simp add: forked_def)

lemma first_chain_nodes:
  "node_parent (first_chain cs) 1 = Some 0" "node_hash (first_chain cs) 1 = hash_of second_block"
  "\<not> bn_InMainChain (bc_nodes (first_chain cs) 1)" "node_hash (first_chain cs) 0 = Blockdata_Hash first_data"
  "bc_store (first_chain cs) = cs" "bd_PrevBlockHash second_data = node_hash (first_chain cs) 0"
  "node_hash (first_chain cs) 1 \<noteq> node_hash (first_chain cs) 0"
  using first_hash second_hash
  by (simp_all add: first_chain_def NewBlockNode_def hash_of_def second_block_def NewBlockchain_def) (simp add: second_data_def)

section \<open>A fork\<close>

text \<open>A third block on the first one, with the transaction of the second and more work.\<close>

definition third_data :: Blockdata where
  "third_data = new_Blockdata
     \<lparr>bd_PrevBlockHash := 98019652577328198439089269592434231139817929166635670647590958357234856142026,
      bd_TransactionsRoot := 100690024565498823255397395663743064197628494299868215572243007320072899867638,
      bd_Bits := 0x207fffff, bd_Height := 2\<rparr>"

definition third_block :: Block where
  "third_block = \<lparr>bk_Blockdata = Some third_data, bk_Transactions = [second_tx], bk_hash = None\<rparr>"

lemma third_hash: "Blockdata_Hash third_data = 105440601187960028011632605907537769023667791619299545174811418859129548305912"
  by code_simp

lemma third_work: "CalcWork (bd_Bits third_data) = 2" "CalcWork (bd_Bits second_data) = 0"
  by code_simp+

lemma third_live: "live_block third_block"
  using example_live(2) new_AuxPow_ok second_id
  by (simp add: live_block_def third_block_def third_data_def blockdata_ok_def new_Blockdata_def root_one)

lemma third_extends: "store_extends [first_block] third_block"
proof -
  have utxo: "ab_utxo (ledger_of [third_block, first_block]) = {}"
    using example_txs by (simp add: apply_block_def first_block_def third_block_def empty_abs_def)
  have "small (ledger_of [third_block, first_block])" by (rule small_finite; simp only: utxo; simp)
  moreover have "hash_of third_block \<noteq> hash_of first_block"
    using first_hash third_hash by (simp add: hash_of_def first_block_def third_block_def)
  ultimately show ?thesis
    using third_live example_txs
    by (simp add: store_extends_def first_block_def third_block_def first_data_def third_data_def)
qed

lemma third_checks:
  assumes "store_holds map_db (\<lambda>d. d) cs [first_block]"
  shows "check_context (ls_env (chain_store map_db env) cs) (bk_Transactions third_block) = Some True"
  using second_checks [OF assms] by (simp add: third_block_def second_block_def)

definition fork_chain :: "'s \<Rightarrow> 's Blockchain" where
  "fork_chain st = (NewBlockchain st)
     \<lparr>bc_nodes := (\<lambda>_. nil_node)
        (0 := (NewBlockNode first_data (Blockdata_Hash first_data))\<lparr>bn_InMainChain := True\<rparr>,
         1 := (NewBlockNode second_data (Blockdata_Hash second_data))\<lparr>bn_Parent := Some 0, bn_InMainChain := True\<rparr>,
         2 := (NewBlockNode third_data (Blockdata_Hash third_data))\<lparr>bn_Parent := Some 0\<rparr>),
      bc_BestChain := Some 1\<rparr>"

lemma fork_chain_nodes:
  "bc_store (fork_chain cs) = cs" "bc_BestChain (fork_chain cs) = Some 1"
  "node_parent (fork_chain cs) 0 = None" "node_parent (fork_chain cs) 1 = Some 0" "node_parent (fork_chain cs) 2 = Some 0"
  "node_hash (fork_chain cs) 0 = hash_of first_block" "node_hash (fork_chain cs) 1 = hash_of second_block"
  "node_hash (fork_chain cs) 2 = hash_of third_block"
  "bn_InMainChain (bc_nodes (fork_chain cs) 0)" "bn_InMainChain (bc_nodes (fork_chain cs) 1)"
  "\<not> bn_InMainChain (bc_nodes (fork_chain cs) 2)"
  "bn_WorkSum (bc_nodes (fork_chain cs) 1) < bn_WorkSum (bc_nodes (fork_chain cs) 2)"
  using third_work
  by (simp_all add: fork_chain_def NewBlockchain_def NewBlockNode_def hash_of_def first_block_def second_block_def third_block_def)

lemma fork_hashes: "hash_of first_block \<noteq> hash_of second_block" "hash_of first_block \<noteq> hash_of third_block"
  "hash_of second_block \<noteq> hash_of third_block" "bd_PrevBlockHash third_data = hash_of first_block"
  using first_hash second_hash third_hash
  by (simp_all add: hash_of_def first_block_def second_block_def third_block_def) (simp add: third_data_def)

lemma second_stored: "\<exists>cs. store_holds map_db (\<lambda>d. d) cs [second_block, first_block]"
proof -
  obtain cs where cs: "store_holds map_db (\<lambda>d. d) cs [first_block]" using first_stored by blast
  then show ?thesis
    using store_save [OF cs example_extends(2), of sample_env] second_checks [OF cs, of sample_env] by (auto simp: chain_store_def)
qed

lemma fork_forked:
  assumes "store_holds map_db (\<lambda>d. d) cs [second_block, first_block]"
  shows "forked (store_holds map_db (\<lambda>d. d)) store_extends (fork_chain cs) [1] [0] [second_block, first_block] [] []"
  using assms fork_chain_nodes [of cs] fork_hashes by (simp add: forked_def synced_def path_up_Some)

end
