(* ===== verification/Vm_Model.thy ===== *)
theory Vm_Model
  imports Go_Sha256
begin

text \<open>
  The virtual machine of \<^verbatim>\<open>src/vm\<close>: the items on its stacks (\<^verbatim>\<open>types\<close>), the random access stack and the
  script reader (\<^verbatim>\<open>utils\<close>), the opcodes with their handlers (\<^verbatim>\<open>func_*.go\<close>, \<^verbatim>\<open>opcode_exec.go\<close>), the
  system calls (\<^verbatim>\<open>interop_service.go\<close>) and the execution engine.

  The handlers that compute in place (\<^verbatim>\<open>opBigInt\<close>, \<^verbatim>\<open>opBigIntZip\<close>, \<^verbatim>\<open>opInvert\<close>) change integers that other
  entries of the evaluation stack and of the alternative stack may share, and \<^verbatim>\<open>opCat\<close> and \<^verbatim>\<open>opSubStr\<close>
  depend on the spare capacity of a slice, which Go leaves open. These five handlers are not modelled:
  they are an argument, \<open>ve_inplace\<close>, an arbitrary function on both stacks, which are all they touch, so
  that what is shown holds whatever they compute. What the engine is given (the crypto interface, the
  script table, the signed message, the step limit) is in the same record.
\<close>

unbundle bit_operations_syntax

abbreviation (input) int64 :: "int \<Rightarrow> int" where
  "int64 i \<equiv> sint (word_of_int i :: i64)"

section \<open>Stack items\<close>

text \<open>An entry of an array may be nil.\<close>

datatype StackItem = Integer int | Boolean bool | ByteArray "byte list" | Array "StackItem option list"

fun GetBigInteger :: "StackItem \<Rightarrow> int go" where
  "GetBigInteger (Integer i) = Some i"
| "GetBigInteger (Boolean b) = Some (if b then 1 else 0)"
| "GetBigInteger (ByteArray bs) = Some (int (be_val bs))"
| "GetBigInteger (Array []) = Some 0"
| "GetBigInteger (Array (None # xs)) = panic"
| "GetBigInteger (Array (Some x # xs)) = GetBigInteger x"

fun GetBoolean :: "StackItem \<Rightarrow> bool go" where
  "GetBoolean (Integer i) = Some (i \<noteq> 0)"
| "GetBoolean (Boolean b) = Some b"
| "GetBoolean (ByteArray bs) = Some (list_ex (\<lambda>b. b \<noteq> 0) bs)"
| "GetBoolean (Array []) = Some False"
| "GetBoolean (Array (None # xs)) = panic"
| "GetBoolean (Array (Some x # xs)) = GetBoolean x"

fun GetByteArray :: "StackItem \<Rightarrow> byte list" where
  "GetByteArray (Integer i) = big_Bytes i"
| "GetByteArray (Boolean b) = (if b then [1] else [0])"
| "GetByteArray (ByteArray bs) = bs"
| "GetByteArray (Array xs) = []"

fun GetArray :: "StackItem \<Rightarrow> StackItem option list" where
  "GetArray (Array xs) = xs"
| "GetArray x = [Some x]"

fun Equals :: "StackItem \<Rightarrow> StackItem option \<Rightarrow> bool go"
  and equals_all :: "StackItem option list \<Rightarrow> StackItem option list \<Rightarrow> bool go" where
  "Equals (Integer i) y = Some (case y of Some (Integer j) \<Rightarrow> i = j | _ \<Rightarrow> False)"
| "Equals (Boolean b) y = Some (case y of Some (Boolean c) \<Rightarrow> b = c | _ \<Rightarrow> False)"
| "Equals (ByteArray bs) y = Some (case y of Some (ByteArray cs) \<Rightarrow> bs = cs | _ \<Rightarrow> False)"
| "Equals (Array xs) y =
     (case y of
        Some (Array ys) \<Rightarrow> if length xs \<noteq> length ys then Some False else equals_all xs ys
      | _ \<Rightarrow> Some False)"
| "equals_all [] ys = Some True"
| "equals_all (None # xs) ys = panic"
| "equals_all (Some x # xs) [] = panic"
| "equals_all (Some x # xs) (y # ys) = do {
     same \<leftarrow> Equals x y;
     (if \<not> same then Some False else equals_all xs ys) }"

text \<open>
  What lies on a stack: items, nil, the byte slices and the script container that system calls push,
  and the slices that \<open>stack_Insert\<close> leaves.
\<close>

datatype elem = Item StackItem | NilElem | RawBytes "byte list" | ScriptContainer | Elems "elem list"

fun AssertStackItem :: "elem option \<Rightarrow> StackItem option" where
  "AssertStackItem (Some (Item x)) = Some x"
| "AssertStackItem _ = None"

section \<open>The random access stack\<close>

text \<open>The top is the last element. A missing element is \<open>None\<close>, Go's nil.\<close>

definition stack_Count :: "'a list \<Rightarrow> int" where
  "stack_Count st = int (length st)"

definition stack_Insert :: "nat \<Rightarrow> elem \<Rightarrow> elem list \<Rightarrow> elem list" where
  "stack_Insert index t st =
     (let l = length st
      in if index > l then st
         else if index = 0 then st @ [t]
         else [Elems (take (l - index) st), t] @ drop (l - index) st)"

definition stack_Peek :: "int \<Rightarrow> 'a list \<Rightarrow> 'a option go" where
  "stack_Peek index st =
     (let l = stack_Count st
      in if index \<ge> l then Some None
         else if index < 0 then panic
         else Some (Some (st ! nat (l - index - 1))))"

definition stack_Remove :: "nat \<Rightarrow> 'a list \<Rightarrow> 'a option \<times> 'a list" where
  "stack_Remove index st =
     (let l = length st
      in if index \<ge> l then (None, st)
         else (Some (st ! (l - index - 1)), take (l - index - 1) st @ drop (l - index) st))"

definition stack_Push :: "'a \<Rightarrow> 'a list \<Rightarrow> 'a list" where
  "stack_Push t st = st @ [t]"

definition stack_Pop :: "'a list \<Rightarrow> 'a option \<times> 'a list" where
  "stack_Pop st = stack_Remove 0 st"

definition stack_Swap :: "nat \<Rightarrow> nat \<Rightarrow> 'a list \<Rightarrow> 'a list go" where
  "stack_Swap i j st = (if i < length st \<and> j < length st then Some (st[i := st ! j, j := st ! i]) else panic)"

fun elem_of :: "elem option \<Rightarrow> elem" where
  "elem_of (Some x) = x"
| "elem_of None = NilElem"

section \<open>Contexts and the engine\<close>

text \<open>\<open>ec_rest\<close> is what the reader of the script has not read yet.\<close>

record ExecutionContext =
  ec_Script :: "byte list"
  ec_rest :: "byte list"
  ec_PushOnly :: bool
  ec_IP :: int

definition NewExecutionContext :: "byte list \<Rightarrow> bool \<Rightarrow> ExecutionContext" where
  "NewExecutionContext script pushOnly = \<lparr>ec_Script = script, ec_rest = script, ec_PushOnly = pushOnly, ec_IP = 0\<rparr>"

definition Clone :: "ExecutionContext \<Rightarrow> ExecutionContext" where
  "Clone ec = NewExecutionContext (ec_Script ec) (ec_PushOnly ec)"

abbreviation (input) NONE :: byte where "NONE \<equiv> 0"
abbreviation (input) HALT :: byte where "HALT \<equiv> 1"
abbreviation (input) FAULT :: byte where "FAULT \<equiv> 2"
abbreviation (input) BREAK :: byte where "BREAK \<equiv> 4"

text \<open>
  The context that runs has been taken off the invocation stack and is \<open>en_context\<close>. \<open>en_opCount\<close> counts
  at most the bytes of the scripts run and does not overflow.
\<close>

record ExecutionEngine =
  en_inv :: "ExecutionContext list"
  en_opCount :: int
  en_eval :: "elem list"
  en_alt :: "elem list"
  en_state :: byte
  en_context :: ExecutionContext
  en_opCode :: byte

type_synonym op_result = "(byte \<times> goerr option \<times> ExecutionEngine) go"

record vm_env =
  ve_Hash160 :: "byte list \<Rightarrow> byte list"
  ve_Hash256 :: "byte list \<Rightarrow> byte list"
  ve_VerifySignature :: "byte list \<Rightarrow> byte list \<Rightarrow> byte list \<Rightarrow> (bool \<times> goerr option) go"
  ve_table :: "(byte list \<Rightarrow> byte list option) option"
  ve_message :: "byte list go"
  ve_maxSteps :: int
  ve_inplace :: "byte \<Rightarrow> elem list \<Rightarrow> elem list \<Rightarrow> (byte \<times> goerr option \<times> elem list \<times> elem list) go"

definition NewExecutionEngine :: ExecutionEngine where
  "NewExecutionEngine =
     \<lparr>en_inv = [], en_opCount = 0, en_eval = [], en_alt = [], en_state = BREAK,
      en_context = NewExecutionContext [] False, en_opCode = 0\<rparr>"

definition LoadScript :: "byte list \<Rightarrow> bool \<Rightarrow> ExecutionEngine \<Rightarrow> ExecutionEngine" where
  "LoadScript script pushOnly e = e\<lparr>en_inv := stack_Push (NewExecutionContext script pushOnly) (en_inv e)\<rparr>"

definition context_script :: "ExecutionContext option \<Rightarrow> byte list" where
  "context_script c = (case c of Some c \<Rightarrow> ec_Script c | None \<Rightarrow> [])"

definition ExecutingScript :: "ExecutionEngine \<Rightarrow> byte list go" where
  "ExecutingScript e = do { c \<leftarrow> stack_Peek 0 (en_inv e); Some (context_script c) }"

definition CallingScript :: "ExecutionEngine \<Rightarrow> byte list go" where
  "CallingScript e =
     (if stack_Count (en_inv e) > 1 then do { c \<leftarrow> stack_Peek 1 (en_inv e); Some (context_script c) } else Some [])"

definition EntryScript :: "ExecutionEngine \<Rightarrow> byte list go" where
  "EntryScript e = do { c \<leftarrow> stack_Peek (stack_Count (en_inv e) - 1) (en_inv e); Some (context_script c) }"

section \<open>The script reader\<close>

text \<open>Reading past the end gives zero bytes.\<close>

definition read_bytes :: "int \<Rightarrow> ExecutionEngine \<Rightarrow> byte list \<times> ExecutionEngine" where
  "read_bytes count e =
     (let c = en_context e; n = nat count
      in (zpad n (ec_rest c), e\<lparr>en_context := c\<lparr>ec_rest := drop n (ec_rest c)\<rparr>\<rparr>))"

definition ReadInt16 :: "ExecutionEngine \<Rightarrow> int \<times> ExecutionEngine" where
  "ReadInt16 e = (let (b, e) = read_bytes 2 e in (sint (get_le (rev b) :: u16), e))"

definition ReadInt32 :: "ExecutionEngine \<Rightarrow> int \<times> ExecutionEngine" where
  "ReadInt32 e = (let (b, e) = read_bytes 4 e in (sint (get_le (rev b) :: u32), e))"

definition ReadVarInt :: "int \<Rightarrow> ExecutionEngine \<Rightarrow> int \<times> ExecutionEngine" where
  "ReadVarInt limit e =
     (let (b, e) = read_bytes 1 e; fb = hd b;
          (value, e) =
            (if fb = 0xFD then (let (v, e) = ReadInt16 e in (uint (word_of_int v :: u64), e))
             else if fb = 0xFE then (let (b, e) = read_bytes 4 e in (int (le_val b), e))
             else if fb = 0xFF then (let (b, e) = read_bytes 8 e in (int (le_val b), e))
             else (uint fb, e))
      in (if value > limit then 0 else value, e))"

definition ReadVarString :: "ExecutionEngine \<Rightarrow> byte list \<times> ExecutionEngine" where
  "ReadVarString e = (let (n, e) = ReadVarInt 0x7fffffc7 e in read_bytes n e)"

section \<open>Pushing and popping\<close>

text \<open>The Go values that handlers hand to \<^verbatim>\<open>NewStackItem\<close>; a value of another type is refused.\<close>

datatype go_data = DInt int | DBool bool | DBytes "byte list" | DItems "StackItem option list" | DOther

fun NewStackItem :: "go_data \<Rightarrow> goerr + StackItem" where
  "NewStackItem (DInt i) = Inr (Integer i)"
| "NewStackItem (DBool b) = Inr (Boolean b)"
| "NewStackItem (DBytes bs) = Inr (ByteArray bs)"
| "NewStackItem (DItems xs) = Inr (Array xs)"
| "NewStackItem DOther = Inl (ErrNew ''bad type'')"

definition push_elem :: "elem \<Rightarrow> ExecutionEngine \<Rightarrow> ExecutionEngine" where
  "push_elem x e = e\<lparr>en_eval := stack_Push x (en_eval e)\<rparr>"

definition pushData :: "go_data \<Rightarrow> ExecutionEngine \<Rightarrow> goerr option \<times> ExecutionEngine" where
  "pushData data e =
     (case NewStackItem data of
        Inr d \<Rightarrow> (None, push_elem (Item d) e)
      | Inl err \<Rightarrow> (Some err, e))"

definition push_result :: "go_data \<Rightarrow> ExecutionEngine \<Rightarrow> op_result" where
  "push_result data e =
     (case pushData data e of
        (Some err, e) \<Rightarrow> Some (FAULT, Some err, e)
      | (None, e) \<Rightarrow> Some (NONE, None, e))"

definition pop_elem :: "ExecutionEngine \<Rightarrow> elem option \<times> ExecutionEngine" where
  "pop_elem e = (let (x, st) = stack_Pop (en_eval e) in (x, e\<lparr>en_eval := st\<rparr>))"

text \<open>\<^verbatim>\<open>AssertStackItem(e.evaluationStack.Pop())\<close> with a method call: nil panics.\<close>

definition pop_item :: "ExecutionEngine \<Rightarrow> (StackItem \<times> ExecutionEngine) go" where
  "pop_item e = (let (x, e) = pop_elem e in do { i \<leftarrow> AssertStackItem x; Some (i, e) })"

definition pop_int :: "ExecutionEngine \<Rightarrow> (int \<times> ExecutionEngine) go" where
  "pop_int e = do { (x, e) \<leftarrow> pop_item e; i \<leftarrow> GetBigInteger x; Some (i, e) }"

definition pop_int64 :: "ExecutionEngine \<Rightarrow> (int \<times> ExecutionEngine) go" where
  "pop_int64 e = do { (i, e) \<leftarrow> pop_int e; Some (int64 i, e) }"

definition pop_bool :: "ExecutionEngine \<Rightarrow> (bool \<times> ExecutionEngine) go" where
  "pop_bool e = do { (x, e) \<leftarrow> pop_item e; b \<leftarrow> GetBoolean x; Some (b, e) }"

definition pop_bytes :: "ExecutionEngine \<Rightarrow> (byte list \<times> ExecutionEngine) go" where
  "pop_bytes e = do { (x, e) \<leftarrow> pop_item e; Some (GetByteArray x, e) }"

abbreviation (input) EvalCount :: "ExecutionEngine \<Rightarrow> int" where
  "EvalCount e \<equiv> stack_Count (en_eval e)"

abbreviation (input) op_done :: "ExecutionEngine \<Rightarrow> op_result" where
  "op_done e \<equiv> Some (NONE, None, e)"

abbreviation (input) op_fault :: "ExecutionEngine \<Rightarrow> op_result" where
  "op_fault e \<equiv> Some (FAULT, None, e)"

abbreviation (input) op_error :: "string \<Rightarrow> ExecutionEngine \<Rightarrow> op_result" where
  "op_error msg e \<equiv> Some (FAULT, Some (ErrNew msg), e)"

section \<open>Opcodes\<close>

abbreviation (input) OP_PUSH0 :: byte where "OP_PUSH0 \<equiv> 0x00"
abbreviation (input) OP_PUSHBYTES1 :: byte where "OP_PUSHBYTES1 \<equiv> 0x01"
abbreviation (input) OP_PUSHBYTES75 :: byte where "OP_PUSHBYTES75 \<equiv> 0x4B"
abbreviation (input) OP_PUSHDATA1 :: byte where "OP_PUSHDATA1 \<equiv> 0x4C"
abbreviation (input) OP_PUSHDATA2 :: byte where "OP_PUSHDATA2 \<equiv> 0x4D"
abbreviation (input) OP_PUSHDATA4 :: byte where "OP_PUSHDATA4 \<equiv> 0x4E"
abbreviation (input) OP_PUSHM1 :: byte where "OP_PUSHM1 \<equiv> 0x4F"
abbreviation (input) OP_PUSH1 :: byte where "OP_PUSH1 \<equiv> 0x51"
abbreviation (input) OP_PUSH16 :: byte where "OP_PUSH16 \<equiv> 0x60"
abbreviation (input) OP_NOP :: byte where "OP_NOP \<equiv> 0x61"
abbreviation (input) OP_JMP :: byte where "OP_JMP \<equiv> 0x62"
abbreviation (input) OP_JMPIF :: byte where "OP_JMPIF \<equiv> 0x63"
abbreviation (input) OP_JMPIFNOT :: byte where "OP_JMPIFNOT \<equiv> 0x64"
abbreviation (input) OP_CALL :: byte where "OP_CALL \<equiv> 0x65"
abbreviation (input) OP_RET :: byte where "OP_RET \<equiv> 0x66"
abbreviation (input) OP_APPCALL :: byte where "OP_APPCALL \<equiv> 0x67"
abbreviation (input) OP_SYSCALL :: byte where "OP_SYSCALL \<equiv> 0x68"
abbreviation (input) OP_NZ :: byte where "OP_NZ \<equiv> 0x92"
abbreviation (input) OP_BOOLAND :: byte where "OP_BOOLAND \<equiv> 0x9A"
abbreviation (input) OP_BOOLOR :: byte where "OP_BOOLOR \<equiv> 0x9B"
abbreviation (input) OP_NUMEQUAL :: byte where "OP_NUMEQUAL \<equiv> 0x9C"
abbreviation (input) OP_NUMNOTEQUAL :: byte where "OP_NUMNOTEQUAL \<equiv> 0x9E"
abbreviation (input) OP_LT :: byte where "OP_LT \<equiv> 0x9F"
abbreviation (input) OP_GT :: byte where "OP_GT \<equiv> 0xA0"
abbreviation (input) OP_LTE :: byte where "OP_LTE \<equiv> 0xA1"
abbreviation (input) OP_GTE :: byte where "OP_GTE \<equiv> 0xA2"
abbreviation (input) OP_SHA1 :: byte where "OP_SHA1 \<equiv> 0xA7"
abbreviation (input) OP_SHA256 :: byte where "OP_SHA256 \<equiv> 0xA8"
abbreviation (input) OP_HASH160 :: byte where "OP_HASH160 \<equiv> 0xA9"
abbreviation (input) OP_HASH256 :: byte where "OP_HASH256 \<equiv> 0xAA"
abbreviation (input) OP_CHECKSIG :: byte where "OP_CHECKSIG \<equiv> 0xAC"
abbreviation (input) OP_CHECKMULTISIG :: byte where "OP_CHECKMULTISIG \<equiv> 0xAE"

section \<open>Constants\<close>

definition getPushData :: "ExecutionEngine \<Rightarrow> go_data \<times> ExecutionEngine" where
  "getPushData e =
     (let op = en_opCode e
      in if OP_PUSHBYTES1 \<le> op \<and> op \<le> OP_PUSHBYTES75
         then (let (b, e) = read_bytes (uint op) e in (DBytes b, e))
         else if op = OP_PUSH0 then (DBytes [0], e)
         else if op = OP_PUSHDATA1
         then (let (d, e) = read_bytes 1 e; (b, e) = read_bytes (uint (hd d)) e in (DBytes b, e))
         else if op = OP_PUSHDATA2
         then (let (d, e) = read_bytes 2 e; (b, e) = read_bytes (int (le_val d)) e in (DBytes b, e))
         else if op = OP_PUSHDATA4
         then (let (n, e) = ReadInt32 e; (b, e) = read_bytes n e in (DBytes b, e))
         else if op = OP_PUSHM1 \<or> OP_PUSH1 \<le> op \<and> op \<le> OP_PUSH16
         then (DInt (sint (op - OP_PUSH1 + 1)), e)
         else (DOther, e))"

definition opPushData :: "ExecutionEngine \<Rightarrow> op_result" where
  "opPushData e = (let (data, e) = getPushData e in push_result data e)"

section \<open>Flow control\<close>

definition opNop :: "ExecutionEngine \<Rightarrow> op_result" where
  "opNop e = op_done e"

text \<open>A jump moves the instruction pointer, which no reader of the script looks at.\<close>

definition set_IP :: "int \<Rightarrow> ExecutionEngine \<Rightarrow> ExecutionEngine" where
  "set_IP i e = e\<lparr>en_context := (en_context e)\<lparr>ec_IP := i\<rparr>\<rparr>"

definition opJmp :: "ExecutionEngine \<Rightarrow> op_result" where
  "opJmp e =
     (let (offset, e) = ReadInt16 e;
          offset = ec_IP (en_context e) + offset - 3
      in if offset < 0 \<or> offset > int (length (ec_Script (en_context e)))
         then op_error ''The exeution meet fault'' e
         else do {
           (fValue, e) \<leftarrow>
             (if en_opCode e > OP_JMP
              then do { (b, e) \<leftarrow> pop_bool e; Some (if en_opCode e = OP_JMPIFNOT then \<not> b else b, e) }
              else Some (True, e));
           op_done (if fValue then set_IP offset e else e) })"

definition opCall :: "ExecutionEngine \<Rightarrow> op_result" where
  "opCall e =
     (let c = en_context e;
          e = set_IP (ec_IP c + 2) (e\<lparr>en_inv := stack_Push (Clone c) (en_inv e)\<rparr>)
      in do { (_, _, e) \<leftarrow> opJmp e; op_done e })"

text \<open>
  What \<open>opRet\<close> pops is a context and not a stack item, so the assertion gives nil and the call of its
  method panics; the seek after it is never reached.
\<close>

definition opRet :: "ExecutionEngine \<Rightarrow> op_result" where
  "opRet e = (if stack_Count (en_inv e) < 2 then op_fault e else panic)"

definition opAppCall :: "vm_env \<Rightarrow> ExecutionEngine \<Rightarrow> op_result" where
  "opAppCall V e =
     (case ve_table V of
        None \<Rightarrow> op_fault e
      | Some GetScript \<Rightarrow>
          (let (script_hash, e) = read_bytes 20 e
           in case GetScript script_hash of
                None \<Rightarrow> op_fault e
              | Some script \<Rightarrow> op_done (LoadScript script False e)))"

definition str_bytes :: "string \<Rightarrow> byte list" where
  "str_bytes s = map (\<lambda>c. word_of_nat (of_char c)) s"

definition Invoke :: "vm_env \<Rightarrow> byte list \<Rightarrow> ExecutionEngine \<Rightarrow> (bool \<times> ExecutionEngine) go" where
  "Invoke V name e =
     (if name = str_bytes ''System.ScriptEngine.GetScriptContainer'' then Some (True, push_elem ScriptContainer e)
      else if name = str_bytes ''System.ScriptEngine.GetExecutingScriptHash''
      then do { s \<leftarrow> ExecutingScript e; Some (True, push_elem (RawBytes (ve_Hash160 V s)) e) }
      else if name = str_bytes ''System.ScriptEngine.GetCallingScriptHash''
      then do { s \<leftarrow> CallingScript e; Some (True, push_elem (RawBytes (ve_Hash160 V s)) e) }
      else if name = str_bytes ''System.ScriptEngine.GetEntryScriptHash''
      then do { s \<leftarrow> EntryScript e; Some (True, push_elem (RawBytes (ve_Hash160 V s)) e) }
      else Some (False, e))"

definition opSysCall :: "vm_env \<Rightarrow> ExecutionEngine \<Rightarrow> op_result" where
  "opSysCall V e =
     (let (name, e) = ReadVarString e
      in do { (success, e) \<leftarrow> Invoke V name e; (if success then op_done e else op_fault e) })"

section \<open>Stack operations\<close>

definition opToAltStack :: "ExecutionEngine \<Rightarrow> op_result" where
  "opToAltStack e =
     (if EvalCount e < 1 then op_fault e
      else let (x, e) = pop_elem e in op_done (e\<lparr>en_alt := stack_Push (elem_of x) (en_alt e)\<rparr>))"

definition opFromAltStack :: "ExecutionEngine \<Rightarrow> op_result" where
  "opFromAltStack e =
     (if EvalCount e < 1 then op_fault e
      else let (x, alt) = stack_Pop (en_alt e) in op_done (push_elem (elem_of x) (e\<lparr>en_alt := alt\<rparr>)))"

definition opXDrop :: "ExecutionEngine \<Rightarrow> op_result" where
  "opXDrop e =
     (if EvalCount e < 1 then op_fault e
      else do {
        (n, e) \<leftarrow> pop_int64 e;
        (if n < 0 then op_fault e else op_done (e\<lparr>en_eval := snd (stack_Remove (nat n) (en_eval e))\<rparr>)) })"

definition opXSwap :: "ExecutionEngine \<Rightarrow> op_result" where
  "opXSwap e =
     (if EvalCount e < 1 then op_fault e
      else do {
        (n, e) \<leftarrow> pop_int64 e;
        (if n < 0 \<or> n > EvalCount e - 1 then op_fault e
         else do { st \<leftarrow> stack_Swap 0 (nat n) (en_eval e); op_done (e\<lparr>en_eval := st\<rparr>) }) })"

definition opXTuck :: "ExecutionEngine \<Rightarrow> op_result" where
  "opXTuck e =
     (if EvalCount e < 1 then op_fault e
      else do {
        (n, e) \<leftarrow> pop_int64 e;
        (if n < 0 \<or> n > EvalCount e - 1 then op_fault e
         else do {
           x \<leftarrow> stack_Peek 0 (en_eval e);
           op_done (e\<lparr>en_eval := stack_Insert (nat n) (elem_of x) (en_eval e)\<rparr>) }) })"

definition opDepth :: "ExecutionEngine \<Rightarrow> op_result" where
  "opDepth e = op_done (snd (pushData (DInt (EvalCount e)) e))"

definition opDrop :: "ExecutionEngine \<Rightarrow> op_result" where
  "opDrop e = (if EvalCount e < 1 then op_fault e else op_done (snd (pop_elem e)))"

definition opDup :: "ExecutionEngine \<Rightarrow> op_result" where
  "opDup e =
     (if EvalCount e < 1 then op_fault e
      else do { x \<leftarrow> stack_Peek 0 (en_eval e); op_done (push_elem (elem_of x) e) })"

definition opNip :: "ExecutionEngine \<Rightarrow> op_result" where
  "opNip e =
     (if EvalCount e < 2 then op_fault e
      else let (x2, e) = pop_elem e; (_, e) = pop_elem e in op_done (push_elem (elem_of x2) e))"

definition opOver :: "ExecutionEngine \<Rightarrow> op_result" where
  "opOver e =
     (if EvalCount e < 2 then op_fault e
      else let (x2, e) = pop_elem e
           in do { x1 \<leftarrow> stack_Peek 0 (en_eval e); op_done (push_elem (elem_of x1) (push_elem (elem_of x2) e)) })"

definition opPick :: "ExecutionEngine \<Rightarrow> op_result" where
  "opPick e =
     (if EvalCount e < 2 then op_fault e
      else do {
        (n, e) \<leftarrow> pop_int64 e;
        (if n < 0 \<or> EvalCount e < int64 (n + 1) then op_fault e
         else do { x \<leftarrow> stack_Peek n (en_eval e); op_done (push_elem (elem_of x) e) }) })"

definition opRoll :: "ExecutionEngine \<Rightarrow> op_result" where
  "opRoll e =
     (if EvalCount e < 2 then op_fault e
      else do {
        (n, e) \<leftarrow> pop_int64 e;
        (if n < 0 then op_fault e
         else if n = 0 then op_done e
         else if EvalCount e < int64 (n + 1) then op_fault e
         else let (x, st) = stack_Remove (nat n) (en_eval e) in op_done (push_elem (elem_of x) (e\<lparr>en_eval := st\<rparr>))) })"

definition opRot :: "ExecutionEngine \<Rightarrow> op_result" where
  "opRot e =
     (if EvalCount e < 3 then op_fault e
      else let (x3, e) = pop_elem e; (x2, e) = pop_elem e; (x1, e) = pop_elem e
           in op_done (push_elem (elem_of x1) (push_elem (elem_of x3) (push_elem (elem_of x2) e))))"

definition opSwap :: "ExecutionEngine \<Rightarrow> op_result" where
  "opSwap e =
     (if EvalCount e < 2 then op_fault e
      else let (x2, e) = pop_elem e; (x1, e) = pop_elem e
           in op_done (push_elem (elem_of x1) (push_elem (elem_of x2) e)))"

definition opTuck :: "ExecutionEngine \<Rightarrow> op_result" where
  "opTuck e =
     (if EvalCount e < 2 then op_fault e
      else let (x2, e) = pop_elem e; (x1, e) = pop_elem e
           in op_done (push_elem (elem_of x2) (push_elem (elem_of x1) (push_elem (elem_of x2) e))))"

section \<open>Byte strings, comparisons and logic\<close>

definition opLeft :: "ExecutionEngine \<Rightarrow> op_result" where
  "opLeft e =
     (if EvalCount e < 2 then op_fault e
      else do {
        (count, e) \<leftarrow> pop_int64 e;
        (if count < 0 then op_fault e
         else do {
           (s, e) \<leftarrow> pop_bytes e;
           (if count > int (length s) then op_fault e else push_result (DBytes (take (nat count) s)) e) }) })"

definition opRight :: "ExecutionEngine \<Rightarrow> op_result" where
  "opRight e =
     (if EvalCount e < 2 then op_fault e
      else do {
        (count, e) \<leftarrow> pop_int64 e;
        (if count < 0 then op_fault e
         else do {
           (s, e) \<leftarrow> pop_bytes e;
           (if count > int (length s) then op_fault e
            else push_result (DBytes (drop (length s - nat count) s)) e) }) })"

definition opSize :: "ExecutionEngine \<Rightarrow> op_result" where
  "opSize e =
     (if EvalCount e < 1 then op_fault e
      else do {
        x \<leftarrow> stack_Peek 0 (en_eval e);
        s \<leftarrow> AssertStackItem x;
        push_result (DInt (int (length (GetByteArray s)))) e })"

definition opEqual :: "ExecutionEngine \<Rightarrow> op_result" where
  "opEqual e =
     (if EvalCount e < 2 then op_fault e
      else let (x2, e) = pop_elem e; (x1, e) = pop_elem e
           in do {
             b1 \<leftarrow> AssertStackItem x1;
             r \<leftarrow> Equals b1 (AssertStackItem x2);
             push_result (DBool r) e })"

definition opNot :: "ExecutionEngine \<Rightarrow> op_result" where
  "opNot e =
     (if EvalCount e < 1 then op_fault e else do { (x, e) \<leftarrow> pop_bool e; push_result (DBool (\<not> x)) e })"

definition BigIntComp :: "int \<Rightarrow> byte \<Rightarrow> bool" where
  "BigIntComp i op = (op = OP_NZ \<and> i \<noteq> 0)"

definition opNz :: "ExecutionEngine \<Rightarrow> op_result" where
  "opNz e =
     (if EvalCount e < 1 then op_fault e
      else do { (x, e) \<leftarrow> pop_int e; push_result (DBool (BigIntComp x (en_opCode e))) e })"

definition BoolZip :: "bool \<Rightarrow> bool \<Rightarrow> byte \<Rightarrow> bool" where
  "BoolZip a b op = (if op = OP_BOOLAND then a \<and> b else if op = OP_BOOLOR then a \<or> b else False)"

definition opBoolZip :: "ExecutionEngine \<Rightarrow> op_result" where
  "opBoolZip e =
     (if EvalCount e < 2 then op_fault e
      else do { (x2, e) \<leftarrow> pop_bool e; (x1, e) \<leftarrow> pop_bool e; push_result (DBool (BoolZip x1 x2 (en_opCode e))) e })"

definition BigIntMultiComp :: "int \<Rightarrow> int \<Rightarrow> byte \<Rightarrow> bool" where
  "BigIntMultiComp a b op =
     (if op = OP_NUMEQUAL then a = b else if op = OP_NUMNOTEQUAL then a \<noteq> b
      else if op = OP_LT then a < b else if op = OP_GT then a > b
      else if op = OP_LTE then a \<le> b else if op = OP_GTE then a \<ge> b else False)"

definition opBigIntComp :: "ExecutionEngine \<Rightarrow> op_result" where
  "opBigIntComp e =
     (if EvalCount e < 2 then op_fault e
      else do { (x2, e) \<leftarrow> pop_int e; (x1, e) \<leftarrow> pop_int e; push_result (DBool (BigIntMultiComp x1 x2 (en_opCode e))) e })"

definition WithInOp :: "int \<Rightarrow> int \<Rightarrow> int \<Rightarrow> bool" where
  "WithInOp i a b = BoolZip (BigIntMultiComp i a OP_GTE) (BigIntMultiComp i b OP_LT) OP_BOOLAND"

definition opWithIn :: "ExecutionEngine \<Rightarrow> op_result" where
  "opWithIn e =
     (if EvalCount e < 3 then op_fault e
      else do { (b, e) \<leftarrow> pop_int e; (a, e) \<leftarrow> pop_int e; (x, e) \<leftarrow> pop_int e; push_result (DBool (WithInOp x a b)) e })"

section \<open>Hashes and signatures\<close>

text \<open>\<^verbatim>\<open>crypto/sha1\<close> of the Go standard library (FIPS 180-4); the schedule has the newest word first.\<close>

type_synonym sha1_state = "u32 \<times> u32 \<times> u32 \<times> u32 \<times> u32"

primrec sha1_schedule :: "nat \<Rightarrow> u32 list \<Rightarrow> u32 list" where
  "sha1_schedule 0 w = rev w"
| "sha1_schedule (Suc n) w = sha1_schedule n (word_rotl 1 (w ! 2 XOR w ! 7 XOR w ! 13 XOR w ! 15) # w)"

fun sha1_round :: "sha1_state \<Rightarrow> nat \<times> u32 \<Rightarrow> sha1_state" where
  "sha1_round (a, b, c, d, e) (i, w) =
     (let (f, k) =
            (if i < 20 then ((b AND c) OR (NOT b AND d), 0x5A827999)
             else if i < 40 then (b XOR c XOR d, 0x6ED9EBA1)
             else if i < 60 then ((b AND c) OR (b AND d) OR (c AND d), 0x8F1BBCDC)
             else (b XOR c XOR d, 0xCA62C1D6))
      in (word_rotl 5 a + f + e + w + k, a, word_rotl 30 b, c, d))"

fun sha1_add :: "sha1_state \<Rightarrow> sha1_state \<Rightarrow> sha1_state" where
  "sha1_add (a, b, c, d, e) (a', b', c', d', e') = (a + a', b + b', c + c', d + d', e + e')"

definition sha1_block :: "sha1_state \<Rightarrow> byte list \<Rightarrow> sha1_state" where
  "sha1_block st block =
     sha1_add st (foldl sha1_round st (zip [0..<80] (sha1_schedule 64 (rev (be_words block)))))"

fun sha1_blocks :: "nat \<Rightarrow> sha1_state \<Rightarrow> byte list \<Rightarrow> sha1_state" where
  "sha1_blocks 0 st bs = st"
| "sha1_blocks (Suc n) st bs = sha1_blocks n (sha1_block st (take 64 bs)) (drop 64 bs)"

fun sha1_output :: "sha1_state \<Rightarrow> byte list" where
  "sha1_output (a, b, c, d, e) = concat (map (\<lambda>w. rev (put_le 4 w)) [a, b, c, d, e])"

definition sha1 :: "byte list \<Rightarrow> byte list" where
  "sha1 msg =
     (let p = sha_pad msg
      in sha1_output (sha1_blocks (length p div 64) (0x67452301, 0xEFCDAB89, 0x98BADCFE, 0x10325476, 0xC3D2E1F0) p))"

definition vm_Hash :: "vm_env \<Rightarrow> byte list \<Rightarrow> ExecutionEngine \<Rightarrow> byte list" where
  "vm_Hash V b e =
     (if en_opCode e = OP_SHA1 then sha1 b
      else if en_opCode e = OP_SHA256 then sha256 b
      else if en_opCode e = OP_HASH160 then ve_Hash160 V b
      else if en_opCode e = OP_HASH256 then ve_Hash256 V b
      else [])"

definition opHash :: "vm_env \<Rightarrow> ExecutionEngine \<Rightarrow> op_result" where
  "opHash V e =
     (if EvalCount e < 1 then op_fault e
      else do { (x, e) \<leftarrow> pop_bytes e; push_result (DBytes (vm_Hash V x e)) e })"

definition opCheckSig :: "vm_env \<Rightarrow> ExecutionEngine \<Rightarrow> op_result" where
  "opCheckSig V e =
     (if EvalCount e < 2 then op_fault e
      else do {
        (pubkey, e) \<leftarrow> pop_bytes e;
        (signature, e) \<leftarrow> pop_bytes e;
        message \<leftarrow> ve_message V;
        (ver, _) \<leftarrow> ve_VerifySignature V message signature pubkey;
        push_result (DBool ver) e })"

primrec pop_many :: "nat \<Rightarrow> ExecutionEngine \<Rightarrow> (byte list list \<times> ExecutionEngine) go" where
  "pop_many 0 e = Some ([], e)"
| "pop_many (Suc n) e = do { (b, e) \<leftarrow> pop_bytes e; (bs, e) \<leftarrow> pop_many n e; Some (b # bs, e) }"

text \<open>The keys left after the first one that verifies the signature is taken out, if there is one.\<close>

fun take_key :: "vm_env \<Rightarrow> byte list \<Rightarrow> byte list list \<Rightarrow> byte list list option go" where
  "take_key V signature [] = Some None"
| "take_key V signature (pubkey # pubkeys) = do {
     message \<leftarrow> ve_message V;
     (ok, _) \<leftarrow> ve_VerifySignature V message signature pubkey;
     (if ok then Some (Some pubkeys)
      else do { r \<leftarrow> take_key V signature pubkeys; Some (map_option ((#) pubkey) r) }) }"

fun match_signatures :: "vm_env \<Rightarrow> byte list list \<Rightarrow> byte list list \<Rightarrow> nat \<Rightarrow> (bool \<times> nat) go" where
  "match_signatures V [] pubkeys count = Some (True, count)"
| "match_signatures V (s # ss) pubkeys count = do {
     r \<leftarrow> take_key V s pubkeys;
     (case r of
        Some pubkeys \<Rightarrow> match_signatures V ss pubkeys (Suc count)
      | None \<Rightarrow> Some (False, count)) }"

definition opCheckMultiSig :: "vm_env \<Rightarrow> ExecutionEngine \<Rightarrow> op_result" where
  "opCheckMultiSig V e =
     (if EvalCount e < 4 then op_error ''element count is not enough'' e
      else do {
        (n, e) \<leftarrow> pop_int64 e;
        (if n < 1 then op_error ''invalid n in multisig'' e
         else if EvalCount e < int64 (n + 2) then op_error ''invalid element count'' e
         else let e = e\<lparr>en_opCount := int64 (en_opCount e + n)\<rparr>
              in if en_opCount e > ve_maxSteps V then op_error ''too many OP code'' e
                 else do {
                   go_make 24 (nat n);
                   (pubkeys, e) \<leftarrow> pop_many (nat n) e;
                   (m, e) \<leftarrow> pop_int64 e;
                   (if m < 1 \<or> m > n then op_error ''invalid m in multisig'' e
                    else if EvalCount e < m then op_error ''signatures in stack is not enough'' e
                    else do {
                      (signatures, e) \<leftarrow> pop_many (nat m) e;
                      (fSuccess, count) \<leftarrow> match_signatures V signatures pubkeys 0;
                      push_result (DBool (fSuccess \<and> int count = m)) e }) }) })"

section \<open>Arrays\<close>

definition opArraySize :: "ExecutionEngine \<Rightarrow> op_result" where
  "opArraySize e =
     (if EvalCount e < 1 then op_fault e
      else do { (x, e) \<leftarrow> pop_item e; push_result (DInt (int (length (GetArray x)))) e })"

primrec pack_items :: "nat \<Rightarrow> ExecutionEngine \<Rightarrow> StackItem option list \<times> ExecutionEngine" where
  "pack_items 0 e = ([], e)"
| "pack_items (Suc n) e =
     (let (x, e) = pop_elem e; (xs, e) = pack_items n e in (AssertStackItem x # xs, e))"

definition opPack :: "ExecutionEngine \<Rightarrow> op_result" where
  "opPack e =
     (if EvalCount e < 1 then op_fault e
      else do {
        (size, e) \<leftarrow> pop_int64 e;
        (if size < 0 \<or> size > EvalCount e then op_fault e
         else let (items, e) = pack_items (nat size) e in push_result (DItems items) e) })"

definition opUnpack :: "ExecutionEngine \<Rightarrow> op_result" where
  "opUnpack e =
     (if EvalCount e < 1 then op_fault e
      else do {
        (x, e) \<leftarrow> pop_item e;
        let arr = GetArray x;
        let e = foldl (\<lambda>e i. push_elem (case i of Some y \<Rightarrow> Item y | None \<Rightarrow> NilElem) e) e (rev arr);
        push_result (DInt (int (length arr))) e })"

text \<open>The item found is a stack item already, which \<open>NewStackItem\<close> does not know.\<close>

definition opPickItem :: "ExecutionEngine \<Rightarrow> op_result" where
  "opPickItem e =
     (if EvalCount e < 1 then op_fault e
      else do {
        (index, e) \<leftarrow> pop_int64 e;
        (if index < 0 then op_fault e
         else do {
           (x, e) \<leftarrow> pop_item e;
           (if index \<ge> int (length (GetArray x)) then op_fault e else push_result DOther e) }) })"

section \<open>The table of opcodes\<close>

definition op_inplace :: "vm_env \<Rightarrow> ExecutionEngine \<Rightarrow> op_result" where
  "op_inplace V e = do {
     (state, err, eval, alt) \<leftarrow> ve_inplace V (en_opCode e) (en_eval e) (en_alt e);
     Some (state, err, e\<lparr>en_eval := eval, en_alt := alt\<rparr>) }"

definition op_table :: "vm_env \<Rightarrow> (byte \<times> (ExecutionEngine \<Rightarrow> op_result)) list" where
  "op_table V =
     [(0x6B, opToAltStack), (0x6C, opFromAltStack), (0x6D, opXDrop), (0x72, opXSwap), (0x73, opXTuck),
      (0x74, opDepth), (0x75, opDrop), (0x76, opDup), (0x77, opNip), (0x78, opOver), (0x79, opPick),
      (0x7A, opRoll), (0x7B, opRot), (0x7C, opSwap), (0x7D, opTuck),
      (0x7E, op_inplace V), (0x7F, op_inplace V), (0x80, opLeft), (0x81, opRight), (0x82, opSize),
      (0x83, op_inplace V), (0x84, op_inplace V), (0x85, op_inplace V), (0x86, op_inplace V), (0x87, opEqual),
      (0x8B, op_inplace V), (0x8C, op_inplace V), (0x8D, op_inplace V), (0x8E, op_inplace V),
      (0x8F, op_inplace V), (0x90, op_inplace V), (0x91, opNot), (OP_NZ, opNz),
      (0x93, op_inplace V), (0x94, op_inplace V), (0x95, op_inplace V), (0x96, op_inplace V),
      (0x97, op_inplace V), (0x98, op_inplace V), (0x99, op_inplace V),
      (OP_BOOLAND, opBoolZip), (OP_BOOLOR, opBoolZip), (OP_NUMEQUAL, opBigIntComp),
      (OP_NUMNOTEQUAL, opBigIntComp), (OP_LT, opBigIntComp), (OP_GT, opBigIntComp), (OP_LTE, opBigIntComp),
      (OP_GTE, opBigIntComp), (0xA3, op_inplace V), (0xA4, op_inplace V), (0xA5, opWithIn),
      (OP_SHA1, opHash V), (OP_SHA256, opHash V), (OP_HASH160, opHash V), (OP_HASH256, opHash V),
      (OP_CHECKSIG, opCheckSig V), (OP_CHECKMULTISIG, opCheckMultiSig V),
      (0xC0, opArraySize), (0xC1, opPack), (0xC2, opUnpack), (0xC3, opPickItem)]"

definition OpExecList :: "vm_env \<Rightarrow> byte \<Rightarrow> (ExecutionEngine \<Rightarrow> op_result) option" where
  "OpExecList V op =
     (if op \<in> {0x00, 0x01, 0x4B, 0x4C, 0x4D, 0x4E, 0x4F} \<or> 0x51 \<le> op \<and> op \<le> 0x60 then Some opPushData
      else if op = OP_NOP then Some opNop
      else if op \<in> {OP_JMP, OP_JMPIF, OP_JMPIFNOT} then Some opJmp
      else if op = OP_CALL then Some opCall
      else if op = OP_RET then Some opRet
      else if op = OP_APPCALL then Some (opAppCall V)
      else if op = OP_SYSCALL then Some (opSysCall V)
      else map_of (op_table V) op)"

section \<open>Execution\<close>

definition ExecuteOp :: "vm_env \<Rightarrow> byte \<Rightarrow> ExecutionEngine \<Rightarrow> op_result" where
  "ExecuteOp V opCode e =
     (if opCode > OP_PUSH16 \<and> opCode \<noteq> OP_RET \<and> ec_PushOnly (en_context e) then op_fault e
      else if opCode > OP_PUSH16 \<and> en_opCount e > ve_maxSteps V then op_fault e
      else if OP_PUSHBYTES1 \<le> opCode \<and> opCode \<le> OP_PUSHBYTES75
      then (let (b, e) = read_bytes (uint opCode) e in push_result (DBytes b) e)
      else let e = e\<lparr>en_opCode := opCode\<rparr>
           in case OpExecList V opCode of
                None \<Rightarrow> op_fault e
              | Some exec \<Rightarrow> do {
                  (state, err, e) \<leftarrow> exec e;
                  (if err \<noteq> None then Some (state, err, e) else op_done e) })"

text \<open>
  The loop over the opcodes of one script. Each turn reads at least one byte, so the number of
  unread bytes is enough fuel (\<open>run_ops_fuel\<close>).
\<close>

fun run_ops :: "vm_env \<Rightarrow> nat \<Rightarrow> ExecutionEngine \<Rightarrow> ExecutionEngine go" where
  "run_ops V n e =
     (case n of
        0 \<Rightarrow> Some e
      | Suc n \<Rightarrow>
          (case ec_rest (en_context e) of
             [] \<Rightarrow> Some e
           | opCode # rest \<Rightarrow> do {
               let e = e\<lparr>en_context := (en_context e)\<lparr>ec_rest := rest\<rparr>, en_opCount := en_opCount e + 1\<rparr>;
               (state, _, e) \<leftarrow> ExecuteOp V opCode e;
               (if state = HALT then Some (e\<lparr>en_state := en_state e OR HALT\<rparr>)
                else if state = FAULT then Some (e\<lparr>en_state := en_state e OR FAULT\<rparr>)
                else run_ops V n e) }))"

definition StepInto :: "vm_env \<Rightarrow> ExecutionEngine \<Rightarrow> ExecutionEngine go" where
  "StepInto V e =
     (let e = (if stack_Count (en_inv e) = 0 then e\<lparr>en_state := en_state e OR HALT\<rparr> else e)
      in if en_state e AND HALT = HALT \<or> en_state e AND FAULT = FAULT then Some e
         else (case stack_Pop (en_inv e) of
                 (None, _) \<Rightarrow> panic
               | (Some c, st) \<Rightarrow> run_ops V (length (ec_rest c)) (e\<lparr>en_inv := st, en_context := c\<rparr>)))"

text \<open>\<open>step_until\<close> has fuel for the calls of \<open>StepInto\<close>; its outer \<open>None\<close> is a loop that goes on.\<close>

fun step_until :: "vm_env \<Rightarrow> (ExecutionEngine \<Rightarrow> bool) \<Rightarrow> nat \<Rightarrow> ExecutionEngine \<Rightarrow> ExecutionEngine go option" where
  "step_until V stop n e =
     (if stop e then Some (Some e)
      else case n of
             0 \<Rightarrow> None
           | Suc n \<Rightarrow>
               (case StepInto V e of
                  None \<Rightarrow> Some panic
                | Some e \<Rightarrow> step_until V stop n e))"

definition stopped :: "ExecutionEngine \<Rightarrow> bool" where
  "stopped e \<longleftrightarrow> en_state e = FAULT \<or> en_state e = HALT \<or> en_state e = BREAK"

definition Execute :: "vm_env \<Rightarrow> nat \<Rightarrow> ExecutionEngine \<Rightarrow> ExecutionEngine go option" where
  "Execute V n e = step_until V stopped n (e\<lparr>en_state := en_state e AND NOT BREAK\<rparr>)"

definition StepOut :: "vm_env \<Rightarrow> nat \<Rightarrow> ExecutionEngine \<Rightarrow> ExecutionEngine go option" where
  "StepOut V n e =
     step_until V (\<lambda>e'. stopped e' \<or> stack_Count (en_inv e') \<ge> stack_Count (en_inv e)) n
       (e\<lparr>en_state := en_state e AND NOT BREAK\<rparr>)"

definition StepOver :: "vm_env \<Rightarrow> nat \<Rightarrow> ExecutionEngine \<Rightarrow> ExecutionEngine go option" where
  "StepOver V n e =
     (if en_state e = FAULT \<or> en_state e = HALT then Some (Some e)
      else step_until V (\<lambda>e'. stopped e' \<or> stack_Count (en_inv e') > stack_Count (en_inv e)) n
             (e\<lparr>en_state := en_state e AND NOT BREAK\<rparr>))"

definition GetExecuteResult :: "ExecutionEngine \<Rightarrow> (bool \<times> ExecutionEngine) go" where
  "GetExecuteResult e = pop_bool e"

declare run_ops.simps [simp del]
declare step_until.simps [simp del]

end
