(* ===== verification/Vm_Exec.thy ===== *)
theory Vm_Exec
  imports Vm_Model
begin

text \<open>
  Execution comes to an end: what each handler may change beside the stacks, the fuel of the loops,
  and the bound on the number of scripts that a run starts.
\<close>

section \<open>What a handler changes\<close>

lemma int64_small: "- (2 ^ 63) \<le> i \<Longrightarrow> i < 2 ^ 63 \<Longrightarrow> int64 i = i"
  by (simp add: signed_of_int signed_take_bit_int_eq_self)

definition stack_only :: "ExecutionEngine \<Rightarrow> ExecutionEngine \<Rightarrow> bool" where
  "stack_only e e' \<longleftrightarrow> en_inv e' = en_inv e \<and> en_opCount e' = en_opCount e \<and> en_context e' = en_context e \<and>
     en_state e' = en_state e \<and> en_opCode e' = en_opCode e"

lemma stack_only_refl [simp]: "stack_only e e"
  by (simp add: stack_only_def)

lemma stack_only_trans: "stack_only e e' \<Longrightarrow> stack_only e' e'' \<Longrightarrow> stack_only e e''"
  by (simp add: stack_only_def)

lemma stack_only_upd [simp]:
  "stack_only e (e'\<lparr>en_eval := st\<rparr>) = stack_only e e'" "stack_only e (e'\<lparr>en_alt := st\<rparr>) = stack_only e e'"
  "stack_only e (push_elem x e') = stack_only e e'"
  by (simp_all add: stack_only_def push_elem_def)

lemma pop_elem_only: "pop_elem e = (x, e') \<Longrightarrow> stack_only e e'"
  by (auto simp: pop_elem_def split: prod.splits)

lemma snd_pop_elem_only [simp]: "stack_only e (snd (pop_elem e))"
  by (simp add: pop_elem_def split: prod.splits)

lemma pop_item_only: "pop_item e = Some (x, e') \<Longrightarrow> stack_only e e'"
  by (auto simp: pop_item_def dest: pop_elem_only split: prod.splits bind_splits)

lemma pop_only:
  "pop_int e = Some (i, e') \<Longrightarrow> stack_only e e'" "pop_int64 e = Some (i, e') \<Longrightarrow> stack_only e e'"
  "pop_bool e = Some (b, e') \<Longrightarrow> stack_only e e'" "pop_bytes e = Some (bs, e') \<Longrightarrow> stack_only e e'"
  by (auto simp: pop_int64_def pop_int_def pop_bool_def pop_bytes_def dest: pop_item_only split: bind_splits)

lemma push_result_only: "push_result d e = Some (s, err, e') \<Longrightarrow> stack_only e e'"
  by (cases d) (auto simp: push_result_def pushData_def)

lemma pop_many_only: "pop_many n e = Some (bs, e') \<Longrightarrow> stack_only e e'"
  by (induction n arbitrary: e bs) (auto dest!: pop_only split: bind_splits, blast intro: stack_only_trans)

lemma pack_items_only: "pack_items n e = (xs, e') \<Longrightarrow> stack_only e e'"
  by (induction n arbitrary: e xs) (auto dest!: pop_elem_only split: prod.splits, blast intro: stack_only_trans)

lemma foldl_push_only: "stack_only (foldl (\<lambda>e i. push_elem (f i) e) e xs) e' = stack_only e e'"
  by (induction xs arbitrary: e) (simp_all add: stack_only_def push_elem_def)

lemmas only_intros = stack_only_trans
lemmas only_dests = pop_elem_only pop_item_only pop_only push_result_only pop_many_only pack_items_only

definition keeps :: "(ExecutionEngine \<Rightarrow> op_result) \<Rightarrow> bool" where
  "keeps f \<longleftrightarrow> (\<forall>e s err e'. f e = Some (s, err, e') \<longrightarrow> stack_only e e')"

lemma stack_ops_only [simp]:
  "keeps opToAltStack" "keeps opFromAltStack" "keeps opXDrop" "keeps opXSwap" "keeps opXTuck" "keeps opDepth"
  "keeps opDrop" "keeps opDup" "keeps opNip" "keeps opOver" "keeps opPick" "keeps opRoll" "keeps opRot"
  "keeps opSwap" "keeps opTuck"
  by (auto simp: keeps_def opToAltStack_def opFromAltStack_def opXDrop_def opXSwap_def opXTuck_def opDepth_def opDrop_def opDup_def
      opNip_def opOver_def opPick_def opRoll_def opRot_def opSwap_def opTuck_def Let_def pushData_def
      dest!: only_dests intro: only_intros split: if_splits prod.splits bind_splits)

lemma data_ops_only [simp]:
  "keeps opLeft" "keeps opRight" "keeps opSize" "keeps opEqual" "keeps opNot" "keeps opNz" "keeps opBoolZip"
  "keeps opBigIntComp" "keeps opWithIn" "keeps (opHash V)" "keeps (opCheckSig V)" "keeps opArraySize" "keeps opPack"
  "keeps opPickItem" "keeps (op_inplace V)" "keeps opNop"
  by (auto simp: keeps_def opLeft_def opRight_def opSize_def opEqual_def opNot_def opNz_def opBoolZip_def opBigIntComp_def opWithIn_def
      opHash_def opCheckSig_def opArraySize_def opPack_def opPickItem_def op_inplace_def opNop_def Let_def
      dest!: only_dests intro: only_intros split: if_splits prod.splits bind_splits)

lemma opUnpack_only [simp]:
  "keeps opUnpack"
  by (auto simp: keeps_def opUnpack_def Let_def foldl_push_only dest!: only_dests intro: only_intros split: if_splits prod.splits bind_splits)

text \<open>
  Beside the stacks, a step may read on in its script, raise the count, or start one more script
  (only while the count is within its limit). Otherwise it reports an error.
\<close>

definition advances :: "vm_env \<Rightarrow> ExecutionEngine \<Rightarrow> ExecutionEngine \<Rightarrow> bool" where
  "advances V e e' \<longleftrightarrow> en_state e' = en_state e \<and>
     length (ec_rest (en_context e')) \<le> length (ec_rest (en_context e)) \<and>
     (length (en_inv e') = length (en_inv e) \<and> en_opCount e \<le> en_opCount e' \<or>
      length (en_inv e') = Suc (length (en_inv e)) \<and> en_opCount e' = en_opCount e \<and> en_opCount e \<le> ve_maxSteps V)"

lemma only_advances: "stack_only e e' \<Longrightarrow> advances V e e'"
  by (simp add: stack_only_def advances_def)

definition reads :: "ExecutionEngine \<Rightarrow> ExecutionEngine \<Rightarrow> bool" where
  "reads e e' \<longleftrightarrow> en_state e' = en_state e \<and> length (ec_rest (en_context e')) \<le> length (ec_rest (en_context e)) \<and>
     en_inv e' = en_inv e \<and> en_opCount e' = en_opCount e"

lemma reads_refl [simp]: "reads e e"
  by (simp add: reads_def)

lemma reads_trans: "reads e e' \<Longrightarrow> reads e' e'' \<Longrightarrow> reads e e''"
  by (auto simp: reads_def)

lemma only_reads: "stack_only e e' \<Longrightarrow> reads e e'"
  by (simp add: stack_only_def reads_def)

lemma reads_upd [simp]: "reads e (set_IP i e') = reads e e'" "reads e (push_elem x e') = reads e e'"
  by (simp_all add: reads_def set_IP_def push_elem_def)

lemma read_bytes_reads: "read_bytes n e = (b, e') \<Longrightarrow> reads e e'"
  by (auto simp: read_bytes_def reads_def Let_def)

lemma ReadInt_reads: "ReadInt16 e = (i, e') \<Longrightarrow> reads e e'" "ReadInt32 e = (i, e') \<Longrightarrow> reads e e'"
  by (auto simp: ReadInt16_def ReadInt32_def dest: read_bytes_reads split: prod.splits)

lemma ReadVarString_reads: "ReadVarString e = (b, e') \<Longrightarrow> reads e e'"
  by (auto simp: ReadVarString_def ReadVarInt_def Let_def dest!: read_bytes_reads ReadInt_reads intro: reads_trans
      split: prod.splits if_splits)

lemma getPushData_reads: "getPushData e = (d, e') \<Longrightarrow> reads e e'"
  by (auto simp: getPushData_def Let_def dest!: read_bytes_reads ReadInt_reads intro: reads_trans split: prod.splits if_splits)

lemma opPushData_reads: "opPushData e = Some (s, err, e') \<Longrightarrow> reads e e'"
  by (auto simp: opPushData_def dest!: getPushData_reads push_result_only only_reads intro: reads_trans split: prod.splits)

lemma opJmp_reads: "opJmp e = Some (s, err, e') \<Longrightarrow> reads e e'"
  by (auto simp: opJmp_def Let_def dest!: ReadInt_reads pop_only only_reads intro: reads_trans split: prod.splits if_splits bind_splits)

lemma Invoke_reads: "Invoke V name e = Some (ok, e') \<Longrightarrow> reads e e'"
  by (auto simp: Invoke_def split: if_splits bind_splits)

lemma opSysCall_reads: "opSysCall V e = Some (s, err, e') \<Longrightarrow> reads e e'"
  by (auto simp: opSysCall_def dest!: ReadVarString_reads Invoke_reads intro: reads_trans split: prod.splits if_splits bind_splits)

lemma reads_advances: "reads e e' \<Longrightarrow> advances V e e'"
  by (simp add: reads_def advances_def)

lemma opCall_advances:
  assumes "opCall e = Some (s, err, e')" and "en_opCount e \<le> ve_maxSteps V"
  shows "advances V e e'"
proof -
  define e1 where "e1 = set_IP (ec_IP (en_context e) + 2) (e\<lparr>en_inv := stack_Push (Clone (en_context e)) (en_inv e)\<rparr>)"
  have "reads e1 e'" using assms(1) by (auto simp: opCall_def e1_def Let_def dest: opJmp_reads split: bind_splits)
  then show ?thesis using assms(2) by (simp add: reads_def advances_def e1_def set_IP_def stack_Push_def)
qed

lemma opAppCall_advances:
  assumes "opAppCall V e = Some (s, err, e')" and "en_opCount e \<le> ve_maxSteps V"
  shows "advances V e e'"
proof (cases "ve_table V")
  case (Some GetScript)
  obtain h e1 where r: "read_bytes 20 e = (h, e1)" by fastforce
  then have "reads e e1" by (rule read_bytes_reads)
  then show ?thesis using assms Some r
    by (auto simp: opAppCall_def advances_def reads_def LoadScript_def stack_Push_def split: option.splits)
qed (use assms in \<open>simp add: opAppCall_def advances_def\<close>)

lemma opCheckMultiSig_advances:
  assumes "opCheckMultiSig V e = Some (s, err, e')" and "en_opCount e \<le> ve_maxSteps V" and "ve_maxSteps V < 2 ^ 62"
    and "0 \<le> en_opCount e" and "err = None"
  shows "advances V e e'"
proof -
  obtain n e1 where p: "pop_int64 e = Some (n, e1)" using assms(1,5) by (auto simp: opCheckMultiSig_def split: if_splits bind_splits)
  define e2 where "e2 = e1\<lparr>en_opCount := int64 (en_opCount e1 + n)\<rparr>"
  have n: "1 \<le> n" "go_make 24 (nat n) = Some ()" and "stack_only e2 e'"
    using assms(1,5) p
    by (auto simp: opCheckMultiSig_def e2_def Let_def dest!: only_dests split: if_splits bind_splits) (meson stack_only_trans)
  then have "n \<le> 2 ^ 48" by (auto simp: go_make_def maxAlloc_def split: if_splits)
  moreover have "stack_only e e1" using p by (rule pop_only)
  ultimately have "- (2 ^ 63) \<le> en_opCount e1 + n \<and> en_opCount e1 + n < 2 ^ 63" "en_opCount e1 = en_opCount e"
    using assms(2-4) n(1) by (simp_all add: stack_only_def)
  then have "int64 (en_opCount e1 + n) = en_opCount e + n" using int64_small [of "en_opCount e1 + n"] by simp
  then show ?thesis using \<open>stack_only e2 e'\<close> \<open>stack_only e e1\<close> n(1) by (simp add: stack_only_def advances_def e2_def)
qed

lemma push_result_simps [simp]:
  "push_result (DInt i) e = Some (0, None, push_elem (Item (Integer i)) e)"
  "push_result (DBool b) e = Some (0, None, push_elem (Item (Boolean b)) e)"
  "push_result (DBytes bs) e = Some (0, None, push_elem (Item (ByteArray bs)) e)"
  "push_result (DItems xs) e = Some (0, None, push_elem (Item (Array xs)) e)"
  by (simp_all add: push_result_def pushData_def)

lemma opCheckMultiSig_error: "opCheckMultiSig V e = Some (s, err, e') \<Longrightarrow> err \<noteq> None \<Longrightarrow> s = FAULT"
  by (auto simp: opCheckMultiSig_def Let_def split: if_splits bind_splits)

lemma op_table_keeps: "list_all (\<lambda>(op, exec). exec = opCheckMultiSig V \<or> keeps exec) (op_table V)"
  by (simp add: op_table_def)

lemma op_table_high: "list_all (\<lambda>(op, exec). OP_PUSH16 < op) (op_table V)"
  by (simp add: op_table_def)

lemma OpExecList_cases:
  assumes "OpExecList V op = Some exec"
  obtains "exec = opPushData" | "exec = opNop" | "exec = opJmp" | "exec = opCall" "op = OP_CALL" | "exec = opRet"
    | "exec = opAppCall V" "op = OP_APPCALL" | "exec = opSysCall V" | "(op, exec) \<in> set (op_table V)"
  using assms unfolding OpExecList_def by (auto simp only: option.inject dest: map_of_SomeD split: if_split_asm)

lemma exec_advances:
  assumes "OpExecList V op = Some exec" and "exec e = Some (s, err, e')" and "OP_PUSH16 < op \<longrightarrow> en_opCount e \<le> ve_maxSteps V"
    and "ve_maxSteps V < 2 ^ 62" and "0 \<le> en_opCount e" and "err = None \<or> s \<noteq> FAULT"
  shows "advances V e e'"
  using assms(1)
proof (cases rule: OpExecList_cases)
  case 8
  then have "OP_PUSH16 < op" "exec = opCheckMultiSig V \<or> keeps exec"
    using op_table_keeps [of V] op_table_high [of V] by (auto simp: list_all_iff)
  then show ?thesis
    using opCheckMultiSig_advances [OF _ _ assms(4,5)] opCheckMultiSig_error assms(2,3,6) only_advances unfolding keeps_def by blast
next
  case 4
  then have "en_opCount e \<le> ve_maxSteps V" using assms(3) by simp
  then show ?thesis using opCall_advances assms(2) 4 by blast
next
  case 6
  then have "en_opCount e \<le> ve_maxSteps V" using assms(3) by simp
  then show ?thesis using opAppCall_advances assms(2) 6 by blast
next
  case 5
  then show ?thesis using assms(2) by (auto simp: opRet_def advances_def split: if_splits)
next
  case 2
  then show ?thesis using assms(2) by (simp add: opNop_def advances_def)
qed (use assms(2) opPushData_reads opJmp_reads opSysCall_reads reads_advances in blast)+

lemma ExecuteOp_advances:
  assumes "ExecuteOp V op e = Some (s, err, e')" and "ve_maxSteps V < 2 ^ 62" and "0 \<le> en_opCount e" and "s \<noteq> FAULT"
  shows "advances V e e'"
proof (cases "OP_PUSHBYTES1 \<le> op \<and> op \<le> OP_PUSHBYTES75")
  case True
  then show ?thesis using assms(1,4)
    by (auto simp: ExecuteOp_def dest!: read_bytes_reads intro!: reads_advances split: if_splits prod.splits)
next
  case False
  define e1 where "e1 = e\<lparr>en_opCode := op\<rparr>"
  have count: "OP_PUSH16 < op \<longrightarrow> en_opCount e1 \<le> ve_maxSteps V" "0 \<le> en_opCount e1"
    using assms(1,3,4) by (auto simp: ExecuteOp_def e1_def split: if_splits)
  obtain exec s1 err1 where x: "OpExecList V op = Some exec" "exec e1 = Some (s1, err1, e')" "err1 = None \<or> s1 \<noteq> FAULT"
    using assms(1,4) False
    by (auto simp: ExecuteOp_def Let_def e1_def split: if_splits option.splits bind_splits)
  have "advances V e1 e'" by (rule exec_advances [OF x(1,2) count(1) assms(2) count(2) x(3)])
  then show ?thesis by (simp add: advances_def e1_def)
qed

lemma op_state:
  "opCall e = Some (s, err, e') \<Longrightarrow> en_state e' = en_state e" "opAppCall V e = Some (s, err, e') \<Longrightarrow> en_state e' = en_state e"
  "opCheckMultiSig V e = Some (s, err, e') \<Longrightarrow> en_state e' = en_state e" "opRet e = Some (s, err, e') \<Longrightarrow> en_state e' = en_state e"
proof -
  show "en_state e' = en_state e" if "opCall e = Some (s, err, e')"
    using that by (auto simp: opCall_def Let_def reads_def set_IP_def dest!: opJmp_reads split: bind_splits)
  show "en_state e' = en_state e" if "opAppCall V e = Some (s, err, e')"
    using that by (auto simp: opAppCall_def reads_def LoadScript_def dest!: read_bytes_reads split: option.splits prod.splits)
  show "en_state e' = en_state e" if "opCheckMultiSig V e = Some (s, err, e')"
    using that by (auto simp: opCheckMultiSig_def Let_def stack_only_def push_elem_def dest!: only_dests split: if_splits bind_splits)
  show "en_state e' = en_state e" if "opRet e = Some (s, err, e')"
    using that by (auto simp: opRet_def split: if_splits)
qed

lemma exec_state:
  assumes "OpExecList V op = Some exec" and "exec e = Some (s, err, e')"
  shows "en_state e' = en_state e"
  using assms(1)
proof (cases rule: OpExecList_cases)
  case 8
  then have "exec = opCheckMultiSig V \<or> keeps exec" using op_table_keeps [of V] by (auto simp: list_all_iff)
  then show ?thesis using assms(2) op_state(3) by (auto simp: keeps_def stack_only_def)
qed (use assms(2) op_state opPushData_reads opJmp_reads opSysCall_reads in \<open>auto simp: reads_def opNop_def\<close>)

lemma ExecuteOp_state: "ExecuteOp V op e = Some (s, err, e') \<Longrightarrow> en_state e' = en_state e"
  by (auto simp: ExecuteOp_def Let_def reads_def push_elem_def dest!: read_bytes_reads exec_state
      split: if_splits option.splits bind_splits prod.splits)

section \<open>One script\<close>

definition vm_size :: "vm_env \<Rightarrow> ExecutionEngine \<Rightarrow> nat" where
  "vm_size V e = length (en_inv e) + nat (ve_maxSteps V - en_opCount e)"

lemma run_ops_end [simp]: "ec_rest (en_context e) = [] \<Longrightarrow> run_ops V n e = Some e"
  by (subst run_ops.simps) (simp split: nat.splits)

lemma run_ops_Cons:
  assumes "ec_rest (en_context e) = opCode # rest"
    and "e1 = e\<lparr>en_context := (en_context e)\<lparr>ec_rest := rest\<rparr>, en_opCount := en_opCount e + 1\<rparr>"
  shows "run_ops V (Suc n) e =
     do { (state, _, e) \<leftarrow> ExecuteOp V opCode e1;
          (if state = HALT then Some (e\<lparr>en_state := en_state e OR HALT\<rparr>)
           else if state = FAULT then Some (e\<lparr>en_state := en_state e OR FAULT\<rparr>)
           else run_ops V n e) }"
  using assms by (subst run_ops.simps) simp

text \<open>More fuel than there are unread bytes changes nothing.\<close>

lemma run_ops_fuel:
  assumes "ve_maxSteps V < 2 ^ 62" and "0 \<le> en_opCount e" and "length (ec_rest (en_context e)) \<le> n"
  shows "run_ops V n e = run_ops V (length (ec_rest (en_context e))) e"
  using assms(2,3)
proof (induction n arbitrary: e rule: less_induct)
  case (less n)
  show ?case
  proof (cases "ec_rest (en_context e)")
    case Nil
    then show ?thesis by simp
  next
    case (Cons op rest)
    then obtain k where k: "n = Suc k" "length rest \<le> k" using less.prems(2) by (cases n) simp_all
    define e1 where "e1 = e\<lparr>en_context := (en_context e)\<lparr>ec_rest := rest\<rparr>, en_opCount := en_opCount e + 1\<rparr>"
    have "run_ops V k e2 = run_ops V (length rest) e2" if "ExecuteOp V op e1 = Some (s, err, e2)" "s \<noteq> FAULT" for s err e2
    proof -
      have "advances V e1 e2" using ExecuteOp_advances [OF that(1) assms(1) _ that(2)] less.prems(1) by (simp add: e1_def)
      then have "0 \<le> en_opCount e2" "length (ec_rest (en_context e2)) \<le> length rest"
        using less.prems(1) by (auto simp: advances_def e1_def)
      then show ?thesis using less.IH [of k e2] less.IH [of "length rest" e2] k by simp
    qed
    then show ?thesis unfolding Cons k(1) list.size(4) add_Suc_right add_0_right run_ops_Cons [OF Cons e1_def]
      by (intro Option.bind_cong refl) auto
  qed
qed

lemma run_ops_size:
  assumes "ve_maxSteps V < 2 ^ 62" and "0 \<le> en_opCount e" and "run_ops V n e = Some e'"
  shows "en_state e' = en_state e OR HALT \<or> en_state e' = en_state e OR FAULT \<or>
    en_state e' = en_state e \<and> vm_size V e' \<le> vm_size V e \<and> 0 \<le> en_opCount e'"
  using assms(2,3)
proof (induction n arbitrary: e)
  case 0
  then show ?case by (simp add: run_ops.simps)
next
  case (Suc n)
  show ?case
  proof (cases "ec_rest (en_context e)")
    case Nil
    then show ?thesis using Suc.prems by simp
  next
    case (Cons op rest)
    define e1 where "e1 = e\<lparr>en_context := (en_context e)\<lparr>ec_rest := rest\<rparr>, en_opCount := en_opCount e + 1\<rparr>"
    obtain s err e2 where x: "ExecuteOp V op e1 = Some (s, err, e2)"
        "(if s = HALT then Some (e2\<lparr>en_state := en_state e2 OR HALT\<rparr>)
          else if s = FAULT then Some (e2\<lparr>en_state := en_state e2 OR FAULT\<rparr>) else run_ops V n e2) = Some e'"
      using Suc.prems(2) run_ops_Cons [OF Cons e1_def, of V n] by (auto split: bind_splits)
    have state: "en_state e2 = en_state e" using ExecuteOp_state [OF x(1)] by (simp add: e1_def)
    show ?thesis
    proof (cases "s = HALT \<or> s = FAULT")
      case True
      then show ?thesis using x(2) state by (auto split: if_splits)
    next
      case False
      then have "advances V e1 e2" using ExecuteOp_advances [OF x(1) assms(1)] Suc.prems(1) by (simp add: e1_def)
      then have "vm_size V e2 \<le> vm_size V e" "0 \<le> en_opCount e2"
        using Suc.prems(1) by (auto simp: advances_def vm_size_def e1_def)
      then show ?thesis using Suc.IH [of e2] x(2) False state by auto
    qed
  qed
qed

section \<open>All scripts\<close>

lemma StepInto_run:
  assumes "en_state e = NONE"
  shows "StepInto V e = (case rev (en_inv e) of
     [] \<Rightarrow> Some (e\<lparr>en_state := HALT\<rparr>)
   | c # cs \<Rightarrow> run_ops V (length (ec_rest c)) (e\<lparr>en_inv := rev cs, en_context := c\<rparr>))"
proof (cases "en_inv e" rule: rev_cases)
  case Nil
  then show ?thesis using assms by (simp add: StepInto_def stack_Count_def)
next
  case (snoc cs c)
  then show ?thesis using assms by (simp add: StepInto_def stack_Count_def stack_Pop_def stack_Remove_def Let_def)
qed

lemma step_until_stop [simp]: "stop e \<Longrightarrow> step_until V stop n e = Some (Some e)"
  by (subst step_until.simps) simp

lemma step_until_Suc:
  "\<not> stop e \<Longrightarrow> step_until V stop (Suc n) e = (case StepInto V e of None \<Rightarrow> Some panic | Some e \<Rightarrow> step_until V stop n e)"
  by (subst step_until.simps) simp

lemma StepInto_size:
  assumes "ve_maxSteps V < 2 ^ 62" and "0 \<le> en_opCount e" and "en_state e = NONE" and "StepInto V e = Some e'"
  shows "stopped e' \<or> en_state e' = NONE \<and> vm_size V e' < vm_size V e \<and> 0 \<le> en_opCount e'"
proof (cases "rev (en_inv e)")
  case Nil
  then show ?thesis using assms(3,4) by (auto simp: StepInto_run stopped_def)
next
  case (Cons c cs)
  define e1 where "e1 = e\<lparr>en_inv := rev cs, en_context := c\<rparr>"
  have "run_ops V (length (ec_rest c)) e1 = Some e'" using assms(3,4) Cons by (simp add: StepInto_run e1_def)
  then have "en_state e' = en_state e1 OR HALT \<or> en_state e' = en_state e1 OR FAULT \<or>
      en_state e' = en_state e1 \<and> vm_size V e' \<le> vm_size V e1 \<and> 0 \<le> en_opCount e'"
    by (intro run_ops_size [OF assms(1)]) (simp_all add: e1_def assms(2))
  moreover have "length (en_inv e) = Suc (length cs)" using arg_cong [OF Cons, of length] by simp
  ultimately show ?thesis using assms(3) by (auto simp: e1_def vm_size_def stopped_def)
qed

lemma Execute_steps:
  assumes "ve_maxSteps V < 2 ^ 62" and "0 \<le> en_opCount e" and "en_state e = NONE" and "vm_size V e < n"
  shows "\<exists>r. step_until V stopped n e = Some r \<and> (\<forall>e'. r = Some e' \<longrightarrow> stopped e')"
  using assms(2-4)
proof (induction n arbitrary: e)
  case (Suc n)
  have go: "\<not> stopped e" using Suc.prems(2) by (simp add: stopped_def)
  show ?case
  proof (cases "StepInto V e")
    case None
    then show ?thesis using go by (simp add: step_until_Suc)
  next
    case (Some e1)
    then have "stopped e1 \<or> en_state e1 = NONE \<and> vm_size V e1 < vm_size V e \<and> 0 \<le> en_opCount e1"
      by (rule StepInto_size [OF assms(1) Suc.prems(1,2)])
    then show ?thesis using Some go Suc.IH [of e1] Suc.prems(3) by (auto simp: step_until_Suc)
  qed
qed simp

text \<open>
  C37. A fresh engine with scripts loaded comes to a halt or a fault (or panics) after at most as many
  scripts as are loaded and as the step limit allows to be called.
\<close>

theorem Execute_terminates:
  assumes "ve_maxSteps V < 2 ^ 62" and "0 \<le> ve_maxSteps V"
  shows "\<exists>r. Execute V (length cs + nat (ve_maxSteps V) + 1) (NewExecutionEngine\<lparr>en_inv := cs\<rparr>) = Some r \<and>
    (\<forall>e'. r = Some e' \<longrightarrow> en_state e' = HALT \<or> en_state e' = FAULT \<or> en_state e' = BREAK)"
proof -
  have "\<exists>r. step_until V stopped (length cs + nat (ve_maxSteps V) + 1) (NewExecutionEngine\<lparr>en_inv := cs, en_state := NONE\<rparr>) = Some r \<and>
    (\<forall>e'. r = Some e' \<longrightarrow> stopped e')"
    by (rule Execute_steps [OF assms(1)]) (simp_all add: NewExecutionEngine_def vm_size_def)
  then show ?thesis by (auto simp: Execute_def NewExecutionEngine_def stopped_def)
qed

definition plain_env :: vm_env where
  "plain_env = \<lparr>ve_Hash160 = (\<lambda>_. []), ve_Hash256 = (\<lambda>_. []), ve_VerifySignature = (\<lambda>m s k. Some (s = k, None)),
     ve_table = None, ve_message = Some [], ve_maxSteps = 1200, ve_inplace = (\<lambda>op st alt. Some (0, None, st, alt))\<rparr>"

theorem Execute_terminates_witness:
  "\<exists>r. Execute plain_env (length [NewExecutionContext [0x51, 0x65, 0, 3] False] + nat (ve_maxSteps plain_env) + 1)
       (NewExecutionEngine\<lparr>en_inv := [NewExecutionContext [0x51, 0x65, 0, 3] False]\<rparr>) = Some r \<and>
    (\<forall>e'. r = Some e' \<longrightarrow> en_state e' = HALT \<or> en_state e' = FAULT \<or> en_state e' = BREAK)"
  by (rule Execute_terminates) (simp_all add: plain_env_def)

end
