(* ===== verification/Crypto_Points.thy ===== *)
theory Crypto_Points
  imports Serialization
begin

text \<open>
  Public keys (\<^verbatim>\<open>src/crypto/encode.go\<close>, \<^verbatim>\<open>crypto.go\<close>): the encodings of a point of an elliptic curve and what
  decoding accepts. The curve is an argument, \<^verbatim>\<open>elliptic.CurveParams\<close> of the Go library with the fields the
  code reads, with a prime that is positive. The square root of a prime that is 3 modulo 4 is one power; for
  other primes it is found with Lucas sequences, from the random primes that are another argument.
\<close>

record CurveParams =
  cv_P :: int
  cv_B :: int

record PubKey =
  pk_X :: "int option"
  pk_Y :: "int option"

definition isEven :: "int \<Rightarrow> bool" where
  "isEven k = (k mod 2 = 0)"

text \<open>\<open>BitLen\<close> of a number that is not negative.\<close>

fun BitLen :: "nat \<Rightarrow> nat" where
  "BitLen n = (if n = 0 then 0 else Suc (BitLen (n div 2)))"

declare BitLen.simps [simp del]

text \<open>The loop of \<^verbatim>\<open>getLowestSetBit\<close> does not end on 0.\<close>

partial_function (option) lowest_set_from :: "int \<Rightarrow> nat \<Rightarrow> nat option" where
  "lowest_set_from k i = (if bit k i then Some i else lowest_set_from k (Suc i))"

definition getLowestSetBit :: "int \<Rightarrow> nat option" where
  "getLowestSetBit k = lowest_set_from k 0"

text \<open>The variables of \<^verbatim>\<open>fastLucasSequence\<close>, and one round of its first loop.\<close>

record Lucas =
  lu_uh :: int
  lu_vl :: int
  lu_ql :: int
  lu_qh :: int
  lu_vh :: int

definition lucas_round :: "int \<Rightarrow> int \<Rightarrow> int \<Rightarrow> int \<Rightarrow> nat \<Rightarrow> Lucas \<Rightarrow> Lucas" where
  "lucas_round curveP lucasParamP lucasParamQ k j l =
     (let ql = lu_ql l * lu_qh l mod curveP
      in if bit k j then
           let qh = ql * lucasParamQ mod curveP
           in \<lparr>lu_uh = lu_uh l * lu_vh l mod curveP,
               lu_vl = (lu_vh l * lu_vl l - lucasParamP * ql) mod curveP,
               lu_ql = ql, lu_qh = qh,
               lu_vh = (lu_vh l * lu_vh l - 2 * qh) mod curveP\<rparr>
         else
           \<lparr>lu_uh = (lu_uh l * lu_vl l - ql) mod curveP,
            lu_vl = (lu_vl l * lu_vl l - 2 * ql) mod curveP,
            lu_ql = ql, lu_qh = ql,
            lu_vh = (lu_vh l * lu_vl l - lucasParamP * ql) mod curveP\<rparr>)"

text \<open>
  The steps between the loops, and one round of the second loop, which multiplies \<open>uh\<close> by the prime
  where a Lucas sequence is reduced.
\<close>

definition lucas_last :: "int \<Rightarrow> int \<Rightarrow> int \<Rightarrow> Lucas \<Rightarrow> Lucas" where
  "lucas_last curveP lucasParamP lucasParamQ l =
     (let ql = lu_ql l * lu_qh l mod curveP;
          qh = ql * lucasParamQ mod curveP
      in l\<lparr>lu_uh := (lu_uh l * lu_vl l - ql) mod curveP,
           lu_vl := (lu_vh l * lu_vl l - lucasParamP * ql) mod curveP,
           lu_ql := ql * qh mod curveP, lu_qh := qh\<rparr>)"

definition lucas_double :: "int \<Rightarrow> Lucas \<Rightarrow> Lucas" where
  "lucas_double curveP l =
     l\<lparr>lu_uh := lu_uh l * lu_vl l * curveP,
       lu_vl := (lu_vl l * lu_vl l - 2 * lu_ql l) mod curveP,
       lu_ql := lu_ql l * lu_ql l mod curveP\<rparr>"

definition fastLucasSequence :: "int \<Rightarrow> int \<Rightarrow> int \<Rightarrow> int \<Rightarrow> (int \<times> int) option" where
  "fastLucasSequence curveP lucasParamP lucasParamQ k = do {
     let n = BitLen (nat k);
     s \<leftarrow> getLowestSetBit k;
     let l = \<lparr>lu_uh = 1, lu_vl = 2, lu_ql = 1, lu_qh = 1, lu_vh = lucasParamP\<rparr>;
     let l = fold (lucas_round curveP lucasParamP lucasParamQ k) (rev [s + 1..<n]) l;
     let l = lucas_last curveP lucasParamP lucasParamQ l;
     let l = (lucas_double curveP ^^ s) l;
     Some (lu_uh l, lu_vl l) }"

text \<open>
  The square root. \<open>primes\<close> are the numbers that \<^verbatim>\<open>rand.Prime\<close> returns, in this order. The loops that draw
  them need not end: the outer \<open>None\<close> says that the list was used up before they did. The inner
  \<open>None\<close> is nil.
\<close>

fun pick_prime :: "int \<Rightarrow> int \<Rightarrow> int list \<Rightarrow> (int \<times> int list) option" where
  "pick_prime P fourQ [] = None"
| "pick_prime P fourQ (lucasParamP # primes) =
     (if lucasParamP < P \<and> (lucasParamP * lucasParamP - fourQ) ^ nat ((P - 1) div 2) mod P = P - 1
      then Some (lucasParamP, primes)
      else pick_prime P fourQ primes)"

lemma pick_prime_less: "pick_prime P fourQ primes = Some (p, rest) \<Longrightarrow> length rest < length primes"
  by (induction primes) (auto split: if_splits)

function lucas_search :: "int \<Rightarrow> int \<Rightarrow> int list \<Rightarrow> int option option" where
  "lucas_search P ySquare primes =
     (let qMinusOne = P - 1;
          k = 2 * (qMinusOne div 4) + 1;
          fourQ = 4 * ySquare mod P
      in case pick_prime P fourQ primes of
           None \<Rightarrow> None
         | Some (lucasParamP, rest) \<Rightarrow>
             (case fastLucasSequence P lucasParamP ySquare k of
                None \<Rightarrow> None
              | Some (seqU, seqV) \<Rightarrow>
                  if seqV * seqV mod P = fourQ
                  then Some (Some ((if odd seqV then seqV + P else seqV) div 2))
                  else if seqU = 1 \<or> seqU = qMinusOne then Some None
                  else lucas_search P ySquare rest))"
  by pat_completeness auto

termination by (relation "measure (\<lambda>(_, _, primes). length primes)") (auto dest: pick_prime_less)

declare lucas_search.simps [simp del]

definition curveSqrt :: "int list \<Rightarrow> int \<Rightarrow> CurveParams \<Rightarrow> int option go" where
  "curveSqrt primes ySquare curve =
     (if bit (cv_P curve) 1 then
        let tmp1 = cv_P curve div 4 + 1;
            tmp2 = ySquare ^ nat tmp1 mod cv_P curve;
            tmp3 = tmp2 ^ 2 mod cv_P curve
        in Some (if tmp3 = ySquare then Some tmp2 else None)
      else if ySquare ^ nat ((cv_P curve - 1) div 2) mod cv_P curve \<noteq> 1 then Some None
      else lucas_search (cv_P curve) ySquare primes)"

definition y_square :: "CurveParams \<Rightarrow> int \<Rightarrow> int" where
  "y_square curve x =
     (let s = x ^ 2 mod cv_P curve;
          s = (s + - 3) mod cv_P curve;
          s = s * x mod cv_P curve
      in (s + cv_B curve) mod cv_P curve)"

definition deCompress :: "int list \<Rightarrow> int \<Rightarrow> byte list \<Rightarrow> CurveParams \<Rightarrow> (goerr + PubKey) go" where
  "deCompress primes yTilde xValue curve = do {
     let xCoord = int (be_val xValue);
     root \<leftarrow> curveSqrt primes (y_square curve xCoord) curve;
     Some (case root of
             None \<Rightarrow> Inl (Detail '''' (ErrNew ''Invalid point compression''))
           | Some yValue \<Rightarrow>
               Inr \<lparr>pk_X = Some xCoord,
                    pk_Y = Some (if isEven yValue \<and> yTilde \<noteq> 0 \<or> \<not> isEven yValue \<and> yTilde \<noteq> 1
                                 then cv_P curve - yValue else yValue)\<rparr>) }"

text \<open>
  The data is not nil. A slice is taken to have no room beyond its length, so that the bounds of a
  point without compression are checked against the length.
\<close>

definition DecodePoint :: "int list \<Rightarrow> CurveParams \<Rightarrow> byte list \<Rightarrow> (goerr + PubKey) go" where
  "DecodePoint primes curve encodeData =
     (let expectedLength = (BitLen (nat (cv_P curve)) + 7) div 8
      in case encodeData of
           [] \<Rightarrow> panic
         | flag # _ \<Rightarrow>
             if flag = 0x00 then Some (Inr \<lparr>pk_X = None, pk_Y = None\<rparr>)
             else if flag = 0x02 \<or> flag = 0x03 then
               (if length encodeData \<noteq> expectedLength + 1
                then Some (Inl (Detail '''' (ErrNew ''The encodeData format is error'')))
                else if length encodeData < 33 then panic
                else do {
                  r \<leftarrow> deCompress primes (if flag = 0x03 then 1 else 0) (take 32 (drop 1 encodeData)) curve;
                  Some (case r of
                          Inl err \<Rightarrow> Inl (Detail ''Invalid point encoding'' err)
                        | Inr pubKey \<Rightarrow> Inr pubKey) })
             else if flag = 0x04 \<or> flag = 0x06 \<or> flag = 0x07 then
               (if length encodeData < 65 then panic
                else Some (Inr \<lparr>pk_X = Some (int (be_val (take 32 (drop 1 encodeData)))),
                                pk_Y = Some (int (be_val (take 32 (drop 33 encodeData))))\<rparr>))
             else Some (Inl (Detail '''' (ErrNew ''The encodeData format is error''))))"

text \<open>\<^verbatim>\<open>copy\<close> of a number's bytes to the end of a field of \<open>n\<close> zero bytes; a longer number panics.\<close>

definition right_aligned :: "nat \<Rightarrow> int \<Rightarrow> byte list go" where
  "right_aligned n i =
     (let bs = big_Bytes i
      in if length bs > n then panic else Some (replicate (n - length bs) 0 @ bs))"

definition EncodePoint :: "PubKey \<Rightarrow> bool \<Rightarrow> byte list go" where
  "EncodePoint e isCommpressed =
     (case (pk_X e, pk_Y e) of
        (Some X, Some Y) \<Rightarrow>
          if isCommpressed then do {
            x \<leftarrow> right_aligned 33 X;
            Some ((if isEven Y then 0x02 else 0x03) # tl x) }
          else do {
            y \<leftarrow> right_aligned 65 Y;
            right_aligned 33 X;
            Some (0x04 # tl (take (33 - length (big_Bytes X)) y @ big_Bytes X @ drop 33 y)) }
      | _ \<Rightarrow> Some [0])"

section \<open>Serialization\<close>

text \<open>A negative coordinate is written with a leading zero byte; 33 bytes are read as negative.\<close>

definition coord_bytes :: "int \<Rightarrow> byte list" where
  "coord_bytes i = (if i < 0 then [0] else []) @ big_Bytes i"

definition coord_of :: "byte list \<Rightarrow> int" where
  "coord_of buf = (if length buf = 33 then - int (be_val buf) else int (be_val buf))"

definition PubKey_Serialize :: "PubKey \<Rightarrow> byte list go" where
  "PubKey_Serialize e = do {
     X \<leftarrow> pk_X e;
     Y \<leftarrow> pk_Y e;
     Some (WriteVarBytes (coord_bytes X) @ WriteVarBytes (coord_bytes Y)) }"

definition PubKey_DeSerialize :: "PubKey \<Rightarrow> PubKey rdr" where
  "PubKey_DeSerialize e =
     rd_try ReadVarBytes e (\<lambda>bufX.
       let e = e\<lparr>pk_X := Some (coord_of bufX)\<rparr>
       in rd_try ReadVarBytes e (\<lambda>bufY. rd_ret (e\<lparr>pk_Y := Some (coord_of bufY)\<rparr>)))"

definition PubKey_Less :: "PubKey \<Rightarrow> PubKey \<Rightarrow> bool go" where
  "PubKey_Less p q = do { x \<leftarrow> pk_X p; y \<leftarrow> pk_X q; Some (x \<le> y) }"

definition PubKey_Equal :: "PubKey \<Rightarrow> PubKey \<Rightarrow> bool go" where
  "PubKey_Equal p q = do {
     x1 \<leftarrow> pk_X p; x2 \<leftarrow> pk_X q;
     (if x1 \<noteq> x2 then Some False
      else do { y1 \<leftarrow> pk_Y p; y2 \<leftarrow> pk_Y q; Some (y1 = y2) }) }"

section \<open>Lemmas\<close>

lemma le_bytes_pad: "v < 256 ^ k \<Longrightarrow> le_bytes (k + j) v = le_bytes k v @ replicate j 0"
proof (induction k arbitrary: v)
  case 0
  have "le_bytes j 0 = replicate j 0" by (induction j) simp_all
  then show ?case using 0 by simp
next
  case (Suc k)
  then have "v div 256 < 256 ^ k" by (simp add: div_less_iff_less_mult mult.commute)
  then show ?case using Suc.IH by simp
qed

lemma length_big_Bytes_le: "n < 256 ^ k \<Longrightarrow> length (big_Bytes (int n)) \<le> k"
proof (cases "n = 0")
  case False
  assume "n < 256 ^ k"
  then have "256 ^ (num_bytes n - 1) < (256 :: nat) ^ k" using num_bytes_lower [of n] False by linarith
  then have "num_bytes n - 1 < k" by (rule power_less_imp_less_exp [rotated]) simp
  then show ?thesis by (simp add: big_Bytes_def)
qed (simp add: big_Bytes_def)

lemma be_val_less_pow: "be_val bs < 256 ^ length bs"
  using le_val_bound [of "rev bs"] by (simp add: be_val_def)

lemma right_aligned_be:
  assumes "length bs \<le> m"
  shows "right_aligned m (int (be_val bs)) = Some (replicate (m - length bs) 0 @ bs)"
proof -
  define v k n where "v = be_val bs" and "k = num_bytes v" and "n = length bs"
  have big: "big_Bytes (int v) = rev (le_bytes k v)" by (simp add: big_Bytes_def k_def)
  have "k \<le> n" using length_big_Bytes_le [OF be_val_less_pow [of bs]] by (simp add: big n_def flip: v_def)
  have "le_bytes (k + (m - k)) v = le_bytes k v @ replicate (m - k) 0" by (rule le_bytes_pad) (simp add: k_def num_bytes_upper)
  moreover have "le_bytes (n + (m - n)) v = le_bytes n v @ replicate (m - n) 0"
    by (rule le_bytes_pad) (simp add: v_def n_def be_val_less_pow)
  moreover have "le_bytes n v = rev bs" using le_bytes_le_val [of "rev bs"] by (simp add: n_def v_def be_val_def)
  ultimately have "le_bytes k v @ replicate (m - k) 0 = rev bs @ replicate (m - n) 0" using \<open>k \<le> n\<close> assms by (simp add: n_def)
  then have "rev (le_bytes k v @ replicate (m - k) 0) = rev (rev bs @ replicate (m - n) 0)" by simp
  then have "replicate (m - k) 0 @ rev (le_bytes k v) = replicate (m - n) 0 @ bs" by simp
  then show ?thesis using \<open>k \<le> n\<close> assms unfolding right_aligned_def v_def [symmetric] big by (simp add: n_def)
qed

definition on_curve :: "CurveParams \<Rightarrow> PubKey \<Rightarrow> bool" where
  "on_curve curve e \<longleftrightarrow>
     (\<exists>x y. e = \<lparr>pk_X = Some x, pk_Y = Some y\<rparr> \<and> y ^ 2 mod cv_P curve = (x ^ 3 - 3 * x + cv_B curve) mod cv_P curve)"

lemma y_square_mod: "y_square curve x = (x ^ 3 - 3 * x + cv_B curve) mod cv_P curve"
proof -
  have "(x\<^sup>2 - 3) * x = x ^ 3 - 3 * x" by (simp add: power2_eq_square power3_eq_cube algebra_simps)
  moreover have "((x\<^sup>2 - 3) mod cv_P curve * x + cv_B curve) mod cv_P curve = ((x\<^sup>2 - 3) * x + cv_B curve) mod cv_P curve"
    by (metis mod_add_left_eq mod_mult_left_eq)
  ultimately show ?thesis by (simp add: y_square_def Let_def mod_simps)
qed

lemma getLowestSetBit_odd: "odd k \<Longrightarrow> getLowestSetBit k = Some 0"
  by (simp add: getLowestSetBit_def lowest_set_from.simps [of k 0] bit_0)

text \<open>The exponent of the search is odd, so the second loop is never entered.\<close>

lemma fastLucasSequence_odd:
  "odd k \<Longrightarrow> fastLucasSequence curveP p q k =
     (let l = lucas_last curveP p q (fold (lucas_round curveP p q k) (rev [1..<BitLen (nat k)])
               \<lparr>lu_uh = 1, lu_vl = 2, lu_ql = 1, lu_qh = 1, lu_vh = p\<rparr>) in Some (lu_uh l, lu_vl l))"
  by (simp add: fastLucasSequence_def getLowestSetBit_odd Let_def)

text \<open>Both ways to find a root check what they return.\<close>

lemma half_square:
  fixes P v q :: int
  assumes "odd P" and "v * v mod P = 4 * q mod P"
  shows "((if odd v then v + P else v) div 2) ^ 2 mod P = q mod P"
proof -
  define w where "w = (if odd v then v + P else v) div 2"
  have "2 * w = (if odd v then v + P else v)" using assms(1) by (simp add: w_def)
  moreover have "(if odd v then v + P else v) ^ 2 = v * v + P * (if odd v then 2 * v + P else 0)"
    by (simp add: power2_eq_square algebra_simps)
  ultimately have "(2 * w) ^ 2 = v * v + P * (if odd v then 2 * v + P else 0)" by simp
  then have "4 * w ^ 2 mod P = 4 * q mod P" using assms(2) by (simp add: power_mult_distrib)
  then have "P dvd 4 * (w ^ 2 - q)" by (simp add: mod_eq_dvd_iff right_diff_distrib)
  moreover have "coprime P 4" using assms(1) coprime_power_right_iff [of P 2 2] by simp
  ultimately have "P dvd w ^ 2 - q" using coprime_dvd_mult_right_iff by blast
  then show ?thesis by (simp add: w_def mod_eq_dvd_iff)
qed

lemma lucas_search_sound: "lucas_search P q primes = Some (Some y) \<Longrightarrow> odd P \<Longrightarrow> y ^ 2 mod P = q mod P"
proof (induction P q primes rule: lucas_search.induct)
  case (1 P q primes)
  show ?case
  proof (cases "pick_prime P (4 * q mod P) primes")
    case (Some pr)
    obtain p rest where p: "pr = (p, rest)" by fastforce
    obtain u v where uv: "fastLucasSequence P p q (2 * ((P - 1) div 4) + 1) = Some (u, v)"
      using "1.prems"(1) Some p by (auto simp: lucas_search.simps [of P q primes] Let_def split: option.splits)
    have run: "lucas_search P q primes = (if v * v mod P = 4 * q mod P then Some (Some ((if odd v then v + P else v) div 2))
        else if u = 1 \<or> u = P - 1 then Some None else lucas_search P q rest)"
      using Some p uv by (simp add: lucas_search.simps [of P q primes] Let_def)
    show ?thesis
    proof (cases "v * v mod P = 4 * q mod P")
      case True
      then show ?thesis using half_square [OF "1.prems"(2) True] "1.prems"(1) run by simp
    next
      case False
      then have "\<not> (u = 1 \<or> u = P - 1)" "lucas_search P q rest = Some (Some y)" using "1.prems"(1) run by (auto split: if_splits)
      then show ?thesis using "1.IH" [OF refl refl refl Some p [symmetric] uv refl False] "1.prems"(2) by simp
    qed
  qed (use "1.prems"(1) in \<open>simp add: lucas_search.simps [of P q primes] Let_def\<close>)
qed

lemma curveSqrt_sound:
  assumes "curveSqrt primes q curve = Some (Some y)" and "odd (cv_P curve)" and "q mod cv_P curve = q"
  shows "y ^ 2 mod cv_P curve = q"
  using assms lucas_search_sound [of "cv_P curve" q primes y]
  by (auto simp: curveSqrt_def Let_def split: if_splits)

lemma deCompress_sound:
  assumes "deCompress primes t bs curve = Some (Inr e)" and "odd (cv_P curve)" and "t = 0 \<or> t = 1"
  shows "\<exists>y. e = \<lparr>pk_X = Some (int (be_val bs)), pk_Y = Some y\<rparr> \<and> on_curve curve e \<and> (isEven y \<longleftrightarrow> t = 0)"
proof -
  obtain y where y: "curveSqrt primes (y_square curve (int (be_val bs))) curve = Some (Some y)" using assms(1)
    by (auto simp: deCompress_def Let_def split: option.splits bind_splits)
  then have sq: "y ^ 2 mod cv_P curve = (int (be_val bs) ^ 3 - 3 * int (be_val bs) + cv_B curve) mod cv_P curve"
    using curveSqrt_sound [OF y assms(2)] by (simp add: y_square_mod)
  define y' where "y' = (if isEven y \<and> t \<noteq> 0 \<or> \<not> isEven y \<and> t \<noteq> 1 then cv_P curve - y else y)"
  have e: "e = \<lparr>pk_X = Some (int (be_val bs)), pk_Y = Some y'\<rparr>" using assms(1) y by (simp add: deCompress_def y'_def)
  have "(cv_P curve - y) ^ 2 = y ^ 2 + cv_P curve * (cv_P curve - 2 * y)" by (simp add: power2_eq_square algebra_simps)
  then have "(cv_P curve - y) ^ 2 mod cv_P curve = y ^ 2 mod cv_P curve" by simp
  then have "y' ^ 2 mod cv_P curve = y ^ 2 mod cv_P curve" by (simp add: y'_def)
  moreover have "isEven y' \<longleftrightarrow> t = 0" using assms(2,3) by (auto simp: y'_def isEven_def even_iff_mod_2_eq_zero [symmetric])
  ultimately show ?thesis using e sq by (auto simp: on_curve_def)
qed

text \<open>
  C38. A key in compressed form is accepted only if it is a point of the curve, and the point is encoded
  as the same bytes again: no point has two compressed forms. This holds for every odd prime of 32
  bytes and for all random numbers that the search for the square root draws.
\<close>

theorem DecodePoint_compressed:
  assumes "DecodePoint primes curve d = Some (Inr e)" and "hd d = 2 \<or> hd d = 3" and "odd (cv_P curve)"
    and "(BitLen (nat (cv_P curve)) + 7) div 8 = 32"
  shows "on_curve curve e \<and> EncodePoint e True = Some d"
proof -
  obtain flag xs where d: "d = flag # xs" using assms(1) by (cases d) (auto simp: DecodePoint_def)
  define t where "t = (if flag = 3 then 1 else 0 :: int)"
  then have t: "t = 0 \<or> t = 1" by simp
  have len: "length xs = 32" and c: "deCompress primes t xs curve = Some (Inr e)"
    using assms(1,2,4) by (auto simp: DecodePoint_def d t_def split: if_splits sum.splits bind_splits)
  obtain y where y: "e = \<lparr>pk_X = Some (int (be_val xs)), pk_Y = Some y\<rparr>" "on_curve curve e" "isEven y \<longleftrightarrow> t = 0"
    using deCompress_sound [OF c assms(3)] t by blast
  have "right_aligned 33 (int (be_val xs)) = Some (replicate 1 0 @ xs)"
    using right_aligned_be [of xs 33] len by simp
  then show ?thesis using y assms(2) by (auto simp: EncodePoint_def d t_def)
qed

lemma be_val_zeros: "be_val (replicate n 0 @ bs) = be_val bs"
proof -
  have "le_val (cs @ replicate n 0) = le_val cs" for cs
  proof (induction cs)
    case Nil
    show ?case by (induction n) simp_all
  qed simp
  then show ?thesis by (simp add: be_val_def)
qed

definition sample_curve :: CurveParams where
  "sample_curve = \<lparr>cv_P = 2 ^ 255 + 95, cv_B = 1\<rparr>"

lemma BitLen_eq:
  assumes "2 ^ k \<le> n" and "n < 2 ^ Suc k"
  shows "BitLen n = Suc k"
  using assms
proof (induction k arbitrary: n)
  case 0
  then have "n = 1" by simp
  then show ?case by (simp add: BitLen.simps)
next
  case (Suc k)
  then have "2 ^ k \<le> n div 2" "n div 2 < 2 ^ Suc k" "n \<noteq> 0" by auto
  then show ?case using Suc.IH [of "n div 2"] by (subst BitLen.simps) simp
qed

text \<open>Modulo 13 the search finds a root of 10 with its first prime.\<close>

lemma lucas_root: "curveSqrt [3] 10 \<lparr>cv_P = 13, cv_B = 0\<rparr> = Some (Some 7)"
proof -
  have "BitLen 7 = Suc 2" by (rule BitLen_eq) simp_all
  then have "fastLucasSequence 13 3 10 7 = Some (0, 1)"
    by (simp add: fastLucasSequence_odd lucas_round_def lucas_last_def bit_iff_odd Let_def numeral_2_eq_2)
  then show ?thesis by (subst curveSqrt_def) (simp add: lucas_search.simps [of 13 10 "[3]"] bit_iff_odd)
qed

lemma sample_curve_ok:
  "odd (cv_P sample_curve)" "(BitLen (nat (cv_P sample_curve)) + 7) div 8 = 32"
  "DecodePoint primes sample_curve (2 # replicate 32 0) = Some (Inr \<lparr>pk_X = Some 0, pk_Y = Some (2 ^ 255 + 94)\<rparr>)"
proof -
  show "odd (cv_P sample_curve)" by (simp add: sample_curve_def)
  have "BitLen (nat (cv_P sample_curve)) = Suc 255" by (rule BitLen_eq) (simp_all add: sample_curve_def)
  then show bits: "(BitLen (nat (cv_P sample_curve)) + 7) div 8 = 32" by simp
  have "be_val (replicate 32 0) = 0" using be_val_zeros [of 32 "[]"] by (simp add: be_val_def)
  moreover have "y_square sample_curve 0 = 1" by (simp add: y_square_mod sample_curve_def)
  moreover have "curveSqrt primes 1 sample_curve = Some (Some 1)"
    by (simp add: curveSqrt_def sample_curve_def bit_iff_odd)
  ultimately have "deCompress primes 0 (replicate 32 0) sample_curve = Some (Inr \<lparr>pk_X = Some 0, pk_Y = Some (2 ^ 255 + 94)\<rparr>)"
    by (simp add: deCompress_def Let_def isEven_def) (simp add: sample_curve_def)
  then show "DecodePoint primes sample_curve (2 # replicate 32 0) = Some (Inr \<lparr>pk_X = Some 0, pk_Y = Some (2 ^ 255 + 94)\<rparr>)"
    using bits by (simp add: DecodePoint_def Let_def)
qed

theorem DecodePoint_compressed_witness:
  "on_curve sample_curve \<lparr>pk_X = Some 0, pk_Y = Some (2 ^ 255 + 94)\<rparr> \<and>
   EncodePoint \<lparr>pk_X = Some 0, pk_Y = Some (2 ^ 255 + 94)\<rparr> True = Some (2 # replicate 32 0)"
  by (rule DecodePoint_compressed [OF sample_curve_ok(3) [of "[]"] _ sample_curve_ok(1,2)]) simp

text \<open>A key without compression is read back.\<close>

lemma big_Bytes_be: "0 \<le> i \<Longrightarrow> i < 2 ^ 256 \<Longrightarrow> length (big_Bytes i) \<le> 32 \<and> int (be_val (big_Bytes i)) = i"
  using length_big_Bytes_le [of "nat i" 32] be_val_big_Bytes [of i] by (simp add: nat_less_iff)

theorem DecodePoint_EncodePoint:
  assumes "0 \<le> x" and "x < 2 ^ 256" and "0 \<le> y" and "y < 2 ^ 256"
  shows "\<exists>d. EncodePoint \<lparr>pk_X = Some x, pk_Y = Some y\<rparr> False = Some d \<and>
    DecodePoint primes curve d = Some (Inr \<lparr>pk_X = Some x, pk_Y = Some y\<rparr>)"
proof -
  define bx by' where "bx = big_Bytes x" and "by' = big_Bytes y"
  have len: "length bx \<le> 32" "int (be_val bx) = x" "length by' \<le> 32" "int (be_val by') = y"
    using big_Bytes_be [OF assms(1,2)] big_Bytes_be [OF assms(3,4)] by (simp_all add: bx_def by'_def)
  define zx zy where "zx = replicate (32 - length bx) 0 @ bx" and "zy = replicate (32 - length by') 0 @ by'"
  have enc: "EncodePoint \<lparr>pk_X = Some x, pk_Y = Some y\<rparr> False = Some (4 # zx @ zy)"
  proof -
    have "replicate (65 - length by') 0 @ by' = 0 # replicate 32 0 @ zy"
      using len(3) by (simp add: zy_def numeral_eq_Suc flip: replicate_Suc replicate_add append_assoc)
    moreover have "take (33 - length bx) (0 # replicate 32 0 @ zy) = 0 # replicate (32 - length bx) 0"
    proof -
      have "33 - length bx = Suc (32 - length bx)" using len(1) by arith
      then show ?thesis by simp
    qed
    ultimately show ?thesis using len(1,3) by (simp add: EncodePoint_def right_aligned_def zx_def flip: bx_def by'_def)
  qed
  have "length zx = 32" "length zy = 32" using len by (simp_all add: zx_def zy_def)
  then have "DecodePoint primes curve (4 # zx @ zy) = Some (Inr \<lparr>pk_X = Some (int (be_val zx)), pk_Y = Some (int (be_val zy))\<rparr>)"
    by (simp add: DecodePoint_def Let_def)
  then show ?thesis using enc len by (simp add: zx_def zy_def be_val_zeros)
qed

text \<open>A key that is written is read back, if its coordinates are not negative and have 256 bits.\<close>

definition pubkey_ok :: "PubKey \<Rightarrow> bool" where
  "pubkey_ok e \<longleftrightarrow> (case (pk_X e, pk_Y e) of (Some x, Some y) \<Rightarrow> 0 \<le> x \<and> x < 2 ^ 256 \<and> 0 \<le> y \<and> y < 2 ^ 256 | _ \<Rightarrow> False)"

lemma coord_rt: "0 \<le> i \<Longrightarrow> i < 2 ^ 256 \<Longrightarrow> coord_of (coord_bytes i) = i \<and> bytes_ok (coord_bytes i)"
  using big_Bytes_be [of i] by (auto simp: coord_of_def coord_bytes_def bytes_ok_def maxAlloc_def)

interpretation pubkey: codec "\<lambda>e. the (PubKey_Serialize e)" "PubKey_DeSerialize z" pubkey_ok for z
proof
  fix e k rest
  assume "pubkey_ok e" and roomy: "roomy k rest"
  then obtain x y where e: "e = \<lparr>pk_X = Some x, pk_Y = Some y\<rparr>" "0 \<le> x" "x < 2 ^ 256" "0 \<le> y" "y < 2 ^ 256"
    by (cases e) (auto simp: pubkey_ok_def split: option.splits)
  note rt = coord_rt [OF e(2,3)] coord_rt [OF e(4,5)]
  have "roomy k (WriteVarBytes (coord_bytes y) @ rest)" using roomy by (auto simp: roomy_def)
  then show "PubKey_DeSerialize z (Rd k (the (PubKey_Serialize e) @ rest)) = Some (e, None, Rd k rest)"
    using rt roomy by (simp add: PubKey_DeSerialize_def PubKey_Serialize_def e(1) rd_run varbytes.roundtrip Let_def)
qed

end
