(* ===== verification/Contract_Model.thy ===== *)
theory Contract_Model
  imports Vm_Model Crypto_Points Transaction_Ops
begin

text \<open>
  Who may spend: the builder of scripts (\<^verbatim>\<open>core/contract/program\<close>), signature contracts with their
  recognition and serialization (\<^verbatim>\<open>contract.go\<close>, \<^verbatim>\<open>contractBuilder.go\<close>), the context that collects signatures
  (\<^verbatim>\<open>contractContext.go\<close>). RIPEMD-160 is an argument. The lists of public keys and parameters that only
  \<^verbatim>\<open>AddMultiSignatures\<close> uses, which nothing calls, are left out with it.
\<close>

section \<open>Program builder\<close>

text \<open>A builder is the bytes written so far; no caller passes nil data.\<close>

definition AddOp :: "byte \<Rightarrow> byte list \<Rightarrow> byte list" where
  "AddOp op pb = pb @ [op]"

definition PushData :: "byte list \<Rightarrow> byte list \<Rightarrow> byte list" where
  "PushData data pb =
     (if length data \<le> 75 then pb @ [word_of_nat (length data)] @ data
      else if length data < 0x100 then AddOp OP_PUSHDATA1 pb @ [word_of_nat (length data)] @ data
      else if length data < 0x10000 then AddOp OP_PUSHDATA2 pb @ take 2 (IntToBytes (word_of_nat (length data))) @ data
      else AddOp OP_PUSHDATA4 pb @ IntToBytes (word_of_nat (length data)) @ data)"

definition PushNumber :: "int \<Rightarrow> byte list \<Rightarrow> byte list" where
  "PushNumber number pb =
     (if number = -1 then AddOp OP_PUSHM1 pb
      else if number = 0 then AddOp OP_PUSH0 pb
      else if number > 0 \<and> number \<le> 16 then AddOp (OP_PUSH1 - 1 + hd (big_Bytes number)) pb
      else PushData (big_Bytes number) pb)"

section \<open>Contracts\<close>

datatype ContractType = SignatureContract | MultiSigContract | CustomContract

abbreviation (input) ParamSignature :: byte where "ParamSignature \<equiv> 0"

record Contract =
  ct_Code :: "byte list"
  ct_Parameters :: "byte list"
  ct_ProgramHash :: Uint160
  ct_OwnerPubkeyHash :: Uint160

definition IsStandard :: "byte list \<Rightarrow> bool" where
  "IsStandard code = (length code = 35 \<and> code ! 0 = 33 \<and> code ! 34 = OP_CHECKSIG)"

text \<open>
  The number of keys, in 16 bits, and the code after them; the inner \<open>None\<close> is the return of false
  when the code ends with a key. An index past the end panics.
\<close>

function count_keys :: "byte list \<Rightarrow> u16 \<Rightarrow> (u16 \<times> byte list) option go" where
  "count_keys code n =
     (if code = [] then panic
      else if hd code = 33 then
        (let code = drop 34 code in if code = [] then Some None else count_keys code (n + 1))
      else Some (Some (n, code)))"
  by pat_completeness auto
termination
  by (relation "measure (\<lambda>(code, n). length code)") auto

declare count_keys.simps [simp del]

definition key_number :: "byte list \<Rightarrow> (int \<times> byte list) go" where
  "key_number code =
     (case code of
        [] \<Rightarrow> panic
      | c # rest \<Rightarrow>
          if c = 1 then (case rest of [] \<Rightarrow> panic | n # rest \<Rightarrow> Some (uint n, rest))
          else if c = 2 then Some (sint (BytesToInt16 rest), drop 2 rest)
          else Some (uint c - 80, rest))"

definition IsMultiSigContract :: "byte list \<Rightarrow> bool go" where
  "IsMultiSigContract code =
     (if length code < 37 \<or> hd code > OP_PUSH16 \<or> hd code < OP_PUSH1 \<and> hd code \<noteq> 1 \<and> hd code \<noteq> 2 then Some False
      else do {
        (m, rest) \<leftarrow> key_number code;
        (if m < 1 \<or> m > 1024 then Some False
         else do {
           r \<leftarrow> count_keys rest 0;
           (case r of
              None \<Rightarrow> Some False
            | Some (n, rest) \<Rightarrow>
                if sint n < m \<or> sint n > 1024 then Some False
                else do {
                  (n', rest) \<leftarrow> key_number rest;
                  (if sint n \<noteq> n' then Some False
                   else if rest = [] then panic
                   else Some (hd rest = OP_CHECKMULTISIG \<and> tl rest = [])) }) }) })"

definition Contract_GetType :: "byte list \<Rightarrow> ContractType go" where
  "Contract_GetType code =
     (if IsStandard code then Some SignatureContract
      else do { multi \<leftarrow> IsMultiSigContract code; Some (if multi then MultiSigContract else CustomContract) })"

definition Contract_Serialize :: "Contract \<Rightarrow> byte list" where
  "Contract_Serialize c = Uint160_Serialize (ct_OwnerPubkeyHash c) @ WriteVarBytes (ct_Parameters c) @ WriteVarBytes (ct_Code c)"

definition Contract_Deserialize :: "Contract \<Rightarrow> Contract rdr" where
  "Contract_Deserialize c =
     rd_ign (Uint160_Deserialize (ct_OwnerPubkeyHash c)) (\<lambda>h.
       let c = c\<lparr>ct_OwnerPubkeyHash := h\<rparr>
       in rd_try ReadVarBytes c (\<lambda>p.
            let c = c\<lparr>ct_Parameters := p\<rparr>
            in rd_try ReadVarBytes (c\<lparr>ct_Code := []\<rparr>) (\<lambda>code. rd_ret (c\<lparr>ct_Code := code\<rparr>))))"

definition CreateSignatureRedeemScript :: "PubKey \<Rightarrow> byte list go" where
  "CreateSignatureRedeemScript pubkey = do {
     temp \<leftarrow> EncodePoint pubkey True;
     Some (AddOp OP_CHECKSIG (PushData temp [])) }"

definition CreateSignatureContract :: "(byte list \<Rightarrow> byte list) \<Rightarrow> PubKey \<Rightarrow> (goerr + Contract) go" where
  "CreateSignatureContract ripemd160 ownerPubKey = do {
     temp \<leftarrow> EncodePoint ownerPubKey True;
     script \<leftarrow> CreateSignatureRedeemScript ownerPubKey;
     Some (case (ToCodeHash ripemd160 temp, ToCodeHash ripemd160 script) of
       ((_, Some err), _) \<Rightarrow> Inl (Detail ''[Contract],CreateSignatureContract failed.'' err)
     | ((hash, None), (_, Some err)) \<Rightarrow> Inl (Detail ''[Contract],CreateSignatureContract failed.'' err)
     | ((hash, None), (programHash, None)) \<Rightarrow>
         Inr \<lparr>ct_Code = script, ct_Parameters = [ParamSignature], ct_ProgramHash = programHash,
              ct_OwnerPubkeyHash = hash\<rparr>) }"

text \<open>
  \<^verbatim>\<open>sort.Sort\<close> by the first coordinate. Keys with the same one, which differ in the parity of the second at
  most, may come in either order; the model keeps the order given.
\<close>

definition sort_keys :: "PubKey list \<Rightarrow> PubKey list go" where
  "sort_keys pubkeys =
     (if length pubkeys \<le> 1 then Some pubkeys
      else if list_ex (\<lambda>p. pk_X p = None) pubkeys then panic
      else Some (sort_key (\<lambda>p. the (pk_X p)) pubkeys))"

fun push_keys :: "PubKey list \<Rightarrow> byte list \<Rightarrow> byte list go" where
  "push_keys [] sb = Some sb"
| "push_keys (p # ps) sb = do { temp \<leftarrow> EncodePoint p True; push_keys ps (PushData temp sb) }"

text \<open>\<open>None\<close> inside is the nil script returned for numbers out of range.\<close>

definition CreateMultiSigRedeemScript :: "int \<Rightarrow> PubKey list \<Rightarrow> byte list option go" where
  "CreateMultiSigRedeemScript m pubkeys =
     (if \<not> (m \<ge> 1 \<and> m \<le> int (length pubkeys) \<and> length pubkeys \<le> 24) then Some None
      else do {
        pubkeys \<leftarrow> sort_keys pubkeys;
        sb \<leftarrow> push_keys pubkeys (PushNumber m []);
        Some (Some (AddOp OP_CHECKMULTISIG (PushNumber (int (length pubkeys)) sb))) })"

definition CreateMultiSigContract ::
  "(byte list \<Rightarrow> byte list) \<Rightarrow> Uint160 \<Rightarrow> nat \<Rightarrow> PubKey list \<Rightarrow> (goerr + Contract) go" where
  "CreateMultiSigContract ripemd160 publicKeyHash m publicKeys = do {
     script \<leftarrow> CreateMultiSigRedeemScript (int m) publicKeys;
     let code = (case script of Some s \<Rightarrow> s | None \<Rightarrow> []);
     Some (case ToCodeHash ripemd160 code of
       (_, Some err) \<Rightarrow> Inl (Detail ''[Contract],CreateSignatureContract failed.'' err)
     | (programHash, None) \<Rightarrow>
         Inr \<lparr>ct_Code = code, ct_Parameters = replicate m ParamSignature, ct_ProgramHash = programHash,
              ct_OwnerPubkeyHash = publicKeyHash\<rparr>) }"

section \<open>Collecting signatures\<close>

text \<open>
  The codes and parameters by program hash, \<open>None\<close> for nil. A parameter that is added is not nil.
\<close>

record ContractContext =
  cc_ProgramHashes :: "Uint160 list"
  cc_Codes :: "byte list option list"
  cc_Parameters :: "byte list option list option list"
  cc_tempParaIndex :: nat

definition NewContractContext :: "Uint160 list \<Rightarrow> ContractContext" where
  "NewContractContext programHashes =
     \<lparr>cc_ProgramHashes = programHashes, cc_Codes = replicate (length programHashes) None,
      cc_Parameters = replicate (length programHashes) None, cc_tempParaIndex = 0\<rparr>"

definition GetIndex :: "ContractContext \<Rightarrow> Uint160 \<Rightarrow> int" where
  "GetIndex cxt programHash =
     (let n = length (takeWhile (\<lambda>h. h \<noteq> programHash) (cc_ProgramHashes cxt))
      in if n < length (cc_ProgramHashes cxt) then int n else -1)"

text \<open>An unknown program hash is taken for the first one. An index out of range panics.\<close>

definition ContractContext_Add :: "Contract \<Rightarrow> int \<Rightarrow> byte list \<Rightarrow> ContractContext \<Rightarrow> ContractContext go" where
  "ContractContext_Add contract index parameter cxt =
     (let i = nat (max 0 (GetIndex cxt (ct_ProgramHash contract)))
      in if i \<ge> length (cc_Codes cxt) then panic
         else
           let codes = (case cc_Codes cxt ! i of
                          None \<Rightarrow> (cc_Codes cxt)[i := Some (ct_Code contract)]
                        | Some _ \<Rightarrow> cc_Codes cxt)
           in if i \<ge> length (cc_Parameters cxt) then panic
              else
                let ps = (case cc_Parameters cxt ! i of
                            None \<Rightarrow> replicate (length (ct_Parameters contract)) None
                          | Some ps \<Rightarrow> ps)
                in if index < 0 \<or> index \<ge> int (length ps) then panic
                   else Some (cxt\<lparr>cc_Codes := codes,
                                  cc_Parameters := (cc_Parameters cxt)[i := Some (ps[nat index := Some parameter])]\<rparr>))"

text \<open>The position of the one signature among the parameters, \<open>-1\<close> for none; \<open>None\<close> for two.\<close>

fun signature_index :: "byte list \<Rightarrow> int \<Rightarrow> int \<Rightarrow> int option" where
  "signature_index [] i index = Some index"
| "signature_index (p # ps) i index =
     (if p = ParamSignature then (if index \<ge> 0 then None else signature_index ps (i + 1) i)
      else signature_index ps (i + 1) index)"

definition AddContract ::
  "Contract \<Rightarrow> byte list \<Rightarrow> ContractContext \<Rightarrow> (goerr option \<times> ContractContext) go" where
  "AddContract contract parameter cxt = do {
     t \<leftarrow> Contract_GetType (ct_Code contract);
     (if t = MultiSigContract then do {
        cxt \<leftarrow> ContractContext_Add contract (int (cc_tempParaIndex cxt)) parameter cxt;
        let next = Suc (cc_tempParaIndex cxt);
        Some (None, cxt\<lparr>cc_tempParaIndex := if next = length (ct_Parameters contract) then 0 else next\<rparr>) }
      else
        (case signature_index (ct_Parameters contract) 0 (-1) of
           None \<Rightarrow> Some (Some (ErrNew ''Contract Parameters are not supported.''), cxt)
         | Some index \<Rightarrow> do {
             cxt \<leftarrow> ContractContext_Add contract index parameter cxt;
             Some (None, cxt) })) }"

definition IsCompleted :: "ContractContext \<Rightarrow> bool" where
  "IsCompleted cxt =
     list_all (\<lambda>p. case p of None \<Rightarrow> False | Some ps \<Rightarrow> list_all (\<lambda>pp. pp \<noteq> None) ps) (cc_Parameters cxt)"

text \<open>
  A nil code and a nil parameter are written as empty ones. A short parameter is pushed as a number.
\<close>

definition push_parameter :: "byte list option \<Rightarrow> byte list \<Rightarrow> byte list" where
  "push_parameter parameter sb =
     (let p = (case parameter of None \<Rightarrow> [] | Some p \<Rightarrow> p)
      in if length p \<le> 2 then PushNumber (int (be_val p)) sb else PushData p sb)"

definition build_program :: "byte list option \<times> byte list option list option \<Rightarrow> Program" where
  "build_program cp =
     \<lparr>pg_Code = (case fst cp of None \<Rightarrow> [] | Some c \<Rightarrow> c),
      pg_Parameter = fold push_parameter (case snd cp of None \<Rightarrow> [] | Some ps \<Rightarrow> ps) []\<rparr>"

definition GetUncompletedPrograms :: "ContractContext \<Rightarrow> Program list" where
  "GetUncompletedPrograms cxt = map build_program (zip (cc_Codes cxt) (cc_Parameters cxt))"

definition GetPrograms :: "ContractContext \<Rightarrow> Program list option" where
  "GetPrograms cxt = (if IsCompleted cxt then Some (GetUncompletedPrograms cxt) else None)"

end
