(* ===== verification/Crypto_Sm3.thy ===== *)
theory Crypto_Sm3
  imports Serialization
begin

text \<open>
  The SM3 hash of \<^verbatim>\<open>src/crypto/sm3\<close>: the compression of blocks (\<^verbatim>\<open>sm3block.go\<close>) and the digest that takes its
  input piece by piece (\<^verbatim>\<open>sm3.go\<close>). The digest is shown to compute the hash of all that was written, as
  the standard defines it on a padded message, whatever the pieces are.
\<close>

unbundle bit_operations_syntax

section \<open>Compression\<close>

definition sm3_t :: "nat \<Rightarrow> u32" where
  "sm3_t j = (if j \<ge> 16 then 0x7A879D8A else 0x79CC4519)"

definition sm3_ff :: "u32 \<Rightarrow> u32 \<Rightarrow> u32 \<Rightarrow> nat \<Rightarrow> u32" where
  "sm3_ff x y z j = (if j \<ge> 16 then (x OR y) AND (x OR z) AND (y OR z) else x XOR y XOR z)"

definition sm3_gg :: "u32 \<Rightarrow> u32 \<Rightarrow> u32 \<Rightarrow> nat \<Rightarrow> u32" where
  "sm3_gg x y z j = (if j \<ge> 16 then (x AND y) OR (NOT x AND z) else x XOR y XOR z)"

definition sm3_rotl :: "u32 \<Rightarrow> nat \<Rightarrow> u32" where
  "sm3_rotl x n = push_bit (n mod 32) x OR drop_bit (32 - n mod 32) x"

definition sm3_p0 :: "u32 \<Rightarrow> u32" where
  "sm3_p0 x = x XOR sm3_rotl x 9 XOR sm3_rotl x 17"

definition sm3_p1 :: "u32 \<Rightarrow> u32" where
  "sm3_p1 x = x XOR sm3_rotl x 15 XOR sm3_rotl x 23"

definition sm3_words :: "byte list \<Rightarrow> u32 list" where
  "sm3_words p = map (\<lambda>i. get_le (rev (take 4 (drop (4 * i) p)))) [0..<16]"

text \<open>The message schedule, kept with the newest word first while it grows.\<close>

primrec sm3_expand :: "nat \<Rightarrow> u32 list \<Rightarrow> u32 list" where
  "sm3_expand 0 w = rev w"
| "sm3_expand (Suc n) w =
     sm3_expand n ((sm3_p1 (w ! 15 XOR w ! 8 XOR sm3_rotl (w ! 2) 15) XOR sm3_rotl (w ! 12) 7 XOR w ! 5) # w)"

type_synonym sm3_state = "u32 \<times> u32 \<times> u32 \<times> u32 \<times> u32 \<times> u32 \<times> u32 \<times> u32"

text \<open>Round \<open>j\<close> with \<^verbatim>\<open>w[j]\<close> and \<^verbatim>\<open>w1[j]\<close>.\<close>

fun sm3_round :: "sm3_state \<Rightarrow> nat \<times> u32 \<times> u32 \<Rightarrow> sm3_state" where
  "sm3_round (a, b, c, d, e, f, g, h) (j, w, w1) =
     (let ss1 = sm3_rotl (sm3_rotl a 12 + e + sm3_rotl (sm3_t j) j) 7;
          ss2 = ss1 XOR sm3_rotl a 12;
          tt1 = sm3_ff a b c j + d + ss2 + w1;
          tt2 = sm3_gg e f g j + h + ss1 + w
      in (tt1, a, sm3_rotl b 9, c, sm3_p0 tt2, e, sm3_rotl f 19, g))"

fun sm3_mix :: "sm3_state \<Rightarrow> sm3_state \<Rightarrow> sm3_state" where
  "sm3_mix (h0, h1, h2, h3, h4, h5, h6, h7) (a, b, c, d, e, f, g, h) =
     (h0 XOR a, h1 XOR b, h2 XOR c, h3 XOR d, h4 XOR e, h5 XOR f, h6 XOR g, h7 XOR h)"

definition sm3_compress :: "sm3_state \<Rightarrow> byte list \<Rightarrow> sm3_state" where
  "sm3_compress s p =
     (let w = sm3_expand 52 (rev (sm3_words p)); w1 = map2 (XOR) w (drop 4 w)
      in sm3_mix s (foldl sm3_round s (zip [0..<64] (zip w w1))))"

function blockGeneric :: "sm3_state \<Rightarrow> byte list \<Rightarrow> sm3_state" where
  "blockGeneric s p = (if length p \<ge> 64 then blockGeneric (sm3_compress s (take 64 p)) (drop 64 p) else s)"
  by pat_completeness auto
termination
  by (relation "measure (\<lambda>(s, p). length p)") auto

declare blockGeneric.simps [simp del]

text \<open>For evaluation: rotations of words, and sums with zero, which make the evaluator compute a value at once.\<close>

lemma sm3_rotl_word: "sm3_rotl x n = word_rotl n x"
proof (rule bit_word_eqI)
  fix i assume "i < LENGTH(32)"
  then have i: "i < 32" by simp
  define m where "m = n mod 32"
  have m: "m < 32" by (simp add: m_def)
  have "bit (sm3_rotl x n) i \<longleftrightarrow> m \<le> i \<and> bit x (i - m) \<or> bit x (32 - m + i)"
    using i by (auto simp: sm3_rotl_def bit_simps m_def)
  moreover have "bit (word_rotl n x) i \<longleftrightarrow> bit x ((i + (32 - m)) mod 32)" using i by (simp add: bit_word_rotl_iff m_def)
  moreover have "(i + (32 - m)) mod 32 = (if m \<le> i then i - m else i + (32 - m))" using i m by (auto simp: mod_if)
  moreover have "\<not> bit x (32 - m + i)" if "m \<le> i" using that m bit_imp_le_length [of x "32 - m + i"] by auto
  ultimately show "bit (sm3_rotl x n) i \<longleftrightarrow> bit (word_rotl n x) i" by (auto simp: add.commute)
qed

lemma sm3_code [code]:
  "sm3_rotl x n = 0 + word_rotl n x"
  "sm3_p0 x = 0 + (x XOR sm3_rotl x 9 XOR sm3_rotl x 17)"
  "sm3_p1 x = 0 + (x XOR sm3_rotl x 15 XOR sm3_rotl x 23)"
  "sm3_expand 0 w = rev w"
  "sm3_expand (Suc n) w =
     sm3_expand n ((0 + (sm3_p1 (0 + (w ! 15 XOR w ! 8 XOR sm3_rotl (w ! 2) 15)) XOR sm3_rotl (w ! 12) 7 XOR w ! 5)) # w)"
  by (simp_all add: sm3_rotl_word sm3_p0_def sm3_p1_def)

section \<open>The digest\<close>

record digest =
  dg_h :: sm3_state
  dg_x :: "byte list"
  dg_nx :: nat
  dg_len :: u64

definition sm3_init :: sm3_state where
  "sm3_init = (0x7380166F, 0x4914B2B9, 0x172442D7, 0xDA8A0600, 0xA96F30BC, 0x163138AA, 0xE38DEE4D, 0xB0FB0E4E)"

definition digest_Reset :: "digest \<Rightarrow> digest" where
  "digest_Reset d = d\<lparr>dg_h := sm3_init, dg_nx := 0, dg_len := 0\<rparr>"

definition sm3_New :: digest where
  "sm3_New = digest_Reset \<lparr>dg_h = (0, 0, 0, 0, 0, 0, 0, 0), dg_x = replicate 64 0, dg_nx = 0, dg_len = 0\<rparr>"

text \<open>\<^verbatim>\<open>copy(d.x[at:], p)\<close>: the array after it, and the number of bytes copied.\<close>

definition copy_into :: "nat \<Rightarrow> byte list \<Rightarrow> byte list \<Rightarrow> nat \<times> byte list" where
  "copy_into at p x = (let n = min (length x - at) (length p) in (n, take at x @ take n p @ drop (at + n) x))"

definition digest_Write :: "byte list \<Rightarrow> digest \<Rightarrow> digest" where
  "digest_Write p d =
     (let d = d\<lparr>dg_len := dg_len d + word_of_nat (length p)\<rparr>;
          (d, p) =
            (if dg_nx d > 0 then
               (let (n, x) = copy_into (dg_nx d) p (dg_x d);
                    d = d\<lparr>dg_x := x, dg_nx := dg_nx d + n\<rparr>;
                    d = (if dg_nx d = 64 then d\<lparr>dg_h := blockGeneric (dg_h d) (dg_x d), dg_nx := 0\<rparr> else d)
                in (d, drop n p))
             else (d, p));
          (d, p) =
            (if length p \<ge> 64 then
               (let n = length p div 64 * 64 in (d\<lparr>dg_h := blockGeneric (dg_h d) (take n p)\<rparr>, drop n p))
             else (d, p))
      in if length p > 0 then (let (n, x) = copy_into 0 p (dg_x d) in d\<lparr>dg_x := x, dg_nx := n\<rparr>) else d)"

definition sm3_output :: "sm3_state \<Rightarrow> byte list" where
  "sm3_output s =
     (case s of (a, b, c, d, e, f, g, h) \<Rightarrow> concat (map (\<lambda>w. rev (put_le 4 w)) [a, b, c, d, e, f, g, h]))"

definition checkSum :: "digest \<Rightarrow> byte list go" where
  "checkSum d =
     (let len = dg_len d;
          tmp = 0x80 # replicate 63 0;
          r = unat (len mod 64);
          d = digest_Write (take (if r < 56 then 56 - r else 64 + 56 - r) tmp) d;
          d = digest_Write (rev (put_le 8 (push_bit 3 len))) d
      in if dg_nx d \<noteq> 0 then panic else Some (sm3_output (dg_h d)))"

definition digest_Sum :: "digest \<Rightarrow> byte list \<Rightarrow> byte list go" where
  "digest_Sum d0 bs = do { hash \<leftarrow> checkSum d0; Some (bs @ hash) }"

definition sm3_Sum :: "byte list \<Rightarrow> byte list go" where
  "sm3_Sum data = checkSum (digest_Write data sm3_New)"

section \<open>The hash of a message\<close>

definition sm3_pad :: "byte list \<Rightarrow> byte list" where
  "sm3_pad m =
     m @ 0x80 # replicate ((119 - length m mod 64) mod 64) 0 @ rev (put_le 8 (push_bit 3 (word_of_nat (length m)) :: u64))"

definition sm3 :: "byte list \<Rightarrow> byte list" where
  "sm3 m = sm3_output (blockGeneric sm3_init (sm3_pad m))"

section \<open>Pieces\<close>

lemma blockGeneric_short [simp]: "length p < 64 \<Longrightarrow> blockGeneric s p = s"
  by (subst blockGeneric.simps) simp

lemma blockGeneric_append: "64 dvd length a \<Longrightarrow> blockGeneric s (a @ b) = blockGeneric (blockGeneric s a) b"
proof (induction s a rule: blockGeneric.induct)
  case (1 s a)
  show ?case
  proof (cases "length a \<ge> 64")
    case True
    then have "64 dvd length (drop 64 a)" using 1(2) by simp
    then have "blockGeneric (sm3_compress s (take 64 a)) (drop 64 a @ b)
        = blockGeneric (blockGeneric (sm3_compress s (take 64 a)) (drop 64 a)) b"
      using 1(1) True by blast
    then show ?thesis using True by (simp add: blockGeneric.simps [of s "a @ b"] blockGeneric.simps [of s a])
  next
    case False
    with 1(2) have "a = []" by (auto dest: dvd_imp_le)
    then show ?thesis by simp
  qed
qed

text \<open>The digest has taken in \<open>bs\<close>: its whole blocks are compressed, the rest waits in the buffer.\<close>

definition absorbed :: "byte list \<Rightarrow> digest \<Rightarrow> bool" where
  "absorbed bs d \<longleftrightarrow>
     dg_h d = blockGeneric sm3_init bs \<and> length (dg_x d) = 64 \<and> dg_nx d = length bs mod 64 \<and>
     take (dg_nx d) (dg_x d) = drop (length bs div 64 * 64) bs \<and> dg_len d = word_of_nat (length bs)"

lemma absorbed_New: "absorbed [] sm3_New"
  by (simp add: absorbed_def sm3_New_def digest_Reset_def)

text \<open>One piece on an empty buffer, and on a buffer in use.\<close>

lemma blockGeneric_whole: "blockGeneric s (take (length p div 64 * 64) p) = blockGeneric s p"
proof -
  define n where "n = length p div 64 * 64"
  have "n \<le> length p" by (simp add: n_def)
  then have "64 dvd length (take n p)" by (simp add: n_def)
  moreover have "length (drop n p) < 64" by (simp add: n_def minus_div_mult_eq_mod)
  ultimately show ?thesis using blockGeneric_append [of "take n p" s "drop n p"] by (simp add: n_def)
qed

lemma absorbed_aligned:
  assumes "absorbed bs d" and "dg_nx d = 0"
  shows "absorbed (bs @ p) (digest_Write p d)"
proof -
  have dv: "64 dvd length bs" using assms by (auto simp: absorbed_def)
  then obtain q where q: "length bs = q * 64" by (auto elim: dvdE simp: mult.commute)
  have left: "length p - length p div 64 * 64 = length p mod 64" by (rule minus_div_mult_eq_mod)
  show ?thesis
  proof (cases "length p \<ge> 64")
    case True
    then show ?thesis using assms q left blockGeneric_append [OF dv, of sm3_init p]
      by (auto simp: digest_Write_def absorbed_def Let_def copy_into_def blockGeneric_whole drop_take)
  next
    case False
    then show ?thesis using assms q blockGeneric_append [OF dv, of sm3_init p]
      by (auto simp: digest_Write_def absorbed_def Let_def copy_into_def)
  qed
qed

lemma Write_fill:
  assumes "0 < dg_nx d" and "length (dg_x d) = 64" and "n = 64 - dg_nx d" and "n \<le> length p" and "dg_nx d < 64"
  shows "digest_Write p d = digest_Write (drop n p)
    (d\<lparr>dg_h := blockGeneric (dg_h d) (take (dg_nx d) (dg_x d) @ take n p), dg_x := take (dg_nx d) (dg_x d) @ take n p,
       dg_nx := 0, dg_len := dg_len d + word_of_nat n\<rparr>)"
proof -
  have "(word_of_nat n :: u64) + word_of_nat (length p - n) = word_of_nat (length p)"
    using assms(4) by (simp flip: of_nat_add)
  then have "dg_len d + word_of_nat n + word_of_nat (length p - n) = dg_len d + word_of_nat (length p)"
    by (simp add: add.assoc)
  moreover have "copy_into (dg_nx d) p (dg_x d) = (n, take (dg_nx d) (dg_x d) @ take n p)"
    using assms by (simp add: copy_into_def Let_def min_absorb1)
  moreover have "dg_nx d + n = 64" using assms(3,5) by simp
  ultimately show ?thesis using assms(1,4) by (cases d) (auto simp: digest_Write_def Let_def split: prod.split)
qed

lemma absorbed_used:
  assumes "absorbed bs d" and "0 < dg_nx d"
  shows "absorbed (bs @ p) (digest_Write p d)"
proof -
  define q r where "q = length bs div 64" and "r = length bs mod 64"
  have len: "length bs = q * 64 + r" by (simp add: q_def r_def)
  have d: "dg_h d = blockGeneric sm3_init bs" "length (dg_x d) = 64" "dg_nx d = r" "0 < r" "r < 64"
      "take r (dg_x d) = drop (q * 64) bs" "dg_len d = word_of_nat (length bs)"
    using assms by (auto simp: absorbed_def q_def r_def)
  show ?thesis
  proof (cases "64 - r \<le> length p")
    case True
    define n where "n = 64 - r"
    define d1 where "d1 = d\<lparr>dg_h := blockGeneric (dg_h d) (take r (dg_x d) @ take n p), dg_x := take r (dg_x d) @ take n p,
        dg_nx := 0, dg_len := dg_len d + word_of_nat n\<rparr>"
    have w: "digest_Write p d = digest_Write (drop n p) d1"
      unfolding d1_def using Write_fill [of d n p] True d by (simp add: n_def)
    have "length (bs @ take n p) = Suc q * 64" using True d(4,5) by (simp add: n_def len)
    moreover have "blockGeneric (dg_h d) (take r (dg_x d) @ take n p) = blockGeneric sm3_init (bs @ take n p)"
    proof -
      have "blockGeneric sm3_init (take (q * 64) bs) = blockGeneric sm3_init bs"
        using blockGeneric_whole [of sm3_init bs] by (simp add: q_def)
      then have "blockGeneric (dg_h d) (drop (q * 64) bs @ take n p)
          = blockGeneric sm3_init (take (q * 64) bs @ drop (q * 64) bs @ take n p)"
        using blockGeneric_append [of "take (q * 64) bs" sm3_init "drop (q * 64) bs @ take n p"] by (simp add: d(1) len)
      then show ?thesis by (simp add: d(6) flip: append_assoc)
    qed
    moreover have "dg_len d1 = word_of_nat (length (bs @ take n p))"
      using True by (simp add: d1_def d(7) n_def min_absorb2 del: of_nat_diff)
    moreover have "length (take r (dg_x d) @ take n p) = 64" using d True by (simp add: n_def len)
    moreover have "dg_h d1 = blockGeneric (dg_h d) (take r (dg_x d) @ take n p)" "dg_x d1 = take r (dg_x d) @ take n p" "dg_nx d1 = 0"
      by (simp_all add: d1_def)
    ultimately have "absorbed (bs @ take n p) d1" unfolding absorbed_def by (simp only:) simp
    then have "absorbed ((bs @ take n p) @ drop n p) (digest_Write (drop n p) d1)"
      by (rule absorbed_aligned) (simp add: d1_def)
    then show ?thesis by (simp add: w)
  next
    case False
    then have "r + length p < 64" by simp
    then have "(q * 64 + (r + length p)) div 64 = q" "(q * 64 + (r + length p)) mod 64 = r + length p"
      by (simp_all only: div_mult_self3 mod_mult_self3 div_less mod_less)
    then have "(length bs + length p) div 64 = q" "(length bs + length p) mod 64 = r + length p" by (simp_all only: len add.assoc)
    moreover have "blockGeneric sm3_init (bs @ p) = blockGeneric sm3_init bs"
    proof -
      have "take (q * 64) (bs @ p) = take (q * 64) bs" by (simp add: len)
      then show ?thesis using blockGeneric_whole [of sm3_init "bs @ p"] blockGeneric_whole [of sm3_init bs] calculation(1)
        by (simp only: length_append flip: q_def)
    qed
    ultimately show ?thesis using d False by (simp add: absorbed_def digest_Write_def Let_def copy_into_def len)
  qed
qed

lemma absorbed_Write: "absorbed bs d \<Longrightarrow> absorbed (bs @ p) (digest_Write p d)"
  using absorbed_aligned absorbed_used by (cases "dg_nx d = 0") auto

lemma absorbed_fold: "absorbed bs d \<Longrightarrow> absorbed (bs @ concat ps) (fold digest_Write ps d)"
proof (induction ps arbitrary: bs d)
  case (Cons p ps)
  then have "absorbed ((bs @ p) @ concat ps) (fold digest_Write ps (digest_Write p d))" by (intro Cons.IH absorbed_Write)
  then show ?case by simp
qed simp

lemma unat_len_mod: "unat ((word_of_nat n :: u64) mod 64) = n mod 64"
proof -
  have "(64 :: nat) dvd 2 ^ 64" by simp
  then have "n mod 2 ^ 64 mod 64 = n mod 64" by (rule mod_mod_cancel)
  then show ?thesis by (simp add: unat_mod unat_of_nat)
qed

lemma checkSum_absorbed:
  assumes "absorbed m d"
  shows "checkSum d = Some (sm3 m)"
proof -
  define r where "r = length m mod 64"
  define z where "z = take (if r < 56 then 56 - r else 64 + 56 - r) (0x80 # replicate 63 (0 :: byte))"
  define l where "l = rev (put_le 8 (push_bit 3 (dg_len d)))"
  have r: "r < 64" by (simp add: r_def)
  have len: "dg_len d = word_of_nat (length m)" using assms by (simp add: absorbed_def)
  have zeros: "(119 - r) mod 64 = (if r < 56 then 55 - r else 119 - r)" using r by (auto simp: mod_if)
  have "56 - r = Suc (55 - r)" if "r < 56" using that by simp
  moreover have "120 - r = Suc (119 - r)" using r by simp
  ultimately have z: "z = 0x80 # replicate ((119 - r) mod 64) 0" using r by (simp add: z_def zeros)
  have all: "(m @ z) @ l = sm3_pad m" by (simp add: z l_def sm3_pad_def len r_def)
  have "absorbed ((m @ z) @ l) (digest_Write l (digest_Write z d))" by (intro absorbed_Write assms)
  moreover have "length ((m @ z) @ l) mod 64 = 0"
  proof -
    have "length ((m @ z) @ l) = length m + (9 + (119 - r) mod 64)" by (simp add: z l_def)
    then have "length ((m @ z) @ l) mod 64 = (r + (9 + (119 - r) mod 64)) mod 64"
      unfolding r_def by (simp only: mod_add_left_eq)
    also have "\<dots> = 0" using r by (simp add: zeros)
    finally show ?thesis .
  qed
  ultimately have "dg_nx (digest_Write l (digest_Write z d)) = 0"
      "dg_h (digest_Write l (digest_Write z d)) = blockGeneric sm3_init (sm3_pad m)"
    unfolding absorbed_def all by simp_all
  moreover have "unat (dg_len d mod 64) = r" using unat_len_mod [of "length m"] by (simp add: len r_def)
  then have "checkSum d = (let d = digest_Write l (digest_Write z d) in if dg_nx d \<noteq> 0 then panic else Some (sm3_output (dg_h d)))"
    unfolding checkSum_def Let_def z_def l_def by (simp only:)
  ultimately show ?thesis by (simp add: sm3_def Let_def)
qed

lemma digest_Sum_pieces: "digest_Sum (fold digest_Write ps sm3_New) bs = Some (bs @ sm3 (concat ps))"
  using absorbed_fold [OF absorbed_New, of ps] by (simp add: digest_Sum_def checkSum_absorbed)

text \<open>
  C39. The digest computes the hash of the concatenation of the pieces written to it, padded in one go, and its
  check on the buffer never panics.
\<close>

theorem digest_pieces: "digest_Sum (fold digest_Write ps sm3_New) bs = Some (bs @ sm3 (concat ps))"
  by (rule digest_Sum_pieces)

lemma sm3_Sum_eq [simp]: "sm3_Sum m = Some (sm3 m)"
  using absorbed_Write [OF absorbed_New, of m] by (simp add: sm3_Sum_def checkSum_absorbed)

lemma length_sm3 [simp]: "length (sm3 m) = 32"
  by (simp add: sm3_def sm3_output_def split: prod.splits)

text \<open>The test vector of the standard.\<close>

lemma sm3_abc:
  "sm3 [0x61, 0x62, 0x63] =
     [0x66, 0xc7, 0xf0, 0xf4, 0x62, 0xee, 0xed, 0xd9, 0xd1, 0xf2, 0xd4, 0x6b, 0xdc, 0x10, 0xe4, 0xe2,
      0x41, 0x67, 0xc4, 0x87, 0x5c, 0xf2, 0xf7, 0xa2, 0x29, 0x7d, 0xa0, 0x2b, 0x8f, 0x4b, 0xa8, 0xe0]"
  by code_simp

end
