(* ===== verification/Crypto_Sign.thy ===== *)
theory Crypto_Sign
  imports Crypto_Sm3 Crypto_Points Go_Sha256
begin

text \<open>
  Signing and verifying (\<^verbatim>\<open>src/crypto/crypto.go\<close>) with either algorithm: ECDSA on P-256 (\<^verbatim>\<open>p256r1.go\<close>), whose
  routines are Go's, and SM2 (\<^verbatim>\<open>sm2.go\<close>), written out in the source on top of the operations of a curve.
  The curve operations, Go's ECDSA and the random streams are fields of an argument.
\<close>

section \<open>What the code is given\<close>

text \<open>
  \<open>al_draw\<close> is what the generator seeded with the private key, the entropy and the hash gives on its reads
  of 40 bytes; \<open>al_entropy\<close> is the outcome of reading the entropy. \<open>al_primes\<close> are the random primes that
  a search for a square root draws.
\<close>

record CryptoAlg =
  al_SM2 :: bool
  al_params :: CurveParams
  al_N :: int
  al_ScalarBaseMult :: "byte list \<Rightarrow> int \<times> int"
  al_ScalarMult :: "int \<Rightarrow> int \<Rightarrow> byte list \<Rightarrow> int \<times> int"
  al_Add :: "int \<Rightarrow> int \<Rightarrow> int \<Rightarrow> int \<Rightarrow> int \<times> int"
  al_ecdsaSign :: "int \<Rightarrow> byte list \<Rightarrow> goerr + int \<times> int"
  al_ecdsaVerify :: "int \<Rightarrow> int \<Rightarrow> byte list \<Rightarrow> int \<Rightarrow> int \<Rightarrow> bool"
  al_ecdsaGenerate :: "goerr + int \<times> int \<times> int"
  al_entropy :: "goerr option"
  al_draw :: "byte list \<Rightarrow> byte list \<Rightarrow> nat \<Rightarrow> byte list"
  al_primes :: "int list"

section \<open>SM2\<close>

abbreviation sm2_A :: int where "sm2_A \<equiv> 0xFFFFFFFEFFFFFFFFFFFFFFFFFFFFFFFFFFFFFFFF00000000FFFFFFFFFFFFFFFC"
abbreviation sm2_B :: int where "sm2_B \<equiv> 0x28E9FA9E9D9F5E344D5A9E4BCF6509A7F39789F515AB8F92DDBCBD414D940E93"
abbreviation sm2_Gx :: int where "sm2_Gx \<equiv> 0x32C4AE2C1F1981195F9904466A39C9948FE30BBFF2660BE1715A4589334C74C7"
abbreviation sm2_Gy :: int where "sm2_Gy \<equiv> 0xBC3736A2F4F6779C59BDCEE36B692153D0A9877CC62A474002DF32E52139F0A0"

definition USERID :: "byte list" where
  "USERID = [0x31, 0x32, 0x33, 0x34, 0x35, 0x36, 0x37, 0x38, 0x31, 0x32, 0x33, 0x34, 0x35, 0x36, 0x37, 0x38]"

text \<open>The curve that \<^verbatim>\<open>sm2.Init\<close> sets.\<close>

definition sm2_Init :: "CryptoAlg \<Rightarrow> CryptoAlg" where
  "sm2_Init A = A\<lparr>al_SM2 := True,
     al_params := \<lparr>cv_P = 0xFFFFFFFEFFFFFFFFFFFFFFFFFFFFFFFFFFFFFFFF00000000FFFFFFFFFFFFFFFF, cv_B = sm2_B\<rparr>,
     al_N := 0xFFFFFFFEFFFFFFFFFFFFFFFFFFFFFFFF7203DF6B21C6052B53BBF40939D54123\<rparr>"

definition combineZ :: "byte list \<Rightarrow> int \<Rightarrow> int \<Rightarrow> byte list \<Rightarrow> byte list go" where
  "combineZ raw publicKeyX publicKeyY userID =
     (let len = word_of_nat (length userID * 8) :: u16;
          h = fold digest_Write
                [rev (put_le 2 len), userID, big_Bytes sm2_A, big_Bytes sm2_B, big_Bytes sm2_Gx, big_Bytes sm2_Gy,
                 big_Bytes publicKeyX, big_Bytes publicKeyY] sm3_New
      in do { z \<leftarrow> digest_Sum h []; Some (z @ raw) })"

definition randFieldElement :: "int \<Rightarrow> byte list \<Rightarrow> int go" where
  "randFieldElement N b = (if N - 1 - 1 = 0 then panic else Some (int (be_val b) mod (N - 1 - 1) + 1))"

definition sm2_GenKeyPair :: "CryptoAlg \<Rightarrow> goerr + byte list \<Rightarrow> (goerr + byte list \<times> int \<times> int) go" where
  "sm2_GenKeyPair A random =
     (case random of
        Inl err \<Rightarrow> Some (Inl (ErrNew ''Generate key pair error''))
      | Inr b \<Rightarrow> do {
          k \<leftarrow> randFieldElement (al_N A) b;
          Some (Inr (big_Bytes k, al_ScalarBaseMult A (big_Bytes k))) })"

text \<open>\<^verbatim>\<open>ModInverse\<close> gives nil when there is no inverse, and the multiplication by it panics.\<close>

definition ModInverse :: "int \<Rightarrow> int \<Rightarrow> int go" where
  "ModInverse g n =
     (let a = nat (g mod n)
      in if gcd a (nat n) = 1 then Some (fst (bezw a (nat n)) mod n) else panic)"

text \<open>
  The two nested loops of \<^verbatim>\<open>Sign\<close> draw again in the same way, so they are one here; \<open>i\<close> counts the draws. It
  need not end: the outer \<open>None\<close> is a loop that goes on, the inner one a panic.
\<close>

partial_function (option) sm2_Sign_loop :: "CryptoAlg \<Rightarrow> (nat \<Rightarrow> byte list) \<Rightarrow> int \<Rightarrow> int \<Rightarrow> nat \<Rightarrow> (int \<times> int) go option" where
  "sm2_Sign_loop A draw D e i =
     (case randFieldElement (al_N A) (draw i) of
        None \<Rightarrow> Some panic
      | Some k \<Rightarrow>
          let r = (fst (al_ScalarBaseMult A (big_Bytes k)) + e) mod al_N A
          in if r = 0 \<and> r + k \<noteq> al_N A then sm2_Sign_loop A draw D e (Suc i)
             else (case ModInverse (D + 1) (al_N A) of
                     None \<Rightarrow> Some panic
                   | Some d1Inv \<Rightarrow>
                       let s = (k - D * r) * d1Inv mod al_N A
                       in if s \<noteq> 0 then Some (Some (r, s)) else sm2_Sign_loop A draw D e (Suc i)))"

definition sm2_Sign :: "CryptoAlg \<Rightarrow> byte list \<Rightarrow> byte list \<Rightarrow> (goerr + int \<times> int) go option" where
  "sm2_Sign A priKey data =
     (let (publicKeyX, publicKeyY) = al_ScalarBaseMult A priKey
      in case combineZ data publicKeyX publicKeyY USERID of
           None \<Rightarrow> Some panic
         | Some z \<Rightarrow>
             (case sm3_Sum z of
                None \<Rightarrow> Some panic
              | Some hash \<Rightarrow>
                  if al_entropy A \<noteq> None then Some (Some (Inl (the (al_entropy A))))
                  else if al_N A = 0 then Some (Some (Inl (ErrNew ''zero parameter'')))
                  else map_option (map_option Inr)
                         (sm2_Sign_loop A (al_draw A priKey hash) (int (be_val priKey)) (int (be_val hash)) 0)))"

definition sm2_Verify :: "CryptoAlg \<Rightarrow> int option \<Rightarrow> int option \<Rightarrow> byte list \<Rightarrow> int \<Rightarrow> int \<Rightarrow> goerr option go" where
  "sm2_Verify A publicKeyX publicKeyY data r s =
     (let N = al_N A
      in if r \<le> 0 \<or> s \<le> 0 then Some (Some (ErrNew ''SM2 signature contained zero or negative values''))
         else if r \<ge> N \<or> s \<ge> N then Some (Some (ErrNew ''SM2 signature contained zero or negative values''))
         else let t = (r + s) mod N
              in if N = 0 then Some (Some (ErrNew ''SM2 Params N contained zero or negative values''))
                 else do {
                   px \<leftarrow> publicKeyX;
                   py \<leftarrow> publicKeyY;
                   let (x1, y1) = al_ScalarBaseMult A (big_Bytes s);
                   let (x2, y2) = al_ScalarMult A px py (big_Bytes t);
                   let x = fst (al_Add A x1 y1 x2 y2);
                   z \<leftarrow> combineZ data px py USERID;
                   hash \<leftarrow> sm3_Sum z;
                   Some (if (x + int (be_val hash)) mod N = r then None else Some (ErrNew ''[Validation], Verify failed.'')) })"

section \<open>P-256\<close>

definition p256r1_Sign :: "CryptoAlg \<Rightarrow> byte list \<Rightarrow> byte list \<Rightarrow> goerr + int \<times> int" where
  "p256r1_Sign A priKey data = al_ecdsaSign A (int (be_val priKey)) (sha256 data)"

definition p256r1_Verify :: "CryptoAlg \<Rightarrow> int option \<Rightarrow> int option \<Rightarrow> byte list \<Rightarrow> int \<Rightarrow> int \<Rightarrow> goerr option go" where
  "p256r1_Verify A X Y data r s = do {
     x \<leftarrow> X;
     y \<leftarrow> Y;
     Some (if al_ecdsaVerify A x y (sha256 data) r s then None else Some (ErrNew ''[Validation], Verify failed.'')) }"

definition p256r1_GenKeyPair :: "CryptoAlg \<Rightarrow> goerr + byte list \<times> int \<times> int" where
  "p256r1_GenKeyPair A =
     (case al_ecdsaGenerate A of
        Inl err \<Rightarrow> Inl (ErrNew ''Generate key pair error'')
      | Inr (D, X, Y) \<Rightarrow> Inr (big_Bytes D, X, Y))"

section \<open>The common interface\<close>

abbreviation SIGNRLEN :: nat where "SIGNRLEN \<equiv> 32"
abbreviation SIGNATURELEN :: nat where "SIGNATURELEN \<equiv> 64"

text \<open>
  The bytes of \<open>r\<close> end at the middle of the signature and those of \<open>s\<close> at its end; a number too long makes a
  slice start before the buffer.
\<close>

definition sig_bytes :: "int \<Rightarrow> int \<Rightarrow> byte list go" where
  "sig_bytes r s =
     (let rb = big_Bytes r; sb = big_Bytes s
      in if length rb > SIGNRLEN \<or> length sb > SIGNATURELEN then panic
         else Some (take (SIGNATURELEN - length sb) (replicate (SIGNRLEN - length rb) 0 @ rb @ replicate 32 0) @ sb))"

definition crypto_Sign :: "CryptoAlg \<Rightarrow> byte list \<Rightarrow> byte list \<Rightarrow> (goerr + byte list) go option" where
  "crypto_Sign A privateKey data =
     (case (if al_SM2 A then sm2_Sign A privateKey data else Some (Some (p256r1_Sign A privateKey data))) of
        None \<Rightarrow> None
      | Some None \<Rightarrow> Some panic
      | Some (Some (Inl err)) \<Rightarrow> Some (Some (Inl err))
      | Some (Some (Inr (r, s))) \<Rightarrow> Some (map_option Inr (sig_bytes r s)))"

definition crypto_Verify :: "CryptoAlg \<Rightarrow> PubKey \<Rightarrow> byte list \<Rightarrow> byte list \<Rightarrow> goerr option go" where
  "crypto_Verify A publicKey data signature =
     (if length signature \<noteq> SIGNATURELEN then Some (Some (ErrNew ''Unknown signature length''))
      else
        let r = int (be_val (take (length signature div 2) signature));
            s = int (be_val (drop (length signature div 2) signature))
        in if al_SM2 A then sm2_Verify A (pk_X publicKey) (pk_Y publicKey) data r s
           else p256r1_Verify A (pk_X publicKey) (pk_Y publicKey) data r s)"

definition GenKeyPair :: "CryptoAlg \<Rightarrow> goerr + byte list \<Rightarrow> (goerr + byte list \<times> PubKey) go" where
  "GenKeyPair A random = do {
     r \<leftarrow> (if al_SM2 A then sm2_GenKeyPair A random else Some (p256r1_GenKeyPair A));
     Some (case r of
             Inl err \<Rightarrow> Inl err
           | Inr (privateD, X, Y) \<Rightarrow> Inr (privateD, \<lparr>pk_X = Some X, pk_Y = Some Y\<rparr>)) }"

section \<open>What the libraries promise\<close>

text \<open>
  The operations of the curve are those of a group of order \<open>N\<close>, \<open>pt a\<close> being \<open>a\<close> times the base point; and
  Go's ECDSA accepts the signatures it makes.
\<close>

definition curve_laws :: "CryptoAlg \<Rightarrow> (int \<Rightarrow> int \<times> int) \<Rightarrow> bool" where
  "curve_laws A pt \<longleftrightarrow>
     2 < al_N A \<and> al_N A \<le> 2 ^ 256 \<and>
     (\<forall>bs. al_ScalarBaseMult A bs = pt (int (be_val bs))) \<and>
     (\<forall>a bs. al_ScalarMult A (fst (pt a)) (snd (pt a)) bs = pt (a * int (be_val bs))) \<and>
     (\<forall>a b. al_Add A (fst (pt a)) (snd (pt a)) (fst (pt b)) (snd (pt b)) = pt (a + b)) \<and>
     (\<forall>a. pt (a mod al_N A) = pt a)"

definition ecdsa_laws :: "CryptoAlg \<Rightarrow> int \<Rightarrow> int \<Rightarrow> int \<Rightarrow> bool" where
  "ecdsa_laws A D X Y \<longleftrightarrow>
     (\<forall>h r s. al_ecdsaSign A D h = Inr (r, s) \<longrightarrow>
        al_ecdsaVerify A X Y h r s \<and> 0 \<le> r \<and> r < 2 ^ 256 \<and> 0 \<le> s \<and> s < 2 ^ 256)"

text \<open>The public key of a private key, and the laws for the algorithm in use.\<close>

definition key_pair :: "CryptoAlg \<Rightarrow> (int \<Rightarrow> int \<times> int) \<Rightarrow> byte list \<Rightarrow> int \<Rightarrow> int \<Rightarrow> bool" where
  "key_pair A pt priKey X Y \<longleftrightarrow>
     (if al_SM2 A then curve_laws A pt \<and> (X, Y) = al_ScalarBaseMult A priKey
      else ecdsa_laws A (int (be_val priKey)) X Y)"

section \<open>Lemmas\<close>

lemma combineZ_total: "\<exists>z. combineZ raw x y u = Some (z @ raw)"
  by (simp add: combineZ_def Let_def digest_Sum_pieces del: fold.simps)

lemma ModInverse_inverse:
  assumes "ModInverse g n = Some i" and "1 < n"
  shows "(i * g) mod n = 1"
proof -
  define a where "a = nat (g mod n)"
  have i: "i = fst (bezw a (nat n)) mod n" and "gcd a (nat n) = 1"
    using assms(1) by (auto simp: ModInverse_def a_def Let_def split: if_splits)
  then have "fst (bezw a (nat n)) * int a + snd (bezw a (nat n)) * n = 1" using bezw_aux [of a "nat n"] assms(2) by simp
  then have "(fst (bezw a (nat n)) * int a) mod n = 1 mod n" by (metis mod_mult_self1)
  moreover have "int a = g mod n" using assms(2) by (simp add: a_def)
  ultimately show ?thesis using assms(2) by (simp add: i mod_simps)
qed

text \<open>One draw that ends the loop.\<close>

definition sm2_drawn :: "CryptoAlg \<Rightarrow> int \<Rightarrow> int \<Rightarrow> int \<Rightarrow> int \<Rightarrow> int \<Rightarrow> bool" where
  "sm2_drawn A D e k r s \<longleftrightarrow>
     0 < k \<and> k < al_N A \<and> r = (fst (al_ScalarBaseMult A (big_Bytes k)) + e) mod al_N A \<and> 0 < r \<and> r < al_N A \<and>
     0 < s \<and> s < al_N A \<and> (s * (D + 1)) mod al_N A = (k - D * r) mod al_N A"

lemma sm2_drawnI:
  assumes "randFieldElement (al_N A) b = Some k" and "2 < al_N A"
    and "r = (fst (al_ScalarBaseMult A (big_Bytes k)) + e) mod al_N A" and "\<not> (r = 0 \<and> r + k \<noteq> al_N A)"
    and "ModInverse (D + 1) (al_N A) = Some d" and "s = (k - D * r) * d mod al_N A" and "s \<noteq> 0"
  shows "sm2_drawn A D e k r s"
proof -
  define N where "N = al_N A"
  have "0 \<le> int (be_val b) mod (N - 2)" "int (be_val b) mod (N - 2) < N - 2" using assms(2) by (simp_all add: N_def)
  moreover have "k = int (be_val b) mod (N - 2) + 1" using assms(1,2) by (auto simp: randFieldElement_def N_def split: if_splits)
  ultimately have k: "0 < k" "k < N" by simp_all
  have "d * (D + 1) mod N = 1" using ModInverse_inverse [OF assms(5)] assms(2) by (simp add: N_def)
  then have "(k - D * r) * (d * (D + 1) mod N) mod N = (k - D * r) mod N" by simp
  then have "(k - D * r) * (d * (D + 1)) mod N = (k - D * r) mod N" by (simp only: mod_mult_right_eq)
  then have "(s * (D + 1)) mod N = (k - D * r) mod N" unfolding assms(6) N_def [symmetric] by (metis mod_mult_left_eq mult.assoc)
  moreover have "0 \<le> s" "s < N" using assms(2) unfolding assms(6) N_def by simp_all
  moreover have "0 \<le> r" "r < N" using assms(2) unfolding assms(3) N_def by simp_all
  moreover have "r \<noteq> 0" using assms(4) k by (auto simp: N_def)
  ultimately have "0 < r" "r < N" "0 < s" "s < N" "(s * (D + 1)) mod N = (k - D * r) mod N" using assms(7) by simp_all
  then show ?thesis using k unfolding sm2_drawn_def N_def by (intro conjI assms(3))
qed

lemma sm2_Sign_loop_sound:
  assumes "sm2_Sign_loop A draw D e i = Some y"
  shows "2 < al_N A \<longrightarrow> y = Some (r, s) \<longrightarrow> (\<exists>k. sm2_drawn A D e k r s)"
  using assms
proof (rule sm2_Sign_loop.raw_induct [rotated])
  fix f A draw D e i y
  assume IH: "\<And>A draw D e i y. f A draw D e i = Some y \<Longrightarrow> 2 < al_N A \<longrightarrow> y = Some (r, s) \<longrightarrow> (\<exists>k. sm2_drawn A D e k r s)"
    and step: "(case randFieldElement (al_N A) (draw i) of None \<Rightarrow> Some None
      | Some k \<Rightarrow> let r = (fst (al_ScalarBaseMult A (big_Bytes k)) + e) mod al_N A
          in if r = 0 \<and> r + k \<noteq> al_N A then f A draw D e (Suc i)
             else case ModInverse (D + 1) (al_N A) of None \<Rightarrow> Some None
               | Some d1Inv \<Rightarrow> let s = (k - D * r) * d1Inv mod al_N A
                   in if s \<noteq> 0 then Some (Some (r, s)) else f A draw D e (Suc i)) = Some y"
  show "2 < al_N A \<longrightarrow> y = Some (r, s) \<longrightarrow> (\<exists>k. sm2_drawn A D e k r s)"
  proof (intro impI)
    assume N: "2 < al_N A" and y: "y = Some (r, s)"
    obtain k where k: "randFieldElement (al_N A) (draw i) = Some k" using step y by (auto split: option.splits)
    define r' where "r' = (fst (al_ScalarBaseMult A (big_Bytes k)) + e) mod al_N A"
    show "\<exists>k. sm2_drawn A D e k r s"
    proof (cases "r' = 0 \<and> r' + k \<noteq> al_N A")
      case True
      then have "f A draw D e (Suc i) = Some y" using step by (simp add: k Let_def flip: r'_def)
      then show ?thesis using IH N y by blast
    next
      case False
      then obtain d where d: "ModInverse (D + 1) (al_N A) = Some d"
        using step y by (auto simp: k Let_def simp flip: r'_def split: option.splits)
      then have "(let s = (k - D * r') * d mod al_N A in if s \<noteq> 0 then Some (Some (r', s)) else f A draw D e (Suc i)) = Some y"
        using step by (simp only: k Let_def option.case r'_def [symmetric] False if_False)
      then have "r = r' \<and> s = (k - D * r') * d mod al_N A \<and> s \<noteq> 0 \<or> f A draw D e (Suc i) = Some y"
        using y by (auto simp: Let_def split: if_split_asm)
      then show ?thesis using sm2_drawnI [OF k N r'_def False d] IH N y by blast
    qed
  qed
qed

text \<open>The loop ends as soon as a draw gives a signature with no zero.\<close>

lemma sm2_Sign_loop_ends:
  assumes "randFieldElement (al_N A) (draw (i + n)) = Some k" and "ModInverse (D + 1) (al_N A) = Some d"
    and "r = (fst (al_ScalarBaseMult A (big_Bytes k)) + e) mod al_N A" and "r \<noteq> 0"
    and "(k - D * r) * d mod al_N A \<noteq> 0" and "al_N A \<noteq> 2"
  shows "\<exists>r s. sm2_Sign_loop A draw D e i = Some (Some (r, s))"
  using assms(1)
proof (induction n arbitrary: i)
  case 0
  then show ?case using assms(2-5) by (subst sm2_Sign_loop.simps) (simp add: Let_def)
next
  case (Suc n)
  obtain k' where "randFieldElement (al_N A) (draw i) = Some k'" using assms(6) by (auto simp: randFieldElement_def)
  moreover have "\<exists>r s. sm2_Sign_loop A draw D e (Suc i) = Some (Some (r, s))" using Suc by simp
  ultimately show ?case using assms(2) by (subst sm2_Sign_loop.simps) (auto simp: Let_def)
qed

lemma sig_bytes_rt:
  assumes "0 \<le> r" and "r < 2 ^ 256" and "0 \<le> s" and "s < 2 ^ 256"
  shows "\<exists>b. sig_bytes r s = Some b \<and> length b = 64 \<and> int (be_val (take 32 b)) = r \<and> int (be_val (drop 32 b)) = s"
proof -
  define rb sb where "rb = big_Bytes r" and "sb = big_Bytes s"
  have len: "length rb \<le> 32" "int (be_val rb) = r" "length sb \<le> 32" "int (be_val sb) = s"
    using big_Bytes_be [OF assms(1,2)] big_Bytes_be [OF assms(3,4)] by (simp_all add: rb_def sb_def)
  have "take (64 - length sb) (replicate (32 - length rb) 0 @ rb @ replicate 32 0) @ sb =
      (replicate (32 - length rb) 0 @ rb) @ replicate (32 - length sb) 0 @ sb" using len(1,3) by simp
  then have "sig_bytes r s = Some ((replicate (32 - length rb) 0 @ rb) @ replicate (32 - length sb) 0 @ sb)"
    using len(1,3) by (simp add: sig_bytes_def Let_def flip: rb_def sb_def)
  then show ?thesis using len by (simp add: be_val_zeros)
qed

lemma sm2_drawn_verifies:
  assumes "curve_laws A pt" and "(X, Y) = al_ScalarBaseMult A priKey" and "combineZ data X Y USERID = Some z"
    and "sm2_drawn A (int (be_val priKey)) (int (be_val (sm3 z))) k r s"
  shows "sm2_Verify A (Some X) (Some Y) data r s = Some None"
proof -
  define N D t where "N = al_N A" and "D = int (be_val priKey)" and "t = (r + s) mod N"
  note law = assms(1)[unfolded curve_laws_def, folded N_def]
  have XY: "X = fst (pt D)" "Y = snd (pt D)" using assms(2) law by (auto simp: D_def dest: sym)
  have d: "0 < k" "k < N" "(fst (pt k) + int (be_val (sm3 z))) mod N = r" "0 < r" "r < N" "0 < s" "s < N"
      "s * (D + 1) mod N = (k - D * r) mod N"
    using assms(4) law be_val_big_Bytes [of k] by (auto simp: sm2_drawn_def N_def D_def)
  have st: "0 \<le> t" using law by (simp add: t_def)
  have "(s + D * t) mod N = (s + D * (r + s)) mod N" unfolding t_def by (metis mod_add_right_eq mod_mult_right_eq)
  also have "\<dots> = (s * (D + 1) mod N + D * r) mod N" by (simp add: mod_simps algebra_simps)
  also have "\<dots> = k mod N" unfolding d(8) by (simp add: mod_simps)
  finally have "pt (s + D * t) = pt k" using law by metis
  moreover have "al_ScalarBaseMult A (big_Bytes s) = pt s" "al_ScalarMult A X Y (big_Bytes t) = pt (D * t)"
    using law d(6) st be_val_big_Bytes [of s] be_val_big_Bytes [of t] by (simp_all add: XY)
  moreover have "al_Add A (fst (pt s)) (snd (pt s)) (fst (pt (D * t))) (snd (pt (D * t))) = pt (s + D * t)" using law by blast
  ultimately show ?thesis using d assms(3)
    by (cases "pt s"; cases "pt (D * t)") (simp add: sm2_Verify_def Let_def t_def flip: N_def)
qed

lemma crypto_sign_verifies:
  assumes "key_pair A pt priKey X Y" and "crypto_Sign A priKey data = Some (Some (Inr sig))"
  shows "length sig = 64 \<and> crypto_Verify A \<lparr>pk_X = Some X, pk_Y = Some Y\<rparr> data sig = Some None"
proof (cases "al_SM2 A")
  case True
  then have law: "curve_laws A pt" and XY: "(X, Y) = al_ScalarBaseMult A priKey" using assms(1) by (simp_all add: key_pair_def)
  obtain z where z: "combineZ data X Y USERID = Some z" using combineZ_total by blast
  obtain r s where rs: "sm2_Sign A priKey data = Some (Some (Inr (r, s)))" "sig_bytes r s = Some sig"
    using assms(2) True by (auto simp: crypto_Sign_def split: option.splits sum.splits)
  then have "sm2_Sign_loop A (al_draw A priKey (sm3 z)) (int (be_val priKey)) (int (be_val (sm3 z))) 0 = Some (Some (r, s))"
    using z by (auto simp: sm2_Sign_def XY [symmetric] split: if_split_asm)
  then obtain k where k: "sm2_drawn A (int (be_val priKey)) (int (be_val (sm3 z))) k r s"
    using sm2_Sign_loop_sound law by (fastforce simp: curve_laws_def)
  have "0 \<le> r" "r < 2 ^ 256" "0 \<le> s" "s < 2 ^ 256" using k law by (simp_all add: sm2_drawn_def curve_laws_def)
  then show ?thesis using sig_bytes_rt [of r s] rs(2) sm2_drawn_verifies [OF law XY z k] True by (auto simp: crypto_Verify_def)
next
  case False
  then obtain r s where "p256r1_Sign A priKey data = Inr (r, s)" "sig_bytes r s = Some sig"
    using assms(2) by (auto simp: crypto_Sign_def split: sum.splits prod.splits)
  then show ?thesis using sig_bytes_rt [of r s] assms(1) False
    by (auto simp: crypto_Verify_def p256r1_Verify_def p256r1_Sign_def key_pair_def ecdsa_laws_def)
qed

text \<open>
  C10. A signature that \<^verbatim>\<open>Sign\<close> returns, with either algorithm, has 64 bytes and is accepted by \<^verbatim>\<open>Verify\<close> for the public
  key, if the curve is a group and Go's ECDSA accepts its own signatures.
\<close>

theorem crypto_Sign_Verify:
  assumes "key_pair A pt priKey X Y" and "crypto_Sign A priKey data = Some (Some (Inr sig))"
  shows "length sig = 64 \<and> crypto_Verify A \<lparr>pk_X = Some X, pk_Y = Some Y\<rparr> data sig = Some None"
  using crypto_sign_verifies [OF assms] .

text \<open>A small group: the numbers modulo 7 with addition, and the private key 2.\<close>

definition sample_alg :: CryptoAlg where
  "sample_alg =
     \<lparr>al_SM2 = True, al_params = \<lparr>cv_P = 7, cv_B = 1\<rparr>, al_N = 7,
      al_ScalarBaseMult = (\<lambda>bs. (int (be_val bs) mod 7, 0)),
      al_ScalarMult = (\<lambda>x y bs. (x * int (be_val bs) mod 7, 0)),
      al_Add = (\<lambda>x1 y1 x2 y2. ((x1 + x2) mod 7, 0)),
      al_ecdsaSign = (\<lambda>D h. Inl (ErrNew '''')), al_ecdsaVerify = (\<lambda>X Y h r s. False),
      al_ecdsaGenerate = Inl (ErrNew ''''), al_entropy = None, al_draw = (\<lambda>key hash i. [word_of_nat i]),
      al_primes = []\<rparr>"

lemma sample_key: "key_pair sample_alg (\<lambda>a. (a mod 7, 0)) [2] 2 0"
  by (simp add: key_pair_def curve_laws_def sample_alg_def be_val_def mod_simps)

lemma sample_loop: "\<exists>r s. sm2_Sign_loop sample_alg (\<lambda>i. [word_of_nat i]) 2 e 0 = Some (Some (r, s))"
proof -
  have inv: "ModInverse (2 + 1) (al_N sample_alg) = Some 5" by (simp add: sample_alg_def) code_simp
  define v where "v = e mod 7"
  have "0 \<le> v" "v < 7" by (simp_all add: v_def)
  then have v: "v \<in> {0, 1, 2, 3, 4, 5, 6}" by auto
  define n k where "n = (if v = 3 then 1 else if v = 6 then 2 else 0 :: nat)" and "k = int n + 1"
  define r where "r = (fst (al_ScalarBaseMult sample_alg (big_Bytes k)) + e) mod al_N sample_alg"
  have "int (be_val (big_Bytes k)) = k" using be_val_big_Bytes [of k] by (simp add: k_def)
  then have r: "r = (k + v) mod 7" by (simp add: r_def sample_alg_def v_def mod_simps)
  have "randFieldElement (al_N sample_alg) [word_of_nat (0 + n)] = Some k"
    by (simp add: randFieldElement_def sample_alg_def k_def n_def be_val_def)
  moreover have "r \<noteq> 0" "(k - 2 * r) * 5 mod al_N sample_alg \<noteq> 0"
    using v by (auto simp: r k_def n_def sample_alg_def)
  ultimately show ?thesis
    by (intro sm2_Sign_loop_ends [where n = n and k = k and d = 5 and r = r] inv) (simp_all add: r_def sample_alg_def)
qed

theorem crypto_Sign_Verify_witness:
  "\<exists>sig. crypto_Sign sample_alg [2] [1, 2, 3] = Some (Some (Inr sig)) \<and>
     length sig = 64 \<and> crypto_Verify sample_alg \<lparr>pk_X = Some 2, pk_Y = Some 0\<rparr> [1, 2, 3] sig = Some None"
proof -
  obtain z where z: "combineZ [1, 2, 3] 2 0 USERID = Some z" using combineZ_total by blast
  obtain r s where rs: "sm2_Sign_loop sample_alg (\<lambda>i. [word_of_nat i]) 2 (int (be_val (sm3 z))) 0 = Some (Some (r, s))"
    using sample_loop by blast
  then have d: "\<exists>k. sm2_drawn sample_alg 2 (int (be_val (sm3 z))) k r s"
    using sm2_Sign_loop_sound by (fastforce simp: sample_alg_def)
  then obtain sig where "sig_bytes r s = Some sig" using sig_bytes_rt [of r s] by (auto simp: sm2_drawn_def sample_alg_def)
  then have "crypto_Sign sample_alg [2] [1, 2, 3] = Some (Some (Inr sig))"
    using rs z by (simp add: crypto_Sign_def sm2_Sign_def sample_alg_def be_val_def)
  then show ?thesis using crypto_Sign_Verify [OF sample_key] by blast
qed

end
