(* ===== verification/Signature_Check.thy ===== *)
theory Signature_Check
  imports Vm_Exec Contract_Model Crypto_Sign
begin

text \<open>
  The check of signed data: the crypto interface of the virtual machine (\<^verbatim>\<open>vm/ECDsaCrypto.go\<close>) and
  \<^verbatim>\<open>core/validation/validation.go\<close>, which runs each program of a transaction on the machine. The machine
  runs with at most 1200 steps, so the fuel of its loop is enough (\<open>Execute_terminates\<close>).
\<close>

section \<open>Definitions\<close>

definition ECDsa_VerifySignature :: "CryptoAlg \<Rightarrow> byte list \<Rightarrow> byte list \<Rightarrow> byte list \<Rightarrow> (bool \<times> goerr option) go" where
  "ECDsa_VerifySignature A message signature pubkey = do {
     r \<leftarrow> DecodePoint (al_primes A) (al_params A) pubkey;
     (case r of
        Inl err \<Rightarrow> Some (False, Some (Detail '''' (ErrNew ''[ECDsaCrypto], crypto.DecodePoint failed.'')))
      | Inr pk \<Rightarrow> do {
          err \<leftarrow> crypto_Verify A pk message signature;
          Some (if err \<noteq> None then (False, Some (Detail '''' (ErrNew ''[ECDsaCrypto], VerifySignature failed.'')))
                else (True, None)) }) }"

record SignableData =
  sd_hashes :: "(goerr + Uint160 list) go"
  sd_programs :: "Program list"
  sd_message :: "byte list go"

text \<open>What a transaction gives; the other signable data of the program differ in these three only.\<close>

definition signable_tx :: "tx_lookup \<Rightarrow> Transaction \<Rightarrow> SignableData" where
  "signable_tx getTx tx = \<lparr>sd_hashes = GetProgramHashes getTx tx, sd_programs = tx_Programs tx, sd_message = GetHashData tx\<rparr>"

type_synonym inplace_ops = "byte \<Rightarrow> elem list \<Rightarrow> elem list \<Rightarrow> (byte \<times> goerr option \<times> elem list \<times> elem list) go"

definition check_env :: "CryptoAlg \<Rightarrow> inplace_ops \<Rightarrow> SignableData \<Rightarrow> vm_env" where
  "check_env A inplace sd =
     \<lparr>ve_Hash160 = (\<lambda>_. []), ve_Hash256 = (\<lambda>_. []), ve_VerifySignature = ECDsa_VerifySignature A,
      ve_table = None, ve_message = sd_message sd, ve_maxSteps = 1200, ve_inplace = inplace\<rparr>"

definition run_program :: "vm_env \<Rightarrow> Program \<Rightarrow> ExecutionEngine go" where
  "run_program V program =
     (case Execute V (2 + 1200 + 1)
             (LoadScript (pg_Parameter program) True (LoadScript (pg_Code program) False NewExecutionEngine)) of
        None \<Rightarrow> panic
      | Some r \<Rightarrow> r)"

definition check_program :: "vm_env \<Rightarrow> Program \<Rightarrow> goerr option go" where
  "check_program V program = do {
     se \<leftarrow> run_program V program;
     (if en_state se \<noteq> HALT then Some (Some (Detail '''' (ErrNew ''[VM] Finish State not equal to HALT.'')))
      else if EvalCount se \<noteq> 1 then Some (Some (Detail '''' (ErrNew ''[VM] Execute Engine Stack Count Error.'')))
      else do {
        (flag, _) \<leftarrow> GetExecuteResult se;
        Some (if \<not> flag then Some (Detail '''' (ErrNew ''[VM] Check Sig FALSE.'')) else None) }) }"

fun check_programs :: "(byte list \<Rightarrow> byte list) \<Rightarrow> vm_env \<Rightarrow> Uint160 list \<Rightarrow> Program list \<Rightarrow> (bool \<times> goerr option) go" where
  "check_programs ripemd160 V (h # hashes) (p # programs) =
     (if h \<noteq> fst (ToCodeHash ripemd160 (pg_Code p))
      then Some (False, Some (ErrNew ''The data hashes is different with corresponding program code.''))
      else do {
        err \<leftarrow> check_program V p;
        (case err of Some e \<Rightarrow> Some (False, Some e) | None \<Rightarrow> check_programs ripemd160 V hashes programs) })"
| "check_programs ripemd160 V hashes programs = Some (True, None)"

definition VerifySignableData ::
  "(byte list \<Rightarrow> byte list) \<Rightarrow> CryptoAlg \<Rightarrow> inplace_ops \<Rightarrow> SignableData \<Rightarrow> (bool \<times> goerr option) go" where
  "VerifySignableData ripemd160 A inplace sd = do {
     r \<leftarrow> sd_hashes sd;
     (case r of
        Inl err \<Rightarrow> Some (False, Some err)
      | Inr hashes \<Rightarrow>
          if length hashes \<noteq> length (sd_programs sd)
          then Some (False, Some (ErrNew ''The number of data hashes is different with number of programs.''))
          else check_programs ripemd160 (check_env A inplace sd) hashes (sd_programs sd)) }"

definition VerifySignature :: "CryptoAlg \<Rightarrow> SignableData \<Rightarrow> PubKey \<Rightarrow> byte list \<Rightarrow> (bool \<times> goerr option) go" where
  "VerifySignature A sd pubkey signature = do {
     message \<leftarrow> sd_message sd;
     err \<leftarrow> crypto_Verify A pubkey message signature;
     Some (case err of Some e \<Rightarrow> (False, Some (Detail ''[Validation], VerifySignature failed.'' e)) | None \<Rightarrow> (True, None)) }"

section \<open>Running scripts\<close>

definition run :: "vm_env \<Rightarrow> ExecutionEngine \<Rightarrow> ExecutionEngine go" where
  "run V e = run_ops V (length (ec_rest (en_context e))) e"

lemma run_end [simp]: "ec_rest (en_context e) = [] \<Longrightarrow> run V e = Some e"
  by (simp add: run_def)

text \<open>One operation of a script.\<close>

lemma run_op:
  assumes "ec_rest (en_context e) = op # rest"
    and "e1 = e\<lparr>en_context := (en_context e)\<lparr>ec_rest := rest\<rparr>, en_opCount := en_opCount e + 1\<rparr>"
    and "ve_maxSteps V < 2 ^ 62" and "0 \<le> en_opCount e"
  shows "run V e = do { (s, _, e2) \<leftarrow> ExecuteOp V op e1;
     (if s = HALT then Some (e2\<lparr>en_state := en_state e2 OR HALT\<rparr>)
      else if s = FAULT then Some (e2\<lparr>en_state := en_state e2 OR FAULT\<rparr>) else run V e2) }"
proof (cases "ExecuteOp V op e1")
  case None
  then show ?thesis using run_ops_Cons [OF assms(1,2), of V "length rest"] by (simp add: run_def assms(1))
next
  case (Some res)
  then obtain s err e2 where x: "ExecuteOp V op e1 = Some (s, err, e2)" by (cases res) auto
  have "run_ops V (length rest) e2 = run V e2" if "s \<noteq> FAULT"
  proof -
    have "advances V e1 e2" using ExecuteOp_advances [OF x assms(3) _ that] assms(2,4) by simp
    then have "0 \<le> en_opCount e2" "length (ec_rest (en_context e2)) \<le> length rest" using assms(2,4) by (auto simp: advances_def)
    then show ?thesis unfolding run_def by (rule run_ops_fuel [OF assms(3)])
  qed
  then show ?thesis using run_ops_Cons [OF assms(1,2), of V "length rest"] x by (auto simp: run_def assms(1))
qed

text \<open>Pushing data and numbers, on an engine whose script goes on with \<open>rest\<close>.\<close>

definition pushed :: "ExecutionEngine \<Rightarrow> StackItem list \<Rightarrow> byte list \<Rightarrow> ExecutionEngine \<Rightarrow> bool" where
  "pushed e xs rest e' \<longleftrightarrow>
     en_inv e' = en_inv e \<and> en_opCount e' = en_opCount e + int (length xs) \<and> en_eval e' = en_eval e @ map Item xs \<and>
     en_state e' = en_state e \<and> en_context e' = (en_context e)\<lparr>ec_rest := rest\<rparr>"

lemma pushed_trans:
  "pushed e xs (ys @ rest) e1 \<Longrightarrow> pushed e1 xs' rest e2 \<Longrightarrow> pushed e (xs @ xs') rest e2"
  by (auto simp: pushed_def)

lemma small_op:
  assumes "1 \<le> k" and "k \<le> 75"
  shows "1 \<le> (word_of_nat k :: byte)" "(word_of_nat k :: byte) \<le> 75" "uint (word_of_nat k :: byte) = int k"
proof -
  have u: "unat (word_of_nat k :: byte) = k" using assms by (simp add: unat_of_nat)
  then show "1 \<le> (word_of_nat k :: byte)" "(word_of_nat k :: byte) \<le> 75" using assms by (simp_all add: word_le_nat_alt)
  show "uint (word_of_nat k :: byte) = int k" using u by (metis uint_nat)
qed

lemma run_push_bytes:
  assumes "ec_rest (en_context e) = word_of_nat (length d) # d @ rest" and "1 \<le> length d" and "length d \<le> 75"
    and "ve_maxSteps V < 2 ^ 62" and "0 \<le> en_opCount e"
  shows "\<exists>e'. run V e = run V e' \<and> pushed e [ByteArray d] rest e'"
proof -
  define e1 where "e1 = e\<lparr>en_context := (en_context e)\<lparr>ec_rest := d @ rest\<rparr>, en_opCount := en_opCount e + 1\<rparr>"
  define e2 where "e2 = push_elem (Item (ByteArray d)) (e1\<lparr>en_context := (en_context e)\<lparr>ec_rest := rest\<rparr>\<rparr>)"
  note op = small_op [OF assms(2,3)]
  have "\<not> 0x60 < (word_of_nat (length d) :: byte)" using op(2) by (simp add: word_le_nat_alt word_less_nat_alt)
  then have "ExecuteOp V (word_of_nat (length d)) e1 = Some (0, None, e2)"
    using op by (simp add: ExecuteOp_def read_bytes_def Let_def e1_def e2_def zpad_def)
  then have "run V e = run V e2" using run_op [OF assms(1) e1_def assms(4,5)] by simp
  then show ?thesis by (intro exI [of _ e2]) (simp add: pushed_def e1_def e2_def push_elem_def stack_Push_def)
qed

lemma run_push_small:
  assumes "ec_rest (en_context e) = (0x50 + word_of_nat k) # rest" and "1 \<le> k" and "k \<le> 16"
    and "ve_maxSteps V < 2 ^ 62" and "0 \<le> en_opCount e"
  shows "\<exists>e'. run V e = run V e' \<and> pushed e [Integer (int k)] rest e'"
proof -
  define op where "op = (0x50 + word_of_nat k :: byte)"
  define e1 where "e1 = e\<lparr>en_context := (en_context e)\<lparr>ec_rest := rest\<rparr>, en_opCount := en_opCount e + 1\<rparr>"
  define e2 where "e2 = push_elem (Item (Integer (int k))) (e1\<lparr>en_opCode := op\<rparr>)"
  have "k \<in> {1, 2, 3, 4, 5, 6, 7, 8, 9, 10, 11, 12, 13, 14, 15, 16}" using assms(2,3) by simp presburger
  then have op: "0x51 \<le> op" "op \<le> 0x60" "\<not> 0x60 < op" "\<not> op \<le> 75" "sint (op - 0x51 + 1) = int k"
      "op \<notin> {0, 0x4C, 0x4D, 0x4E}"
    by (auto simp: op_def)
  then have "ExecuteOp V op e1 = Some (0, None, e2)"
    by (auto simp: ExecuteOp_def Let_def OpExecList_def opPushData_def getPushData_def e2_def)
  then have "run V e = run V e2" using run_op [OF assms(1) e1_def assms(4,5)] by (simp add: op_def)
  then show ?thesis by (intro exI [of _ e2]) (simp add: pushed_def e1_def e2_def push_elem_def stack_Push_def)
qed

lemma big_Bytes_one: "0 < i \<Longrightarrow> i < 256 \<Longrightarrow> big_Bytes i = [word_of_int i]"
proof -
  assume i: "0 < i" "i < 256"
  have "num_bytes (nat i) = 1" using i by (subst num_bytes.simps) simp
  then show ?thesis using i by (simp add: big_Bytes_def)
qed

lemma run_push_number:
  assumes "ec_rest (en_context e) = PushNumber (int m) [] @ rest" and "1 \<le> m" and "m \<le> 75"
    and "ve_maxSteps V < 2 ^ 62" and "0 \<le> en_opCount e"
  shows "\<exists>e' x. run V e = run V e' \<and> pushed e [x] rest e' \<and> GetBigInteger x = Some (int m)"
proof (cases "m \<le> 16")
  case True
  then have "PushNumber (int m) [] = [0x50 + word_of_nat m]" using assms(2) by (simp add: PushNumber_def AddOp_def big_Bytes_one)
  then show ?thesis using run_push_small [of e m rest V] assms True by fastforce
next
  case False
  then have "PushNumber (int m) [] = word_of_nat (length [word_of_nat m :: byte]) # [word_of_nat m]"
    using assms(3) by (simp add: PushNumber_def PushData_def big_Bytes_one)
  then obtain e' where "run V e = run V e'" "pushed e [ByteArray [word_of_nat m]] rest e'"
    using run_push_bytes [of e "[word_of_nat m]" rest V] assms by auto
  moreover have "GetBigInteger (ByteArray [word_of_nat m]) = Some (int m)"
    using assms(3) by (simp add: be_val_def unat_of_nat)
  ultimately show ?thesis by blast
qed

lemma run_push_keys:
  assumes "ec_rest (en_context e) = concat (map (\<lambda>k. 33 # k) keys) @ rest" and "list_all (\<lambda>k. length k = 33) keys"
    and "ve_maxSteps V < 2 ^ 62" and "0 \<le> en_opCount e"
  shows "\<exists>e'. run V e = run V e' \<and> pushed e (map ByteArray keys) rest e'"
  using assms(1,2,4)
proof (induction keys arbitrary: e)
  case Nil
  then show ?case by (intro exI [of _ e]) (simp add: pushed_def)
next
  case (Cons k keys)
  then obtain e1 where e1: "run V e = run V e1" "pushed e [ByteArray k] (concat (map (\<lambda>k. 33 # k) keys) @ rest) e1"
    using run_push_bytes [of e k "concat (map (\<lambda>k. 33 # k) keys) @ rest" V] assms(3) by auto
  then obtain e2 where "run V e1 = run V e2" "pushed e1 (map ByteArray keys) rest e2"
    using Cons.IH [of e1] Cons.prems by (auto simp: pushed_def)
  then show ?case using e1 pushed_trans [of e "[ByteArray k]"] by auto
qed

section \<open>A parameter and a code\<close>

text \<open>A script that may only push leaves the other scripts alone, or faults.\<close>

lemma getPushData_only: "getPushData e = (d, e') \<Longrightarrow> ec_PushOnly (en_context e') = ec_PushOnly (en_context e)"
  by (auto simp: getPushData_def ReadInt32_def read_bytes_def Let_def split: if_splits)

lemma push_only_op:
  assumes "ExecuteOp V op e = Some (s, err, e')" and "ec_PushOnly (en_context e)" and "length (en_inv e) \<le> 1"
  shows "s = FAULT \<or> s = NONE \<and> en_inv e' = en_inv e \<and> ec_PushOnly (en_context e') \<and> en_opCount e' = en_opCount e"
proof (cases "op \<le> 0x60")
  case True
  then have low: "\<not> 0x60 < op" by simp
  show ?thesis
  proof (cases "1 \<le> op \<and> op \<le> 75")
    case True
    then show ?thesis using assms(1,2) low by (auto simp: ExecuteOp_def read_bytes_def Let_def push_elem_def)
  next
    case False
    then have ex: "(case OpExecList V op of None \<Rightarrow> Some (FAULT, None, e\<lparr>en_opCode := op\<rparr>)
        | Some exec \<Rightarrow> do { (state, err, e) \<leftarrow> exec (e\<lparr>en_opCode := op\<rparr>);
            (if err \<noteq> None then Some (state, err, e) else Some (NONE, None, e)) }) = Some (s, err, e')"
      using assms(1) low by (auto simp: ExecuteOp_def Let_def)
    show ?thesis
    proof (cases "s = FAULT")
      case nf: False
      then obtain exec where ox: "OpExecList V op = Some exec" using ex by (auto split: option.splits)
      then obtain s1 err1 where x: "exec (e\<lparr>en_opCode := op\<rparr>) = Some (s1, err1, e')" "if err1 \<noteq> None then s = s1 else s = NONE"
        using ex by (auto split: bind_splits if_splits)
      have "exec = opPushData" using ox low op_table_high [of V] unfolding OpExecList_def
        by (auto simp: list_all_iff dest!: map_of_SomeD split: if_split_asm)
      then have p: "opPushData (e\<lparr>en_opCode := op\<rparr>) = Some (s1, err1, e')" using x(1) by simp
      obtain d e2 where g: "getPushData (e\<lparr>en_opCode := op\<rparr>) = (d, e2)" by fastforce
      have "s = NONE \<and> e' = push_elem (case d of DInt i \<Rightarrow> Item (Integer i) | DBool b \<Rightarrow> Item (Boolean b)
          | DBytes bs \<Rightarrow> Item (ByteArray bs) | DItems xs \<Rightarrow> Item (Array xs)) e2"
        using p x(2) nf by (cases d) (auto simp: opPushData_def g push_result_def pushData_def)
      then show ?thesis using getPushData_only [OF g] getPushData_reads [OF g] assms(2) by (auto simp: push_elem_def reads_def)
    qed simp
  qed
next
  case False
  then show ?thesis using assms
    by (auto simp: ExecuteOp_def Let_def OpExecList_def opRet_def stack_Count_def split: if_splits)
qed

lemma push_only_run:
  assumes "run_ops V n e = Some e'" and "ec_PushOnly (en_context e)" and "length (en_inv e) \<le> 1" and "0 \<le> en_opCount e"
  shows "en_state e' = en_state e OR FAULT \<or> en_state e' = en_state e \<and> en_inv e' = en_inv e \<and> 0 \<le> en_opCount e'"
  using assms
proof (induction n arbitrary: e)
  case (Suc n)
  show ?case
  proof (cases "ec_rest (en_context e)")
    case (Cons op rest)
    define e1 where "e1 = e\<lparr>en_context := (en_context e)\<lparr>ec_rest := rest\<rparr>, en_opCount := en_opCount e + 1\<rparr>"
    obtain s err e2 where x: "ExecuteOp V op e1 = Some (s, err, e2)"
        "(if s = HALT then Some (e2\<lparr>en_state := en_state e2 OR HALT\<rparr>)
          else if s = FAULT then Some (e2\<lparr>en_state := en_state e2 OR FAULT\<rparr>) else run_ops V n e2) = Some e'"
      using Suc.prems(1) run_ops_Cons [OF Cons e1_def, of V n] by (auto split: bind_splits)
    have "en_state e2 = en_state e" using ExecuteOp_state [OF x(1)] by (simp add: e1_def)
    then show ?thesis using push_only_op [OF x(1)] Suc.prems(2-4) x(2) Suc.IH [of e2] by (auto simp: e1_def)
  qed (use Suc.prems in simp)
qed (simp add: run_ops.simps)

definition start :: "byte list \<Rightarrow> byte list \<Rightarrow> ExecutionEngine" where
  "start code parameter =
     NewExecutionEngine\<lparr>en_inv := [NewExecutionContext code False], en_state := NONE, en_context := NewExecutionContext parameter True\<rparr>"

lemma run_program_start:
  obtains n where "run_program V p = do {
     e1 \<leftarrow> run V (start (pg_Code p) (pg_Parameter p));
     (case step_until V stopped (Suc (Suc n)) e1 of None \<Rightarrow> panic | Some r \<Rightarrow> r) }"
proof -
  define n where "n = (1200 :: nat)"
  define e0 where "e0 = NewExecutionEngine\<lparr>en_inv := [NewExecutionContext (pg_Code p) False, NewExecutionContext (pg_Parameter p) True],
    en_state := NONE\<rparr>"
  have "(2 + 1200 + 1 :: nat) = Suc (Suc (Suc n))" by (simp add: n_def)
  then have "run_program V p = (case step_until V stopped (Suc (Suc (Suc n))) e0 of None \<Rightarrow> panic | Some r \<Rightarrow> r)"
    by (simp add: run_program_def Execute_def LoadScript_def stack_Push_def e0_def NewExecutionEngine_def)
  moreover have "\<not> stopped e0" by (simp add: stopped_def e0_def)
  moreover have "StepInto V e0 = run V (start (pg_Code p) (pg_Parameter p))"
    by (simp add: StepInto_run e0_def start_def run_def NewExecutionEngine_def)
  ultimately show ?thesis
    by (intro that [of n]) (simp add: step_until_Suc split: option.split bind_splits)
qed

lemma code_step:
  assumes "en_state e = NONE" and "en_inv e = [c]"
  shows "step_until V stopped (Suc n) e =
    (case run V (e\<lparr>en_inv := [], en_context := c\<rparr>) of None \<Rightarrow> Some panic | Some e \<Rightarrow> step_until V stopped n e)"
  using assms by (simp add: step_until_Suc stopped_def StepInto_run run_def)

lemma last_step:
  assumes "en_state e = NONE" and "en_inv e = []"
  shows "step_until V stopped (Suc n) e = Some (Some (e\<lparr>en_state := HALT\<rparr>))"
proof -
  have "stopped (e\<lparr>en_state := HALT\<rparr>)" by (simp add: stopped_def)
  then show ?thesis using assms by (simp add: step_until_Suc stopped_def StepInto_run)
qed

lemma pop_snoc [simp]:
  "en_eval e = st @ [Item x] \<Longrightarrow> pop_item e = Some (x, e\<lparr>en_eval := st\<rparr>)"
  "en_eval e = st @ [Item x] \<Longrightarrow> pop_bytes e = Some (GetByteArray x, e\<lparr>en_eval := st\<rparr>)"
  by (simp_all add: pop_bytes_def pop_item_def pop_elem_def stack_Pop_def stack_Remove_def Let_def)

lemma pop_itemD: "pop_item e = Some (x, e') \<Longrightarrow> \<exists>st. en_eval e = st @ [Item x] \<and> e' = e\<lparr>en_eval := st\<rparr>"
  by (cases "en_eval e" rule: rev_cases)
     (auto simp: pop_item_def pop_elem_def stack_Pop_def stack_Remove_def Let_def split: bind_splits elim: AssertStackItem.elims)

text \<open>What acceptance means for a code that runs to its end or faults.\<close>

definition straight :: "vm_env \<Rightarrow> byte list \<Rightarrow> bool" where
  "straight V code \<longleftrightarrow>
     (\<forall>e e2. en_inv e = [] \<and> en_state e = NONE \<and> en_context e = NewExecutionContext code False \<and> 0 \<le> en_opCount e \<and>
        run V e = Some e2 \<longrightarrow> en_state e2 = FAULT \<or> en_state e2 = NONE \<and> en_inv e2 = [])"

lemma check_program_accepts:
  assumes "check_program V p = Some None" and "straight V (pg_Code p)"
  obtains e1 e e2 x where "run V (start (pg_Code p) (pg_Parameter p)) = Some e1"
    and "e = e1\<lparr>en_inv := [], en_context := NewExecutionContext (pg_Code p) False\<rparr>" and "en_state e = NONE" and "0 \<le> en_opCount e"
    and "run V e = Some e2" and "en_state e2 = NONE" and "en_eval e2 = [Item x]" and "GetBoolean x = Some True"
proof -
  define c where "c = NewExecutionContext (pg_Code p) False"
  obtain se e' where se: "run_program V p = Some se" "en_state se = HALT" "EvalCount se = 1" "pop_bool se = Some (True, e')"
    using assms(1) by (auto simp: check_program_def GetExecuteResult_def split: bind_splits if_splits)
  obtain x where x: "en_eval se = [Item x]" "GetBoolean x = Some True"
    using se(3,4) pop_itemD [of se] by (fastforce simp: pop_bool_def stack_Count_def split: bind_splits)
  obtain n where n: "run_program V p = do { e1 \<leftarrow> run V (start (pg_Code p) (pg_Parameter p));
      (case step_until V stopped (Suc (Suc n)) e1 of None \<Rightarrow> panic | Some r \<Rightarrow> r) }" by (rule run_program_start)
  then obtain e1 where e1: "run V (start (pg_Code p) (pg_Parameter p)) = Some e1" "step_until V stopped (Suc (Suc n)) e1 = Some (Some se)"
    using se(1) by (auto split: bind_splits option.splits)
  have s: "ec_PushOnly (en_context (start (pg_Code p) (pg_Parameter p)))" "length (en_inv (start (pg_Code p) (pg_Parameter p))) \<le> 1"
      "0 \<le> en_opCount (start (pg_Code p) (pg_Parameter p))" "en_state (start (pg_Code p) (pg_Parameter p)) = NONE"
      "en_inv (start (pg_Code p) (pg_Parameter p)) = [c]"
    by (simp_all add: start_def NewExecutionContext_def NewExecutionEngine_def c_def)
  have "en_state e1 = FAULT \<or> en_state e1 = NONE \<and> en_inv e1 = [c] \<and> 0 \<le> en_opCount e1"
    using push_only_run [OF e1(1)[unfolded run_def] s(1-3)] s(4,5) by simp
  then have e1': "en_state e1 = NONE" "en_inv e1 = [c]" "0 \<le> en_opCount e1" using e1(2) se(2) by (auto simp: stopped_def)
  define e where "e = e1\<lparr>en_inv := [], en_context := c\<rparr>"
  obtain e2 where e2: "run V e = Some e2" "step_until V stopped (Suc n) e2 = Some (Some se)"
    using e1(2) code_step [OF e1'(1,2), of V "Suc n"] by (auto simp: e_def split: option.splits)
  have "en_state e2 = FAULT \<or> en_state e2 = NONE \<and> en_inv e2 = []"
    using assms(2)[unfolded straight_def, rule_format, of e e2] e2(1) e1' by (simp add: e_def c_def)
  then have e2': "en_state e2 = NONE" "en_inv e2 = []" using e2(2) se(2) by (auto simp: stopped_def)
  then have "se = e2\<lparr>en_state := HALT\<rparr>" using e2(2) last_step by simp
  then show ?thesis using that [OF e1(1) e_def[unfolded c_def]] e1' e2(1) e2'(1) x by (simp add: e_def)
qed

section \<open>One signature\<close>

abbreviation sig_script :: "byte list \<Rightarrow> byte list" where
  "sig_script key \<equiv> 33 # key @ [OP_CHECKSIG]"

lemma CreateSignatureRedeemScript_eq:
  "EncodePoint pubkey True = Some key \<Longrightarrow> length key = 33 \<Longrightarrow> CreateSignatureRedeemScript pubkey = Some (sig_script key)"
  by (simp add: CreateSignatureRedeemScript_def AddOp_def PushData_def)

text \<open>The last operation: \<open>CHECKSIG\<close> on a stack with the key on top.\<close>

definition sig_outcome :: "vm_env \<Rightarrow> byte list \<Rightarrow> elem list \<Rightarrow> elem list option" where
  "sig_outcome V key st =
     (if st = [] then Some [Item (ByteArray key)]
      else (case last st of
              Item x \<Rightarrow> do {
                message \<leftarrow> ve_message V;
                (ver, _) \<leftarrow> ve_VerifySignature V message (GetByteArray x) key;
                Some (butlast st @ [Item (Boolean ver)]) }
            | _ \<Rightarrow> None))"

lemma opCheckSig_outcome:
  assumes "en_eval e = st @ [Item (ByteArray key)]"
  shows "opCheckSig V e = (if st = [] then op_fault e
     else map_option (\<lambda>st'. (NONE, None, e\<lparr>en_eval := st'\<rparr>)) (sig_outcome V key st))"
proof (cases st rule: rev_cases)
  case Nil
  then show ?thesis using assms by (simp add: opCheckSig_def stack_Count_def)
next
  case (snoc st' x)
  have "EvalCount e \<ge> 2" using assms snoc by (simp add: stack_Count_def)
  moreover have "pop_bytes (e\<lparr>en_eval := st' @ [x]\<rparr>) = (case x of Item i \<Rightarrow> Some (GetByteArray i, e\<lparr>en_eval := st'\<rparr>) | _ \<Rightarrow> None)"
    by (cases x) (simp_all add: pop_bytes_def pop_item_def pop_elem_def stack_Pop_def stack_Remove_def Let_def)
  ultimately show ?thesis using assms snoc
    by (cases x) (auto simp: opCheckSig_def sig_outcome_def push_elem_def stack_Push_def split: bind_splits)
qed

lemma run_sig_script:
  assumes "en_context e = NewExecutionContext (sig_script key) False" and "length key = 33" and "ve_maxSteps V = 1200"
    and "0 \<le> en_opCount e" and "en_state e = NONE"
  shows "\<exists>e2. run V e = (if en_opCount e + 2 > 1200 then Some (e2\<lparr>en_state := FAULT\<rparr>)
      else map_option (\<lambda>st. e2\<lparr>en_eval := st\<rparr>) (sig_outcome V key (en_eval e))) \<and> en_inv e2 = en_inv e \<and> en_state e2 = NONE"
proof -
  obtain e1 where e1: "run V e = run V e1" "pushed e [ByteArray key] [OP_CHECKSIG] e1"
    using run_push_bytes [of e key "[OP_CHECKSIG]" V] assms by (auto simp: NewExecutionContext_def)
  define e1' where "e1' = e1\<lparr>en_context := (en_context e1)\<lparr>ec_rest := []\<rparr>, en_opCount := en_opCount e1 + 1\<rparr>"
  have c: "ec_rest (en_context e1) = OP_CHECKSIG # []" "0 \<le> en_opCount e1" "\<not> ec_PushOnly (en_context e1')" "en_opCount e1' = en_opCount e + 2"
      "en_eval (e1'\<lparr>en_opCode := OP_CHECKSIG\<rparr>) = en_eval e @ [Item (ByteArray key)]" "ec_rest (en_context e1') = []" "en_inv e1' = en_inv e" "en_state e1' = NONE"
    using e1(2) assms by (auto simp: pushed_def e1'_def NewExecutionContext_def)
  have op: "OpExecList V OP_CHECKSIG = Some (opCheckSig V)" by (simp add: OpExecList_def op_table_def)
  have "run V e1 = do { (s, _, e2) \<leftarrow> ExecuteOp V OP_CHECKSIG e1';
     (if s = HALT then Some (e2\<lparr>en_state := en_state e2 OR HALT\<rparr>)
      else if s = FAULT then Some (e2\<lparr>en_state := en_state e2 OR FAULT\<rparr>) else run V e2) }"
    by (rule run_op [OF c(1) e1'_def]) (simp_all add: assms(3) c(2))
  moreover have "ExecuteOp V OP_CHECKSIG e1' = (if en_opCount e + 2 > 1200 then Some (FAULT, None, e1')
     else map_option (\<lambda>st. (NONE, None, e1'\<lparr>en_opCode := OP_CHECKSIG, en_eval := st\<rparr>)) (sig_outcome V key (en_eval e)))"
  proof (cases "en_eval e = []")
    case True
    then have "e1'\<lparr>en_opCode := OP_CHECKSIG, en_eval := [Item (ByteArray key)]\<rparr> = e1'\<lparr>en_opCode := OP_CHECKSIG\<rparr>"
      using c(5) by (cases e1') simp
    then show ?thesis using c(3,4) opCheckSig_outcome [OF c(5), of V] True
      by (simp add: ExecuteOp_def Let_def op assms(3) sig_outcome_def)
  next
    case False
    then show ?thesis using c(3,4) opCheckSig_outcome [OF c(5), of V]
      by (cases "sig_outcome V key (en_eval e)") (simp_all add: ExecuteOp_def Let_def op assms(3))
  qed
  ultimately show ?thesis using e1(1) c(6-8)
    by (intro exI [of _ "if en_opCount e + 2 > 1200 then e1' else e1'\<lparr>en_opCode := OP_CHECKSIG\<rparr>"])
       (auto split: option.splits bind_splits)
qed

lemma straight_sig: "length key = 33 \<Longrightarrow> ve_maxSteps V = 1200 \<Longrightarrow> straight V (sig_script key)"
  unfolding straight_def using run_sig_script [of _ key V] by (fastforce split: if_splits)

lemma check_program_runs:
  assumes "run V (start (pg_Code p) (pg_Parameter p)) = Some e1" and "en_state e1 = NONE"
    and "en_inv e1 = [NewExecutionContext (pg_Code p) False]"
    and "run V (e1\<lparr>en_inv := [], en_context := NewExecutionContext (pg_Code p) False\<rparr>) = Some e2"
    and "en_state e2 = NONE" and "en_inv e2 = []" and "en_eval e2 = [Item x]" and "GetBoolean x = Some b"
  shows "check_program V p = Some (if b then None else Some (Detail '''' (ErrNew ''[VM] Check Sig FALSE.'')))"
proof -
  obtain n where "run_program V p = do { e1 \<leftarrow> run V (start (pg_Code p) (pg_Parameter p));
      (case step_until V stopped (Suc (Suc n)) e1 of None \<Rightarrow> panic | Some r \<Rightarrow> r) }" by (rule run_program_start)
  then have "run_program V p = Some (e2\<lparr>en_state := HALT\<rparr>)"
    using assms(1,4) code_step [OF assms(2,3), of V "Suc n"] last_step [OF assms(5,6), of V n] by simp
  moreover have "pop_bool (e2\<lparr>en_state := HALT\<rparr>) = Some (b, e2\<lparr>en_state := HALT, en_eval := []\<rparr>)"
    using assms(7,8) pop_snoc(1) [of "e2\<lparr>en_state := HALT\<rparr>" "[]" x] by (simp add: pop_bool_def)
  ultimately show ?thesis by (simp add: check_program_def GetExecuteResult_def stack_Count_def assms(7))
qed

text \<open>A parameter that pushes a list of data, and the code run after it.\<close>

lemma check_sig_program:
  assumes "length key = 33" and "ve_maxSteps V = 1200" and "pg_Code p = sig_script key"
    and "run V (start (pg_Code p) (pg_Parameter p)) = Some e1" and "en_state e1 = NONE"
    and "en_inv e1 = [NewExecutionContext (pg_Code p) False]" and "0 \<le> en_opCount e1" and "en_opCount e1 \<le> 1000"
    and "sig_outcome V key (en_eval e1) = Some [Item x]" and "GetBoolean x = Some b"
  shows "check_program V p = Some (if b then None else Some (Detail '''' (ErrNew ''[VM] Check Sig FALSE.'')))"
proof -
  define e where "e = e1\<lparr>en_inv := [], en_context := NewExecutionContext (sig_script key) False\<rparr>"
  obtain e2 where e2: "run V e = Some (e2\<lparr>en_eval := [Item x]\<rparr>)" "en_inv e2 = []" "en_state e2 = NONE"
    using run_sig_script [of e key V] assms(1,2,5,7-9) by (auto simp: e_def)
  show ?thesis
    by (rule check_program_runs [OF assms(4-6), where ?e2.0 = "e2\<lparr>en_eval := [Item x]\<rparr>" and x = x])
       (use e2 assms(3,10) in \<open>simp_all add: e_def\<close>)
qed

lemma start_push:
  assumes "1 \<le> length d" and "length d \<le> 75" and "ve_maxSteps V < 2 ^ 62"
  shows "\<exists>e1. run V (start code (PushData d [])) = Some e1 \<and> en_state e1 = NONE \<and> en_inv e1 = [NewExecutionContext code False] \<and>
    en_opCount e1 = 1 \<and> en_eval e1 = [Item (ByteArray d)]"
proof -
  have "ec_rest (en_context (start code (PushData d []))) = word_of_nat (length d) # d @ []"
    using assms(2) by (simp add: start_def NewExecutionContext_def PushData_def)
  then obtain e1 where e1: "run V (start code (PushData d [])) = run V e1" "pushed (start code (PushData d [])) [ByteArray d] [] e1"
    using run_push_bytes [OF _ assms] by (fastforce simp: start_def NewExecutionEngine_def)
  then have "run V e1 = Some e1" by (simp add: pushed_def)
  then show ?thesis using e1 by (intro exI [of _ e1]) (auto simp: pushed_def start_def NewExecutionEngine_def)
qed

lemma start_empty: "run V (start code []) = Some (start code [])"
  by (simp add: start_def NewExecutionContext_def)

lemma start_simps:
  "en_state (start code p) = NONE" "en_inv (start code p) = [NewExecutionContext code False]" "en_opCount (start code p) = 0"
  "en_eval (start code p) = []"
  by (simp_all add: start_def NewExecutionEngine_def)

lemma check_env_simps [simp]:
  "ve_maxSteps (check_env A inplace sd) = 1200" "ve_message (check_env A inplace sd) = sd_message sd"
  "ve_VerifySignature (check_env A inplace sd) = ECDsa_VerifySignature A"
  by (simp_all add: check_env_def)

lemma ECDsa_True: "ECDsa_VerifySignature A m s k = Some (True, err) \<Longrightarrow> err = None"
  by (auto simp: ECDsa_VerifySignature_def split: bind_splits sum.splits if_splits)

lemma check_programs_True:
  "check_programs ripemd160 V hashes programs = Some (True, err) \<Longrightarrow> length hashes = length programs \<Longrightarrow>
     list_all2 (\<lambda>h p. h = fst (ToCodeHash ripemd160 (pg_Code p)) \<and> check_program V p = Some None) hashes programs"
  by (induction ripemd160 V hashes programs rule: check_programs.induct) (auto split: bind_splits option.splits if_splits)

lemma VerifySignableData_True:
  assumes "VerifySignableData ripemd160 A inplace sd = Some (True, err)" and "p \<in> set (sd_programs sd)"
  shows "check_program (check_env A inplace sd) p = Some None"
proof -
  obtain hashes where "list_all2 (\<lambda>h p. h = fst (ToCodeHash ripemd160 (pg_Code p)) \<and> check_program (check_env A inplace sd) p = Some None)
      hashes (sd_programs sd)"
    using assms(1) check_programs_True by (fastforce simp: VerifySignableData_def split: bind_splits sum.splits if_splits)
  then show ?thesis using assms(2) by (auto simp: list_all2_conv_all_nth in_set_conv_nth)
qed

text \<open>The evaluation stack, bottom first, that the parameter of a program leaves for the code.\<close>

definition parameter_stack :: "vm_env \<Rightarrow> Program \<Rightarrow> elem list option" where
  "parameter_stack V p = map_option en_eval (run V (start (pg_Code p) (pg_Parameter p)))"

text \<open>
  C7. A program that pays to one public key is accepted only if its parameter leaves nothing on the stack, or
  leaves exactly one item there, and this item is a signature of the message under the key.
\<close>

theorem VerifySignableData_signature:
  assumes "VerifySignableData ripemd160 A inplace sd = Some (True, err)" and "p \<in> set (sd_programs sd)"
    and "pg_Code p = 33 # key @ [OP_CHECKSIG]" and "length key = 33"
  shows "parameter_stack (check_env A inplace sd) p = Some [] \<or>
    (\<exists>message x. sd_message sd = Some message \<and> parameter_stack (check_env A inplace sd) p = Some [Item x] \<and>
      ECDsa_VerifySignature A message (GetByteArray x) key = Some (True, None))"
proof (cases "parameter_stack (check_env A inplace sd) p = Some []")
  case False
  define V where "V = check_env A inplace sd"
  have V: "ve_maxSteps V = 1200" "ve_message V = sd_message sd" "ve_VerifySignature V = ECDsa_VerifySignature A" by (simp_all add: V_def)
  have acc: "check_program V p = Some None" unfolding V_def by (rule VerifySignableData_True [OF assms(1,2)])
  obtain e1 e e2 x where r: "run V (start (pg_Code p) (pg_Parameter p)) = Some e1"
      "e = e1\<lparr>en_inv := [], en_context := NewExecutionContext (pg_Code p) False\<rparr>" "en_state e = NONE" "0 \<le> en_opCount e"
      "run V e = Some e2" "en_state e2 = NONE" "en_eval e2 = [Item x]" "GetBoolean x = Some True"
    using check_program_accepts [OF acc] straight_sig [OF assms(4) V(1)] assms(3) by metis
  have stack: "parameter_stack V p = Some (en_eval e)" using r(1,2) by (simp add: parameter_stack_def)
  have some: "en_eval e \<noteq> []" using False stack by (auto simp: V_def)
  have "sig_outcome V key (en_eval e) = Some [Item x]"
  proof -
    have "en_context e = NewExecutionContext (sig_script key) False" using r(2) assms(3) by simp
    then obtain e3 where "run V e = (if en_opCount e + 2 > 1200 then Some (e3\<lparr>en_state := FAULT\<rparr>)
        else map_option (\<lambda>st. e3\<lparr>en_eval := st\<rparr>) (sig_outcome V key (en_eval e)))"
      using run_sig_script [OF _ assms(4) V(1) r(4,3)] by blast
    then show ?thesis using r(5-7) by (cases "sig_outcome V key (en_eval e)") (auto split: if_split_asm)
  qed
  then obtain i message ver ev where o: "last (en_eval e) = Item i" "sd_message sd = Some message"
      "ECDsa_VerifySignature A message (GetByteArray i) key = Some (ver, ev)" "x = Boolean ver" "butlast (en_eval e) = []"
    using some by (auto simp: sig_outcome_def V split: elem.splits bind_splits)
  have "en_eval e = [Item i]" using o(1,5) append_butlast_last_id [OF some] by simp
  then show ?thesis using r(8) o(2-4) ECDsa_True [of A message "GetByteArray i" key ev] stack by (cases ver) (auto simp: V_def)
qed simp

text \<open>
  C8. No signature is needed: with an empty parameter, \<^verbatim>\<open>CHECKSIG\<close> finds one item on the stack, its fault is not
  passed on by \<^verbatim>\<open>ExecuteOp\<close>, and the public key that is left counts as true.
\<close>

theorem VerifySignableData_no_signature:
  assumes "sd_hashes sd = Some (Inr [fst (ToCodeHash ripemd160 (33 # key @ [OP_CHECKSIG]))])" and "length key = 33" and "\<exists>b\<in>set key. b \<noteq> 0"
    and "sd_programs sd = [\<lparr>pg_Code = 33 # key @ [OP_CHECKSIG], pg_Parameter = []\<rparr>]"
  shows "VerifySignableData ripemd160 A inplace sd = Some (True, None)"
proof -
  define p where "p = \<lparr>pg_Code = sig_script key, pg_Parameter = []\<rparr>"
  have "check_program (check_env A inplace sd) p = Some (if True then None else Some (Detail '''' (ErrNew ''[VM] Check Sig FALSE.'')))"
    by (rule check_sig_program [of key, OF assms(2), where ?e1.0 = "start (sig_script key) []" and x = "ByteArray key"])
       (use assms(3) start_empty in \<open>simp_all add: p_def start_simps sig_outcome_def list_ex_iff\<close>)
  then show ?thesis using assms(1,4) by (simp add: VerifySignableData_def p_def)
qed

lemma signed_accepted:
  assumes "key_pair A pt priKey X Y" and "DecodePoint (al_primes A) (al_params A) key = Some (Inr \<lparr>pk_X = Some X, pk_Y = Some Y\<rparr>)"
    and "length key = 33" and "sd_message sd = Some message" and "crypto_Sign A priKey message = Some (Some (Inr sig))"
    and "h = fst (ToCodeHash ripemd160 (33 # key @ [OP_CHECKSIG]))" and "sd_hashes sd = Some (Inr [h])"
    and "AddContract \<lparr>ct_Code = 33 # key @ [OP_CHECKSIG], ct_Parameters = [ParamSignature], ct_ProgramHash = h, ct_OwnerPubkeyHash = owner\<rparr>
           sig (NewContractContext [h]) = Some (None, cxt)"
    and "GetPrograms cxt = Some (sd_programs sd)"
  shows "VerifySignableData ripemd160 A inplace sd = Some (True, None)"
proof -
  define V where "V = check_env A inplace sd"
  define p where "p = \<lparr>pg_Code = sig_script key, pg_Parameter = PushData sig []\<rparr>"
  have ver: "length sig = 64" "crypto_Verify A \<lparr>pk_X = Some X, pk_Y = Some Y\<rparr> message sig = Some None"
    using crypto_sign_verifies [OF assms(1,5)] by simp_all
  then have ok: "ECDsa_VerifySignature A message sig key = Some (True, None)" using assms(2) by (simp add: ECDsa_VerifySignature_def)
  have "Contract_GetType (sig_script key) = Some SignatureContract" using assms(3) by (simp add: Contract_GetType_def IsStandard_def nth_append)
  then have "cxt = \<lparr>cc_ProgramHashes = [h], cc_Codes = [Some (sig_script key)], cc_Parameters = [Some [Some sig]], cc_tempParaIndex = 0\<rparr>"
    using assms(8) by (auto simp: AddContract_def ContractContext_Add_def NewContractContext_def GetIndex_def)
  then have progs: "sd_programs sd = [p]" using assms(9) ver(1)
    by (auto simp: GetPrograms_def GetUncompletedPrograms_def IsCompleted_def build_program_def push_parameter_def p_def split: if_splits)
  obtain e1 where e1: "run V (start (sig_script key) (PushData sig [])) = Some e1" "en_state e1 = NONE"
      "en_inv e1 = [NewExecutionContext (sig_script key) False]" "en_opCount e1 = 1" "en_eval e1 = [Item (ByteArray sig)]"
    using start_push [of sig V "sig_script key"] ver(1) by (auto simp: V_def)
  have "sig_outcome V key (en_eval e1) = Some [Item (Boolean True)]" using ok assms(4) e1(5) by (simp add: sig_outcome_def V_def)
  then have "check_program V p = Some None"
    using check_sig_program [OF assms(3), of V p e1 "Boolean True" True] e1 by (simp add: p_def V_def)
  then show ?thesis using assms(6,7) progs by (simp add: VerifySignableData_def V_def p_def)
qed

text \<open>
  C9. The whole way of a signature: a private key signs the message, the signature is added to a context for the
  one program hash of the data, and the program that the context builds is accepted by the check.
\<close>

theorem signed_data_accepted:
  assumes "key_pair A pt priKey X Y" and "DecodePoint (al_primes A) (al_params A) key = Some (Inr \<lparr>pk_X = Some X, pk_Y = Some Y\<rparr>)"
    and "length key = 33" and "sd_message sd = Some message" and "crypto_Sign A priKey message = Some (Some (Inr sig))"
    and "h = fst (ToCodeHash ripemd160 (33 # key @ [OP_CHECKSIG]))" and "sd_hashes sd = Some (Inr [h])"
    and "AddContract \<lparr>ct_Code = 33 # key @ [OP_CHECKSIG], ct_Parameters = [ParamSignature], ct_ProgramHash = h, ct_OwnerPubkeyHash = owner\<rparr>
           sig (NewContractContext [h]) = Some (None, cxt)"
    and "GetPrograms cxt = Some (sd_programs sd)"
  shows "VerifySignableData ripemd160 A inplace sd = Some (True, None)"
  using signed_accepted [OF assms] .

section \<open>An example\<close>

text \<open>
  A key on the small curve with an algorithm that accepts one signature only, and data signed with it.
\<close>

definition sample_key_bytes :: "byte list" where
  "sample_key_bytes = 2 # replicate 32 0"

definition one_sig_alg :: CryptoAlg where
  "one_sig_alg = sample_alg\<lparr>al_SM2 := False, al_params := sample_curve, al_ecdsaSign := (\<lambda>D h. Inr (1, 1)),
     al_ecdsaVerify := (\<lambda>X Y h r s. r = 1 \<and> s = 1)\<rparr>"

definition sample_sig :: "byte list" where
  "sample_sig = the (sig_bytes 1 1)"

definition zero_ripemd :: "byte list \<Rightarrow> byte list" where
  "zero_ripemd bs = replicate 20 0"

definition sample_code_hash :: Uint160 where
  "sample_code_hash = fst (ToCodeHash zero_ripemd (33 # sample_key_bytes @ [OP_CHECKSIG]))"

definition sample_signed :: "byte list \<Rightarrow> SignableData" where
  "sample_signed parameter =
     \<lparr>sd_hashes = Some (Inr [sample_code_hash]),
      sd_programs = [\<lparr>pg_Code = 33 # sample_key_bytes @ [OP_CHECKSIG], pg_Parameter = parameter\<rparr>],
      sd_message = Some [1, 2, 3]\<rparr>"

lemma sample_parts:
  "length sample_key_bytes = 33"
  "DecodePoint (al_primes one_sig_alg) (al_params one_sig_alg) sample_key_bytes = Some (Inr \<lparr>pk_X = Some 0, pk_Y = Some (2 ^ 255 + 94)\<rparr>)"
  "key_pair one_sig_alg (\<lambda>a. (0, 0)) [7] 0 (2 ^ 255 + 94)"
  "sig_bytes 1 1 = Some sample_sig" "length sample_sig = 64"
  "crypto_Sign one_sig_alg [7] [1, 2, 3] = Some (Some (Inr sample_sig))"
proof -
  show "length sample_key_bytes = 33" by (simp add: sample_key_bytes_def)
  show "DecodePoint (al_primes one_sig_alg) (al_params one_sig_alg) sample_key_bytes = Some (Inr \<lparr>pk_X = Some 0, pk_Y = Some (2 ^ 255 + 94)\<rparr>)"
    using sample_curve_ok(3) by (simp add: one_sig_alg_def sample_key_bytes_def)
  show "key_pair one_sig_alg (\<lambda>a. (0, 0)) [7] 0 (2 ^ 255 + 94)" by (simp add: key_pair_def ecdsa_laws_def one_sig_alg_def)
  show b: "sig_bytes 1 1 = Some sample_sig" "length sample_sig = 64" using sig_bytes_rt [of 1 1] by (auto simp: sample_sig_def)
  show "crypto_Sign one_sig_alg [7] [1, 2, 3] = Some (Some (Inr sample_sig))"
    using b(1) by (simp add: crypto_Sign_def one_sig_alg_def p256r1_Sign_def)
qed

lemma sample_sig_context:
  "\<exists>cxt. AddContract \<lparr>ct_Code = 33 # sample_key_bytes @ [OP_CHECKSIG], ct_Parameters = [ParamSignature], ct_ProgramHash = sample_code_hash,
     ct_OwnerPubkeyHash = 0\<rparr> sample_sig (NewContractContext [sample_code_hash]) = Some (None, cxt) \<and>
     GetPrograms cxt = Some (sd_programs (sample_signed (PushData sample_sig [])))"
  using sample_parts(1,5)
  by (simp add: AddContract_def ContractContext_Add_def NewContractContext_def GetIndex_def Contract_GetType_def IsStandard_def nth_append
      GetPrograms_def GetUncompletedPrograms_def IsCompleted_def build_program_def push_parameter_def sample_signed_def)

lemma sample_sig_accepted: "VerifySignableData zero_ripemd one_sig_alg inplace (sample_signed (PushData sample_sig [])) = Some (True, None)"
proof -
  obtain cxt where "AddContract \<lparr>ct_Code = 33 # sample_key_bytes @ [OP_CHECKSIG], ct_Parameters = [ParamSignature],
      ct_ProgramHash = sample_code_hash, ct_OwnerPubkeyHash = 0\<rparr> sample_sig (NewContractContext [sample_code_hash]) = Some (None, cxt)"
      "GetPrograms cxt = Some (sd_programs (sample_signed (PushData sample_sig [])))" using sample_sig_context by blast
  then show ?thesis
    by (intro signed_accepted [OF sample_parts(3,2,1) _ sample_parts(6), where h = sample_code_hash and cxt = cxt and owner = 0])
       (simp_all add: sample_signed_def sample_code_hash_def)
qed

theorem signed_data_accepted_witness:
  "VerifySignableData zero_ripemd one_sig_alg (\<lambda>op st alt. None) (sample_signed (PushData sample_sig [])) = Some (True, None)"
proof -
  obtain cxt where "AddContract \<lparr>ct_Code = 33 # sample_key_bytes @ [OP_CHECKSIG], ct_Parameters = [ParamSignature],
      ct_ProgramHash = sample_code_hash, ct_OwnerPubkeyHash = 0\<rparr> sample_sig (NewContractContext [sample_code_hash]) = Some (None, cxt)"
      "GetPrograms cxt = Some (sd_programs (sample_signed (PushData sample_sig [])))" using sample_sig_context by blast
  then show ?thesis
    by (intro signed_data_accepted [OF sample_parts(3,2,1) _ sample_parts(6), where h = sample_code_hash and cxt = cxt and owner = 0])
       (simp_all add: sample_signed_def sample_code_hash_def)
qed

theorem VerifySignableData_no_signature_witness:
  "VerifySignableData zero_ripemd one_sig_alg (\<lambda>op st alt. None) (sample_signed []) = Some (True, None)"
  by (rule VerifySignableData_no_signature [of _ _ sample_key_bytes])
     (simp_all add: sample_signed_def sample_code_hash_def sample_parts(1), simp add: sample_key_bytes_def)

theorem VerifySignableData_signature_witness:
  "VerifySignableData zero_ripemd one_sig_alg (\<lambda>op st alt. None) (sample_signed (PushData sample_sig [])) = Some (True, None) \<and>
   ECDsa_VerifySignature one_sig_alg [1, 2, 3] sample_sig sample_key_bytes = Some (True, None)"
proof
  show acc: "VerifySignableData zero_ripemd one_sig_alg (\<lambda>op st alt. None) (sample_signed (PushData sample_sig [])) = Some (True, None)"
    by (rule sample_sig_accepted)
  define V where "V = check_env one_sig_alg (\<lambda>op st alt. None) (sample_signed (PushData sample_sig []))"
  define p where "p = \<lparr>pg_Code = 33 # sample_key_bytes @ [OP_CHECKSIG], pg_Parameter = PushData sample_sig []\<rparr>"
  obtain e1 where "run V (start (pg_Code p) (PushData sample_sig [])) = Some e1" "en_eval e1 = [Item (ByteArray sample_sig)]"
    using start_push [of sample_sig V "pg_Code p"] sample_parts(5) by (auto simp: V_def)
  then have "parameter_stack V p = Some [Item (ByteArray sample_sig)]" by (simp add: parameter_stack_def p_def)
  then show "ECDsa_VerifySignature one_sig_alg [1, 2, 3] sample_sig sample_key_bytes = Some (True, None)"
    using VerifySignableData_signature [OF acc, of p sample_key_bytes] sample_parts(1)
    unfolding V_def [symmetric] by (simp add: sample_signed_def p_def)
qed

end
