(* ===== verification/Multi_Check.thy ===== *)
theory Multi_Check
  imports Signature_Check "HOL-Library.Multiset"
begin

text \<open>
  Programs that ask for several signatures: what acceptance of the script built by
  \<^verbatim>\<open>CreateMultiSigRedeemScript\<close> means, whatever the parameter is, and that contracts are recognised.
\<close>

section \<open>The script\<close>

lemma Push_append: "PushData d sb = sb @ PushData d []" "PushNumber i sb = sb @ PushNumber i []"
  by (auto simp: PushData_def PushNumber_def AddOp_def)

definition multi_script :: "nat \<Rightarrow> byte list list \<Rightarrow> byte list" where
  "multi_script m keys =
     PushNumber (int m) [] @ concat (map (\<lambda>k. 33 # k) keys) @ PushNumber (int (length keys)) [] @ [OP_CHECKMULTISIG]"

definition point_keys :: "PubKey list \<Rightarrow> byte list list" where
  "point_keys pubkeys = map (\<lambda>p. the (EncodePoint p True)) pubkeys"

lemma length_point_keys: "length (point_keys ps) = length ps"
  by (simp add: point_keys_def)

definition keys_ok :: "PubKey list \<Rightarrow> bool" where
  "keys_ok pubkeys \<longleftrightarrow> (\<forall>p\<in>set pubkeys. pk_X p \<noteq> None \<and> (\<exists>k. EncodePoint p True = Some k \<and> length k = 33))"

lemma push_keys_eq: "keys_ok ps \<Longrightarrow> push_keys ps sb = Some (sb @ concat (map (\<lambda>k. 33 # k) (point_keys ps)))"
proof (induction ps arbitrary: sb)
  case (Cons p ps)
  then obtain k where k: "EncodePoint p True = Some k" "length k = 33" by (auto simp: keys_ok_def)
  then have "PushData k sb = sb @ 33 # k" by (subst Push_append) (simp add: PushData_def)
  then show ?case using Cons k by (simp add: point_keys_def keys_ok_def)
qed (simp add: point_keys_def)

lemma CreateMultiSigRedeemScript_eq:
  assumes "keys_ok pubkeys" and "1 \<le> m" and "m \<le> length pubkeys" and "length pubkeys \<le> 24"
  obtains ps where "CreateMultiSigRedeemScript (int m) pubkeys = Some (Some (multi_script m (point_keys ps)))"
    and "mset ps = mset pubkeys" and "keys_ok ps" and "length ps = length pubkeys"
proof -
  obtain ps where ps: "sort_keys pubkeys = Some ps" "mset ps = mset pubkeys"
  proof -
    have "\<not> list_ex (\<lambda>p. pk_X p = None) pubkeys" using assms(1) by (auto simp: keys_ok_def list_ex_iff)
    then show ?thesis using that by (cases "length pubkeys \<le> 1") (auto simp: sort_keys_def)
  qed
  have "set ps = set pubkeys" using ps(2) by (rule mset_eq_setD)
  then have ok: "keys_ok ps" using assms(1) by (simp add: keys_ok_def)
  have len: "length ps = length pubkeys" using ps(2) by (rule mset_eq_length)
  have "CreateMultiSigRedeemScript (int m) pubkeys = Some (Some (multi_script m (point_keys ps)))"
    using assms(2-4) ps(1) push_keys_eq [OF ok] len
    by (simp add: CreateMultiSigRedeemScript_def multi_script_def AddOp_def length_point_keys
        Push_append(2) [of _ "PushNumber (int m) [] @ concat (map ((#) 33) (point_keys ps))"])
  then show ?thesis using that ps(2) ok len by blast
qed

section \<open>Matching signatures with keys\<close>

definition signed_by :: "vm_env \<Rightarrow> byte list \<Rightarrow> byte list \<Rightarrow> bool" where
  "signed_by V s k \<longleftrightarrow> (\<exists>message err. ve_message V = Some message \<and> ve_VerifySignature V message s k = Some (True, err))"

lemma take_key_Some: "take_key V s ps = Some (Some ps') \<Longrightarrow> \<exists>k. mset ps = add_mset k (mset ps') \<and> signed_by V s k"
proof (induction V s ps arbitrary: ps' rule: take_key.induct)
  case (2 V s p ps)
  then obtain message ok err where x: "ve_message V = Some message" "ve_VerifySignature V message s p = Some (ok, err)"
    by (auto split: bind_splits)
  show ?case
  proof (cases ok)
    case True
    then show ?thesis using 2(2) x by (auto simp: signed_by_def)
  next
    case False
    then obtain qs where "take_key V s ps = Some (Some qs)" "ps' = p # qs" using 2(2) x by (auto split: bind_splits)
    then show ?thesis using 2(1) x False by fastforce
  qed
qed simp

lemma match_signatures_True:
  "match_signatures V ss ps c = Some (True, c') \<Longrightarrow>
     \<exists>ks. mset ks \<subseteq># mset ps \<and> list_all2 (signed_by V) ss ks \<and> c' = c + length ss"
proof (induction V ss ps c rule: match_signatures.induct)
  case (2 V s ss ps c)
  then obtain ps' where t: "take_key V s ps = Some (Some ps')" by (auto split: bind_splits option.splits)
  then obtain ks where ks: "mset ks \<subseteq># mset ps'" "list_all2 (signed_by V) ss ks" "c' = Suc c + length ss"
    using 2 by fastforce
  obtain k where "mset ps = add_mset k (mset ps')" "signed_by V s k" using take_key_Some [OF t] by blast
  then show ?case using ks by (intro exI [of _ "k # ks"]) simp
qed simp

section \<open>Running the script\<close>

lemma pop_int64_snoc:
  assumes "en_eval e = st @ [Item x]" and "GetBigInteger x = Some (int n)" and "n \<le> 1000"
  shows "pop_int64 e = Some (int n, e\<lparr>en_eval := st\<rparr>)"
  using assms int64_small [of "int n"] by (simp add: pop_int64_def pop_int_def)

lemma pop_many_keys:
  "en_eval e = st @ map (Item \<circ> ByteArray) keys \<Longrightarrow> pop_many (length keys) e = Some (rev keys, e\<lparr>en_eval := st\<rparr>)"
proof (induction keys arbitrary: e rule: rev_induct)
  case (snoc k keys)
  then have "pop_bytes e = Some (k, e\<lparr>en_eval := st @ map (Item \<circ> ByteArray) keys\<rparr>)"
    using pop_snoc(2) [of e "st @ map (Item \<circ> ByteArray) keys" "ByteArray k"] by simp
  then show ?case using snoc.IH [of "e\<lparr>en_eval := st @ map (Item \<circ> ByteArray) keys\<rparr>"] by simp
qed (cases e; simp)

lemma pop_many_Some: "pop_many n e = Some (bs, e') \<Longrightarrow>
    \<exists>st xs. e' = e\<lparr>en_eval := st\<rparr> \<and> en_eval e = st @ map Item xs \<and> bs = map GetByteArray (rev xs) \<and> length xs = n"
proof (induction n arbitrary: e bs)
  case 0
  then show ?case by (intro exI [of _ "en_eval e"]) auto
next
  case (Suc n)
  then obtain b e1 bs' where x: "pop_bytes e = Some (b, e1)" "pop_many n e1 = Some (bs', e')" "bs = b # bs'"
    by (auto split: bind_splits)
  obtain st i where i: "en_eval e = st @ [Item i]" "e1 = e\<lparr>en_eval := st\<rparr>" "b = GetByteArray i"
    using x(1) pop_itemD [of e] by (fastforce simp: pop_bytes_def split: bind_splits)
  obtain st' xs where "e' = e1\<lparr>en_eval := st'\<rparr>" "en_eval e1 = st' @ map Item xs" "bs' = map GetByteArray (rev xs)" "length xs = n"
    using Suc.IH [OF x(2)] by blast
  then show ?case using i x(3) by (intro exI [of _ st'] exI [of _ "xs @ [i]"]) simp
qed

lemma opCheckMultiSig_done:
  assumes "opCheckMultiSig V e = Some (s, None, e')" and "en_eval e = st @ Item xm # map (Item \<circ> ByteArray) keys @ [Item xn]"
    and "GetBigInteger xm = Some (int m)" and "GetBigInteger xn = Some (int (length keys))" and "m \<le> length keys" and "length keys \<le> 24"
  shows "\<exists>xs b c st' oc. st = st' @ map Item xs \<and> length xs = m \<and>
    match_signatures V (map GetByteArray (rev xs)) (rev keys) 0 = Some (b, c) \<and>
    e' = e\<lparr>en_opCount := oc, en_eval := st' @ [Item (Boolean (b \<and> c = m))]\<rparr>"
proof -
  define n where "n = length keys"
  define e1 where "e1 = e\<lparr>en_eval := st @ Item xm # map (Item \<circ> ByteArray) keys\<rparr>"
  have p1: "pop_int64 e = Some (int n, e1)"
    using pop_int64_snoc [of e "st @ Item xm # map (Item \<circ> ByteArray) keys" xn n] assms by (simp add: n_def e1_def)
  define oc where "oc = sint (word_of_int (en_opCount e1) + word_of_nat n :: i64)"
  define e2 where "e2 = e1\<lparr>en_opCount := oc\<rparr>"
  have p2: "pop_many n e2 = Some (rev keys, e2\<lparr>en_eval := st @ [Item xm]\<rparr>)"
    using pop_many_keys [of e2 "st @ [Item xm]" keys] by (simp add: n_def e1_def e2_def)
  define e3 where "e3 = e2\<lparr>en_eval := st\<rparr>"
  have p3: "pop_int64 (e2\<lparr>en_eval := st @ [Item xm]\<rparr>) = Some (int m, e3)"
    using pop_int64_snoc [of "e2\<lparr>en_eval := st @ [Item xm]\<rparr>" st xm m] assms by (simp add: e3_def)
  obtain sigs e4 b c where r: "pop_many m e3 = Some (sigs, e4)" "match_signatures V sigs (rev keys) 0 = Some (b, c)"
      "e' = push_elem (Item (Boolean (b \<and> int c = int m))) e4"
    using assms(1) p1 p2 p3 by (auto simp: opCheckMultiSig_def Let_def simp flip: oc_def e2_def split: if_splits bind_splits)
  obtain st' xs where "e4 = e3\<lparr>en_eval := st'\<rparr>" "en_eval e3 = st' @ map Item xs" "sigs = map GetByteArray (rev xs)" "length xs = m"
    using pop_many_Some [OF r(1)] by blast
  then show ?thesis using r(2,3)
    by (intro exI [of _ xs] exI [of _ b] exI [of _ c] exI [of _ st'] exI [of _ oc])
       (simp add: push_elem_def stack_Push_def e3_def e2_def e1_def)
qed

lemma run_multi_script:
  assumes "en_context e = NewExecutionContext (multi_script m keys) False" and "list_all (\<lambda>k. length k = 33) keys"
    and "ve_maxSteps V = 1200" and "0 \<le> en_opCount e" and "en_state e = NONE" and "1 \<le> m" and "m \<le> length keys" and "length keys \<le> 24"
    and "run V e = Some e2"
  shows "en_state e2 = FAULT \<or>
    en_state e2 = NONE \<and> en_inv e2 = en_inv e \<and>
    (\<exists>xs b c st. en_eval e = st @ map Item xs \<and> length xs = m \<and>
       match_signatures V (map GetByteArray (rev xs)) (rev keys) 0 = Some (b, c) \<and> en_eval e2 = st @ [Item (Boolean (b \<and> c = m))])"
proof -
  have lim: "ve_maxSteps V < 2 ^ 62" by (simp add: assms(3))
  obtain e3 xm where e3: "run V e = run V e3" "GetBigInteger xm = Some (int m)"
      "pushed e [xm] (concat (map (\<lambda>k. 33 # k) keys) @ PushNumber (int (length keys)) [] @ [OP_CHECKMULTISIG]) e3"
    using run_push_number [OF _ assms(6) _ lim assms(4)] assms(1,7,8) by (fastforce simp: NewExecutionContext_def multi_script_def)
  obtain e4 where e4: "run V e3 = run V e4" "pushed e3 (map ByteArray keys) (PushNumber (int (length keys)) [] @ [OP_CHECKMULTISIG]) e4"
    using run_push_keys [of e3 keys "PushNumber (int (length keys)) [] @ [OP_CHECKMULTISIG]", OF _ assms(2) lim] e3(3) assms(4)
    by (auto simp: pushed_def)
  obtain e5 xn where e5: "run V e4 = run V e5" "GetBigInteger xn = Some (int (length keys))" "pushed e4 [xn] [OP_CHECKMULTISIG] e5"
    using run_push_number [of e4 "length keys" "[OP_CHECKMULTISIG]" V] e4(2) e3(3) assms(4,6-8) lim by (auto simp: pushed_def)
  define e6 where "e6 = e5\<lparr>en_context := (en_context e5)\<lparr>ec_rest := []\<rparr>, en_opCount := en_opCount e5 + 1\<rparr>"
  have c: "ec_rest (en_context e5) = OP_CHECKMULTISIG # []" "0 \<le> en_opCount e5" "\<not> ec_PushOnly (en_context e6)"
      "ec_rest (en_context e6) = []" "en_inv e6 = en_inv e" "en_state e6 = NONE"
      "en_eval (e6\<lparr>en_opCode := OP_CHECKMULTISIG\<rparr>) = en_eval e @ Item xm # map (Item \<circ> ByteArray) keys @ [Item xn]"
    using e3(3) e4(2) e5(3) assms(1,4,5) by (auto simp: pushed_def e6_def NewExecutionContext_def)
  have op: "OpExecList V OP_CHECKMULTISIG = Some (opCheckMultiSig V)" by (simp add: OpExecList_def op_table_def)
  obtain s err e7 where x: "ExecuteOp V OP_CHECKMULTISIG e6 = Some (s, err, e7)"
      "(if s = HALT then Some (e7\<lparr>en_state := en_state e7 OR HALT\<rparr>)
        else if s = FAULT then Some (e7\<lparr>en_state := en_state e7 OR FAULT\<rparr>) else run V e7) = Some e2"
    using run_op [OF c(1) e6_def lim c(2)] assms(9) e3(1) e4(1) e5(1) by (auto split: bind_splits)
  have st: "en_state e7 = NONE" using ExecuteOp_state [OF x(1)] c(6) by simp
  show ?thesis
  proof (cases "s = FAULT")
    case False
    then obtain s' where "opCheckMultiSig V (e6\<lparr>en_opCode := OP_CHECKMULTISIG\<rparr>) = Some (s', None, e7)" "s = NONE"
      using x(1) c(3) op opCheckMultiSig_error [of V] False by (auto simp: ExecuteOp_def Let_def assms(3) split: if_splits bind_splits)
    then show ?thesis using opCheckMultiSig_done [OF _ c(7) e3(2) e5(2) assms(7,8)] x(2) st c(4,5) by fastforce
  qed (use x(2) st in auto)
qed

lemma straight_multi:
  assumes "list_all (\<lambda>k. length k = 33) keys" and "ve_maxSteps V = 1200" and "1 \<le> m" and "m \<le> length keys" and "length keys \<le> 24"
  shows "straight V (multi_script m keys)"
  unfolding straight_def using run_multi_script [OF _ assms(1,2) _ _ assms(3-5)] by fastforce

lemma length_keys: "keys_ok ps \<Longrightarrow> list_all (\<lambda>k. length k = 33) (point_keys ps)"
  by (auto simp: point_keys_def keys_ok_def list_all_iff)

text \<open>
  C6. A program that asks for \<open>m\<close> signatures of the given public keys is accepted only if its parameter leaves
  exactly \<open>m\<close> items on the stack, and these are signatures of the message, each under another one of the keys
  (a key that is listed twice counts twice).
\<close>

theorem VerifySignableData_multisig:
  assumes "VerifySignableData ripemd160 A inplace sd = Some (True, err)" and "p \<in> set (sd_programs sd)"
    and "CreateMultiSigRedeemScript (int m) pubkeys = Some (Some (pg_Code p))" and "keys_ok pubkeys"
  shows "\<exists>message xs ks. sd_message sd = Some message \<and> parameter_stack (check_env A inplace sd) p = Some (map Item xs) \<and> length xs = m \<and>
    mset ks \<subseteq># mset (point_keys pubkeys) \<and>
    list_all2 (\<lambda>x k. ECDsa_VerifySignature A message (GetByteArray x) k = Some (True, None)) xs ks"
proof -
  define V where "V = check_env A inplace sd"
  have V: "ve_maxSteps V = 1200" "ve_message V = sd_message sd" "ve_VerifySignature V = ECDsa_VerifySignature A" by (simp_all add: V_def)
  have rng: "1 \<le> m" "m \<le> length pubkeys" "length pubkeys \<le> 24" using assms(3) by (auto simp: CreateMultiSigRedeemScript_def split: if_splits)
  obtain ps where ps: "pg_Code p = multi_script m (point_keys ps)" "mset ps = mset pubkeys" "keys_ok ps" "length ps = length pubkeys"
    using CreateMultiSigRedeemScript_eq [OF assms(4) rng] assms(3) by (metis option.inject)
  note keys = length_keys [OF ps(3)]
  have rng': "m \<le> length (point_keys ps)" "length (point_keys ps) \<le> 24" using rng ps(4) by (simp_all add: length_point_keys)
  have acc: "check_program V p = Some None" unfolding V_def by (rule VerifySignableData_True [OF assms(1,2)])
  obtain e1 e e2 x where r: "e = e1\<lparr>en_inv := [], en_context := NewExecutionContext (pg_Code p) False\<rparr>" "en_state e = NONE" "0 \<le> en_opCount e"
      "run V e = Some e2" "en_state e2 = NONE" "en_eval e2 = [Item x]" "GetBoolean x = Some True"
      "run V (start (pg_Code p) (pg_Parameter p)) = Some e1"
    using check_program_accepts [OF acc] straight_multi [OF keys V(1) rng(1) rng'] ps(1) by metis
  have ctx: "en_context e = NewExecutionContext (multi_script m (point_keys ps)) False" using r(1) ps(1) by simp
  obtain xs b c st where s: "en_eval e = st @ map Item xs" "length xs = m"
      "match_signatures V (map GetByteArray (rev xs)) (rev (point_keys ps)) 0 = Some (b, c)"
      "en_eval e2 = st @ [Item (Boolean (b \<and> c = m))]"
    using run_multi_script [OF ctx keys V(1) r(3,2) rng(1) rng' r(4)] r(5) by auto
  then have "b" "st = []" using r(6,7) by auto
  then have stack: "parameter_stack V p = Some (map Item xs)" using s(1) r(1,8) by (simp add: parameter_stack_def)
  obtain ks where ks: "mset ks \<subseteq># mset (point_keys ps)" "list_all2 (signed_by V) (map GetByteArray (rev xs)) ks"
    using match_signatures_True [of V _ "rev (point_keys ps)" 0 c] s(3) \<open>b\<close> by auto
  have "mset (point_keys ps) = mset (point_keys pubkeys)" using ps(2) by (simp add: point_keys_def mset_map)
  moreover obtain message where msg: "sd_message sd = Some message"
    using ks(2) s(2) rng(1) V(2) by (cases "rev xs"; cases ks) (auto simp: signed_by_def)
  moreover have "ECDsa_VerifySignature A message s k = Some (True, None)" if "signed_by V s k" for s k
    using ECDsa_True [of A message s k] that by (auto simp: signed_by_def V msg)
  then have "list_all2 (\<lambda>x k. ECDsa_VerifySignature A message (GetByteArray x) k = Some (True, None)) (rev xs) ks"
    by (rule list_all2_mono [OF ks(2)[unfolded list_all2_map1]])
  then have "list_all2 (\<lambda>x k. ECDsa_VerifySignature A message (GetByteArray x) k = Some (True, None)) xs (rev ks)"
    using list_all2_rev [of _ "rev xs" ks] by simp
  ultimately show ?thesis using ks(1) s(2) stack unfolding V_def
    by (intro exI [of _ message] exI [of _ xs] exI [of _ "rev ks"]) simp
qed

section \<open>Recognition\<close>

lemma key_number_Push:
  "1 \<le> m \<Longrightarrow> m \<le> 75 \<Longrightarrow> key_number (PushNumber (int m) [] @ rest) = Some (int m, rest)"
proof (cases "m \<le> 16")
  case True
  assume "1 \<le> m"
  then have "m \<in> {1, 2, 3, 4, 5, 6, 7, 8, 9, 10, 11, 12, 13, 14, 15, 16}" using True by simp presburger
  moreover have "PushNumber (int m) [] = [0x50 + word_of_nat m]" using True \<open>1 \<le> m\<close> by (simp add: PushNumber_def AddOp_def big_Bytes_one)
  ultimately show ?thesis by (auto simp: key_number_def)
next
  case False
  assume m: "m \<le> 75"
  then have "PushNumber (int m) [] = [1, word_of_nat m]"
    using False by (simp add: PushNumber_def PushData_def big_Bytes_one)
  then show ?thesis using m False small_op(3) [of m] by (simp add: key_number_def)
qed

lemma count_keys_concat:
  assumes "list_all (\<lambda>k. length k = 33) keys" and "rest \<noteq> []" and "hd rest \<noteq> 33"
  shows "count_keys (concat (map (\<lambda>k. 33 # k) keys) @ rest) n = Some (Some (n + word_of_nat (length keys), rest))"
  using assms(1)
proof (induction keys arbitrary: n)
  case Nil
  then show ?case using assms(2,3) by (subst count_keys.simps) simp
next
  case (Cons k keys)
  then show ?case using assms(2) by (subst count_keys.simps) (simp add: Let_def add.assoc)
qed

lemma hd_Push:
  assumes "1 \<le> m" and "m \<le> 75"
  shows "PushNumber (int m) [] \<noteq> []" "hd (PushNumber (int m) []) = 1 \<or> 0x51 \<le> hd (PushNumber (int m) []) \<and> hd (PushNumber (int m) []) \<le> 0x60"
proof -
  have "PushNumber (int m) [] = (if m \<le> 16 then [0x50 + word_of_nat m] else [1, word_of_nat m])"
    using assms by (simp add: PushNumber_def PushData_def AddOp_def big_Bytes_one)
  moreover have "0x51 \<le> (0x50 + word_of_nat m :: byte) \<and> (0x50 + word_of_nat m :: byte) \<le> 0x60" if "m \<le> 16"
  proof -
    have "m \<in> {1, 2, 3, 4, 5, 6, 7, 8, 9, 10, 11, 12, 13, 14, 15, 16}" using that assms(1) by simp presburger
    then show ?thesis by auto
  qed
  ultimately show "PushNumber (int m) [] \<noteq> []" "hd (PushNumber (int m) []) = 1 \<or> 0x51 \<le> hd (PushNumber (int m) []) \<and> hd (PushNumber (int m) []) \<le> 0x60"
    by auto
qed

lemma multi_script_type:
  assumes "list_all (\<lambda>k. length k = 33) keys" and "1 \<le> m" and "m \<le> length keys" and "length keys \<le> 24"
  shows "Contract_GetType (multi_script m keys) = Some MultiSigContract"
proof -
  define n where "n = length keys"
  define pm pn where "pm = PushNumber (int m) []" and "pn = PushNumber (int n) []"
  have n: "1 \<le> n" "n \<le> 75" "m \<le> 75" using assms(2-4) by (simp_all add: n_def)
  have pm: "pm \<noteq> []" "hd pm = 1 \<or> 0x51 \<le> hd pm \<and> hd pm \<le> 0x60" using hd_Push [OF assms(2) n(3)] by (simp_all add: pm_def)
  have pn: "pn \<noteq> []" "hd pn \<noteq> 33" using hd_Push [OF n(1,2)] by (auto simp: pn_def word_le_nat_alt)
  have "length (concat (map (\<lambda>k. 33 # k) keys)) = 34 * n"
    using assms(1) unfolding n_def by (induction keys) simp_all
  moreover have "1 \<le> length pm" "1 \<le> length pn" using pm(1) pn(1) by (simp_all add: Suc_le_eq)
  ultimately have len: "37 \<le> length (multi_script m keys)" using n(1) by (simp add: multi_script_def pm_def pn_def n_def)
  have "hd (multi_script m keys) = hd pm" using pm(1) by (simp add: multi_script_def flip: pm_def)
  then have head: "\<not> (length (multi_script m keys) < 37 \<or> hd (multi_script m keys) > 0x60 \<or>
      hd (multi_script m keys) < 0x51 \<and> hd (multi_script m keys) \<noteq> 1 \<and> hd (multi_script m keys) \<noteq> 2)"
    using pm(2) len by auto
  have "count_keys (concat (map (\<lambda>k. 33 # k) keys) @ pn @ [OP_CHECKMULTISIG]) 0 = Some (Some (word_of_nat n, pn @ [OP_CHECKMULTISIG]))"
    using count_keys_concat [OF assms(1), of "pn @ [OP_CHECKMULTISIG]" 0] pn by (simp add: n_def)
  moreover have "key_number (multi_script m keys) = Some (int m, concat (map (\<lambda>k. 33 # k) keys) @ pn @ [OP_CHECKMULTISIG])"
    using key_number_Push [OF assms(2) n(3)] by (simp add: multi_script_def pn_def n_def)
  moreover have "key_number (pn @ [OP_CHECKMULTISIG]) = Some (int n, [OP_CHECKMULTISIG])"
    unfolding pn_def by (rule key_number_Push [OF n(1,2)])
  moreover have "sint (word_of_nat n :: u16) = int n" using n(2) by (simp add: signed_of_nat signed_take_bit_int_eq_self)
  ultimately have "IsMultiSigContract (multi_script m keys) = Some True"
    using head assms(2-4) n(3) by (simp add: IsMultiSigContract_def n_def)
  moreover have "\<not> IsStandard (multi_script m keys)" using len by (simp add: IsStandard_def)
  ultimately show ?thesis by (simp add: Contract_GetType_def)
qed

text \<open>C40. The contracts that the builders make are recognised as what they are.\<close>

theorem GetType_built:
  assumes "keys_ok pubkeys" and "1 \<le> m" and "m \<le> length pubkeys" and "length pubkeys \<le> 24"
  shows "do { code \<leftarrow> CreateSignatureRedeemScript (hd pubkeys); Contract_GetType code } = Some SignatureContract \<and>
    do { s \<leftarrow> CreateMultiSigRedeemScript (int m) pubkeys; code \<leftarrow> s; Contract_GetType code } = Some MultiSigContract"
proof
  have "hd pubkeys \<in> set pubkeys" using assms(2,3) by (cases pubkeys) auto
  then obtain k where "EncodePoint (hd pubkeys) True = Some k" "length k = 33" using assms(1) by (auto simp: keys_ok_def)
  then show "do { code \<leftarrow> CreateSignatureRedeemScript (hd pubkeys); Contract_GetType code } = Some SignatureContract"
    by (simp add: CreateSignatureRedeemScript_eq Contract_GetType_def IsStandard_def nth_append)
next
  obtain ps where c: "CreateMultiSigRedeemScript (int m) pubkeys = Some (Some (multi_script m (point_keys ps)))"
      and ps: "keys_ok ps" "length ps = length pubkeys"
    using CreateMultiSigRedeemScript_eq [OF assms] by metis
  have "Contract_GetType (multi_script m (point_keys ps)) = Some MultiSigContract"
    by (rule multi_script_type [OF length_keys [OF ps(1)] assms(2)]) (use assms(3,4) ps(2) in \<open>simp_all add: length_point_keys\<close>)
  then show "do { s \<leftarrow> CreateMultiSigRedeemScript (int m) pubkeys; code \<leftarrow> s; Contract_GetType code } = Some MultiSigContract"
    by (simp add: c)
qed

section \<open>Acceptance\<close>

lemma opCheckMultiSig_runs:
  assumes "en_eval e = map (Item \<circ> ByteArray) sigs @ Item xm # map (Item \<circ> ByteArray) keys @ [Item xn]"
    and "GetBigInteger xm = Some (int (length sigs))" and "GetBigInteger xn = Some (int (length keys))"
    and "1 \<le> length sigs" and "length sigs \<le> length keys" and "length keys \<le> 24" and "0 \<le> en_opCount e" and "en_opCount e \<le> 1000"
    and "ve_maxSteps V = 1200"
  shows "opCheckMultiSig V e = do { (b, c) \<leftarrow> match_signatures V (rev sigs) (rev keys) 0;
    Some (NONE, None, e\<lparr>en_opCount := en_opCount e + int (length keys), en_eval := [Item (Boolean (b \<and> c = length sigs))]\<rparr>) }"
proof -
  define n m where "n = length keys" and "m = length sigs"
  define e1 where "e1 = e\<lparr>en_eval := map (Item \<circ> ByteArray) sigs @ Item xm # map (Item \<circ> ByteArray) keys\<rparr>"
  have p1: "pop_int64 e = Some (int n, e1)"
    using pop_int64_snoc [of e "map (Item \<circ> ByteArray) sigs @ Item xm # map (Item \<circ> ByteArray) keys" xn n] assms by (simp add: n_def e1_def)
  define e2 where "e2 = e1\<lparr>en_opCount := en_opCount e + int n\<rparr>"
  have cnt: "int64 (en_opCount e1 + int n) = en_opCount e + int n"
    using int64_small [of "en_opCount e1 + int n"] assms(6-8) by (simp add: e1_def n_def)
  have p2: "pop_many n e2 = Some (rev keys, e2\<lparr>en_eval := map (Item \<circ> ByteArray) sigs @ [Item xm]\<rparr>)"
    using pop_many_keys [of e2 "map (Item \<circ> ByteArray) sigs @ [Item xm]" keys] by (simp add: n_def e1_def e2_def)
  define e3 where "e3 = e2\<lparr>en_eval := map (Item \<circ> ByteArray) sigs\<rparr>"
  have p3: "pop_int64 (e2\<lparr>en_eval := map (Item \<circ> ByteArray) sigs @ [Item xm]\<rparr>) = Some (int m, e3)"
    using pop_int64_snoc [of "e2\<lparr>en_eval := map (Item \<circ> ByteArray) sigs @ [Item xm]\<rparr>" "map (Item \<circ> ByteArray) sigs" xm m] assms
    by (simp add: e3_def m_def)
  have p4: "pop_many m e3 = Some (rev sigs, e3\<lparr>en_eval := []\<rparr>)" using pop_many_keys [of e3 "[]" sigs] by (simp add: m_def e3_def)
  have g: "go_make 24 n = Some ()" using assms(6) by (simp add: go_make_def maxAlloc_def n_def)
  have c: "\<not> EvalCount e < 4" "\<not> EvalCount e1 < int64 (int n + 2)" "\<not> EvalCount e3 < int m"
  proof -
    have "1 \<le> m" "m \<le> n" "n \<le> 24" using assms(4-6) by (simp_all add: n_def m_def)
    moreover have "EvalCount e = int m + int n + 2" "EvalCount e1 = int m + int n + 1" "EvalCount e3 = int m"
      using assms(1) by (simp_all add: stack_Count_def e1_def e3_def n_def m_def)
    moreover from \<open>n \<le> 24\<close> have "int64 (int n + 2) = int n + 2" by (intro int64_small) simp_all
    ultimately show "\<not> EvalCount e < 4" "\<not> EvalCount e1 < int64 (int n + 2)" "\<not> EvalCount e3 < int m" by linarith+
  qed
  have r: "\<not> int n < 1" "\<not> int m < 1" "\<not> int n < int m" "\<not> 1200 < en_opCount e2"
    using assms(4-8) by (auto simp: n_def m_def e2_def Suc_le_eq)
  have "opCheckMultiSig V e = do { (b, c) \<leftarrow> match_signatures V (rev sigs) (rev keys) 0;
      push_result (DBool (b \<and> int c = int m)) (e3\<lparr>en_eval := []\<rparr>) }"
    unfolding opCheckMultiSig_def
    by (simp only: p1 c r Let_def cnt e2_def [symmetric] g p2 p3 p4 assms(9) bind.bind_lunit nat_int case_prod_conv if_False de_Morgan_disj
        disj_not1 simp_thms)
  moreover have "e3\<lparr>en_eval := []\<rparr> = e\<lparr>en_opCount := en_opCount e + int (length keys), en_eval := []\<rparr>"
    by (simp add: e3_def e2_def e1_def n_def)
  ultimately show ?thesis by (simp add: m_def push_elem_def stack_Push_def)
qed

lemma run_push_all:
  assumes "ec_rest (en_context e) = concat (map (\<lambda>d. PushData d []) ds) @ rest" and "list_all (\<lambda>d. 1 \<le> length d \<and> length d \<le> 75) ds"
    and "ve_maxSteps V < 2 ^ 62" and "0 \<le> en_opCount e"
  shows "\<exists>e'. run V e = run V e' \<and> pushed e (map ByteArray ds) rest e'"
  using assms(1,2,4)
proof (induction ds arbitrary: e)
  case Nil
  then show ?case by (intro exI [of _ e]) (simp add: pushed_def)
next
  case (Cons d ds)
  define more where "more = concat (map (\<lambda>d. PushData d []) ds) @ rest"
  have d: "1 \<le> length d" "length d \<le> 75" using Cons.prems(2) by simp_all
  then have "PushData d [] = word_of_nat (length d) # d" by (simp add: PushData_def)
  then have "ec_rest (en_context e) = word_of_nat (length d) # d @ more" using Cons.prems(1) by (simp add: more_def)
  from run_push_bytes [OF this d assms(3) Cons.prems(3)]
  obtain e1 where e1: "run V e = run V e1" "pushed e [ByteArray d] (concat (map (\<lambda>d. PushData d []) ds) @ rest) e1"
    unfolding more_def by blast
  then obtain e2 where "run V e1 = run V e2" "pushed e1 (map ByteArray ds) rest e2"
    using Cons.IH [of e1] Cons.prems by (auto simp: pushed_def)
  then show ?case using e1 pushed_trans [of e "[ByteArray d]"] by auto
qed

lemma run_multi_accepts:
  assumes "en_context e = NewExecutionContext (multi_script (length sigs) keys) False" and "list_all (\<lambda>k. length k = 33) keys"
    and "ve_maxSteps V = 1200" and "0 \<le> en_opCount e" and "en_opCount e \<le> 900" and "en_state e = NONE"
    and "1 \<le> length sigs" and "length sigs \<le> length keys" and "length keys \<le> 24"
    and "en_eval e = map (Item \<circ> ByteArray) sigs" and "match_signatures V (rev sigs) (rev keys) 0 = Some (b, c)"
  shows "\<exists>e2. run V e = Some e2 \<and> en_state e2 = NONE \<and> en_inv e2 = en_inv e \<and> en_eval e2 = [Item (Boolean (b \<and> c = length sigs))]"
proof -
  have lim: "ve_maxSteps V < 2 ^ 62" by (simp add: assms(3))
  obtain e3 xm where e3: "run V e = run V e3" "GetBigInteger xm = Some (int (length sigs))"
      "pushed e [xm] (concat (map (\<lambda>k. 33 # k) keys) @ PushNumber (int (length keys)) [] @ [OP_CHECKMULTISIG]) e3"
    using run_push_number [OF _ assms(7) _ lim assms(4)] assms(1,8,9) by (fastforce simp: NewExecutionContext_def multi_script_def)
  obtain e4 where e4: "run V e3 = run V e4" "pushed e3 (map ByteArray keys) (PushNumber (int (length keys)) [] @ [OP_CHECKMULTISIG]) e4"
    using run_push_keys [of e3 keys "PushNumber (int (length keys)) [] @ [OP_CHECKMULTISIG]", OF _ assms(2) lim] e3(3) assms(4)
    by (auto simp: pushed_def)
  obtain e5 xn where e5: "run V e4 = run V e5" "GetBigInteger xn = Some (int (length keys))" "pushed e4 [xn] [OP_CHECKMULTISIG] e5"
    using run_push_number [of e4 "length keys" "[OP_CHECKMULTISIG]" V] e4(2) e3(3) assms(4,7-9) lim by (auto simp: pushed_def)
  define e6 where "e6 = e5\<lparr>en_context := (en_context e5)\<lparr>ec_rest := []\<rparr>, en_opCount := en_opCount e5 + 1\<rparr>"
  define e6' where "e6' = e6\<lparr>en_opCode := OP_CHECKMULTISIG\<rparr>"
  have c: "ec_rest (en_context e5) = OP_CHECKMULTISIG # []" "0 \<le> en_opCount e5" "\<not> ec_PushOnly (en_context e6)"
      "ec_rest (en_context e6') = []" "en_inv e6' = en_inv e" "en_state e6' = NONE" "0 \<le> en_opCount e6'" "en_opCount e6' \<le> 1000" "en_opCount e6 \<le> 1000"
      "en_eval e6' = map (Item \<circ> ByteArray) sigs @ Item xm # map (Item \<circ> ByteArray) keys @ [Item xn]"
    using e3(3) e4(2) e5(3) assms(1,4-6,9,10) by (auto simp: pushed_def e6_def e6'_def NewExecutionContext_def)
  define e7 where "e7 = e6'\<lparr>en_opCount := en_opCount e6' + int (length keys), en_eval := [Item (Boolean (b \<and> c = length sigs))]\<rparr>"
  have "opCheckMultiSig V e6' = Some (NONE, None, e7)"
    using opCheckMultiSig_runs [OF c(10) e3(2) e5(2) assms(7-9) c(7,8) assms(3)] assms(11) by (simp add: e7_def)
  moreover have op: "OpExecList V OP_CHECKMULTISIG = Some (opCheckMultiSig V)" by (simp add: OpExecList_def op_table_def)
  ultimately have "ExecuteOp V OP_CHECKMULTISIG e6 = Some (NONE, None, e7)"
    using c(3,9) by (simp add: ExecuteOp_def Let_def assms(3) flip: e6'_def)
  then have "run V e5 = run V e7" using run_op [OF c(1) e6_def lim c(2)] by simp
  then show ?thesis using e3(1) e4(1) e5(1) c(4-6) by (intro exI [of _ e7]) (simp add: e7_def)
qed

lemma check_multi_program:
  assumes "keys_ok ps" and "1 \<le> length sigs" and "length sigs \<le> length ps" and "length ps \<le> 24"
    and "list_all (\<lambda>s. 1 \<le> length s \<and> length s \<le> 75) sigs" and "ve_maxSteps V = 1200"
    and "match_signatures V (rev sigs) (rev (point_keys ps)) 0 = Some (b, c)"
    and "p = \<lparr>pg_Code = multi_script (length sigs) (point_keys ps), pg_Parameter = concat (map (\<lambda>s. PushData s []) sigs)\<rparr>"
  shows "check_program V p = Some (if b \<and> c = length sigs then None else Some (Detail '''' (ErrNew ''[VM] Check Sig FALSE.'')))"
proof -
  have lim: "ve_maxSteps V < 2 ^ 62" by (simp add: assms(6))
  define e0 where "e0 = start (pg_Code p) (pg_Parameter p)"
  have "ec_rest (en_context e0) = concat (map (\<lambda>s. PushData s []) sigs) @ []" "0 \<le> en_opCount e0"
    by (simp_all add: e0_def start_def NewExecutionContext_def NewExecutionEngine_def assms(8))
  then obtain e1 where e1: "run V e0 = run V e1" "pushed e0 (map ByteArray sigs) [] e1"
    using run_push_all [OF _ assms(5) lim] by blast
  have r1: "run V e0 = Some e1" using e1 by (simp add: pushed_def)
  have s: "en_state e1 = NONE" "en_inv e1 = [NewExecutionContext (pg_Code p) False]" "en_opCount e1 = int (length sigs)"
      "en_eval e1 = map (Item \<circ> ByteArray) sigs"
    using e1(2) by (simp_all add: pushed_def e0_def start_simps)
  define e where "e = e1\<lparr>en_inv := [], en_context := NewExecutionContext (pg_Code p) False\<rparr>"
  obtain e2 where "run V e = Some e2" "en_state e2 = NONE" "en_inv e2 = []" "en_eval e2 = [Item (Boolean (b \<and> c = length sigs))]"
    using run_multi_accepts [of e sigs "point_keys ps" V b c] assms s length_keys [OF assms(1)] by (auto simp: e_def length_point_keys)
  then show ?thesis using check_program_runs [OF r1[unfolded e0_def] s(1,2), of e2 "Boolean (b \<and> c = length sigs)" "b \<and> c = length sigs"]
    by (simp add: e_def)
qed

text \<open>An example with one key and one signature.\<close>

definition sample_point :: PubKey where
  "sample_point = \<lparr>pk_X = Some 0, pk_Y = Some (2 ^ 255 + 94)\<rparr>"

definition sample_multi :: SignableData where
  "sample_multi =
     \<lparr>sd_hashes = Some (Inr [fst (ToCodeHash zero_ripemd (multi_script 1 [sample_key_bytes]))]),
      sd_programs = [\<lparr>pg_Code = multi_script 1 [sample_key_bytes], pg_Parameter = PushData sample_sig []\<rparr>],
      sd_message = Some [1, 2, 3]\<rparr>"

lemma sample_point_key: "EncodePoint sample_point True = Some sample_key_bytes"
proof -
  have "right_aligned 33 0 = Some (replicate 33 0)" by (simp add: right_aligned_def big_Bytes_def)
  then show ?thesis by (simp add: sample_point_def sample_key_bytes_def EncodePoint_def isEven_def)
qed

lemma sample_points: "keys_ok [sample_point]" "point_keys [sample_point] = [sample_key_bytes]"
  "CreateMultiSigRedeemScript (int 1) [sample_point] = Some (Some (multi_script 1 [sample_key_bytes]))"
proof -
  show ok: "keys_ok [sample_point]" using sample_point_key sample_parts(1) by (simp add: keys_ok_def sample_point_def)
  show k: "point_keys [sample_point] = [sample_key_bytes]" by (simp add: point_keys_def sample_point_key)
  obtain ps where "CreateMultiSigRedeemScript (int 1) [sample_point] = Some (Some (multi_script 1 (point_keys ps)))"
      "mset ps = mset [sample_point]" by (rule CreateMultiSigRedeemScript_eq [OF ok, of 1]) simp_all
  moreover from this(2) have "ps = [sample_point]" by simp
  ultimately show "CreateMultiSigRedeemScript (int 1) [sample_point] = Some (Some (multi_script 1 [sample_key_bytes]))"
    by (simp only: k)
qed

lemma sample_multi_accepted: "VerifySignableData zero_ripemd one_sig_alg inplace sample_multi = Some (True, None)"
proof -
  define V where "V = check_env one_sig_alg inplace sample_multi"
  have "crypto_Verify one_sig_alg \<lparr>pk_X = Some 0, pk_Y = Some (2 ^ 255 + 94)\<rparr> [1, 2, 3] sample_sig = Some None"
    using crypto_sign_verifies [OF sample_parts(3,6)] by simp
  then have "ECDsa_VerifySignature one_sig_alg [1, 2, 3] sample_sig sample_key_bytes = Some (True, None)"
    using sample_parts(2) by (simp add: ECDsa_VerifySignature_def)
  then have m: "match_signatures V (rev [sample_sig]) (rev (point_keys [sample_point])) 0 = Some (True, 1)"
    by (simp add: sample_points(2) V_def sample_multi_def)
  have "check_program V (hd (sd_programs sample_multi)) =
      Some (if True \<and> 1 = length [sample_sig] then None else Some (Detail '''' (ErrNew ''[VM] Check Sig FALSE.'')))"
    by (rule check_multi_program [OF sample_points(1) _ _ _ _ _ m])
       (use sample_parts(5) in \<open>simp_all add: V_def sample_multi_def sample_points(2)\<close>)
  then show ?thesis by (simp add: VerifySignableData_def V_def) (simp add: sample_multi_def)
qed

theorem VerifySignableData_multisig_witness:
  "VerifySignableData zero_ripemd one_sig_alg (\<lambda>op st alt. None) sample_multi = Some (True, None) \<and>
   (\<exists>message xs ks. sd_message sample_multi = Some message \<and>
     parameter_stack (check_env one_sig_alg (\<lambda>op st alt. None) sample_multi) (hd (sd_programs sample_multi)) = Some (map Item xs) \<and>
     length xs = 1 \<and> mset ks \<subseteq># mset (point_keys [sample_point]) \<and>
     list_all2 (\<lambda>x k. ECDsa_VerifySignature one_sig_alg message (GetByteArray x) k = Some (True, None)) xs ks)"
  using sample_multi_accepted [of "\<lambda>op st alt. None"]
    VerifySignableData_multisig [OF sample_multi_accepted [of "\<lambda>op st alt. None"], of "hd (sd_programs sample_multi)" 1 "[sample_point]"]
    sample_points unfolding sample_multi_def by simp

theorem GetType_built_witness:
  "do { code \<leftarrow> CreateSignatureRedeemScript (hd [sample_point]); Contract_GetType code } = Some SignatureContract \<and>
   do { s \<leftarrow> CreateMultiSigRedeemScript (int 1) [sample_point]; code \<leftarrow> s; Contract_GetType code } = Some MultiSigContract"
  by (rule GetType_built [OF sample_points(1)]) simp_all

end
