(* ===== verification/Spec2Isabelle.thy ===== *)
theory Spec2Isabelle
  imports Orphan_Pool Chain_Example Multi_Check
begin

text \<open>
  A verification of a proof-of-work block chain node written in Go (\<^verbatim>\<open>src/\<close>). The program keeps a
  ledger of assets in unspent transaction outputs. Blocks arrive from peers or from the miner, are
  checked, put into a tree of block nodes in memory, and the chain with the most work is written to
  a key-value store. Who may spend an output is decided by running two scripts on a small stack
  machine.

  \<^bold>\<open>Conventions.\<close> A Go panic is \<open>None\<close> of type \<open>'a go\<close>; an error result is a \<open>goerr option\<close> or the left side
  of a sum; machine integers are words where they can wrap; slices are lists; Go maps are
  association lists or functions; shared nodes live in a heap of addresses. A deserializer is a
  function on a reader (\<open>rdr\<close>) that may fail with an error or panic. Third-party code (goleveldb,
  base58, RIPEMD-160, ECDSA verification) is an argument of the definitions that use it, with what is
  assumed of it stated as a named hypothesis (\<open>leveldb_ok\<close>), and an instance for the witnesses
  (\<open>map_db\<close>).

  \<^bold>\<open>Theories and the code they model.\<close>
  \<^item> \<open>Go_Errors\<close>, \<open>Go_Prelude\<close>, \<open>Go_Sha256\<close>: \<^verbatim>\<open>errors/\<close>, machine integers, byte orders, readers and the locales
    \<open>codec\<close> and \<open>fixed_codec\<close>, and SHA-256 with its constants.
  \<^item> \<open>Serialization\<close>, \<open>Common_Types\<close>, \<open>Fixed_Amounts\<close>: \<^verbatim>\<open>common/\<close>: variable-length integers and byte strings,
    hashes, addresses and decimal amounts; each codec is an interpretation of \<open>codec\<close>.
  \<^item> \<open>Transaction_Model\<close>, \<open>Transaction_Ops\<close>: \<^verbatim>\<open>core/transaction\<close>, payloads, assets and programs: wire formats,
    hashing, references, balances, program hashes.
  \<^item> \<open>Merkle\<close>, \<open>AuxPow\<close>, \<open>Block_Model\<close>, \<open>Difficulty\<close>, \<open>Median_Time\<close>: \<^verbatim>\<open>crypto/merkleTree.go\<close>, \<^verbatim>\<open>core/auxpow\<close>, blocks
    and headers, compact targets and retargeting, the network clock.
  \<^item> \<open>Tx_Validator\<close>, \<open>Block_Validator\<close>: \<^verbatim>\<open>core/ledger/txValidator.go\<close> and \<^verbatim>\<open>blockValidator.go\<close>, over a record
    \<open>ledger_env\<close> of what they ask of the ledger.
  \<^item> \<open>Chain_Store\<close>, \<open>Unspent_Index\<close>, \<open>Store_Refine\<close>, \<open>Store_Persist\<close>, \<open>Store_Rollback\<close>: \<^verbatim>\<open>core/store\<close>. The record
    \<open>ChainStore\<close> is the state; \<open>SaveBlock\<close> and \<open>RollbackBlock\<close> are the handlers of the store's requests. \<open>represents\<close>
    relates the database to an abstract ledger (\<open>ledger_abs\<close>: transactions by hash, unspent outpoints).
  \<^item> \<open>Block_Index\<close>, \<open>Blockchain\<close>, \<open>Orphan_Pool\<close>, \<open>Chain_Select\<close>, \<open>Chain_Ledger\<close>, \<open>Chain_Example\<close>: \<^verbatim>\<open>core/ledger/blockchain.go\<close>. The
    record \<open>Blockchain\<close> is the state, \<open>bc_nodes\<close> the heap of nodes. The locale \<open>ledger_laws\<close> is the contract of the
    store; its interpretation \<open>kept\<close> is the chain store.
  \<^item> \<open>Vm_Model\<close>, \<open>Vm_Exec\<close>: \<^verbatim>\<open>vm/\<close>: stack items, the random access stack, the opcode handlers and the execution
    engine. The five handlers that compute in place on shared integers or slices are an argument, any function on both stacks.
  \<^item> \<open>Crypto_Points\<close>: \<^verbatim>\<open>crypto/encode.go\<close> and \<^verbatim>\<open>crypto.go\<close>: encodings of public keys, with both ways to find
    a square root; the random primes of the second one are an argument.
  \<^item> \<open>Crypto_Sm3\<close>, \<open>Crypto_Sign\<close>: \<^verbatim>\<open>crypto/sm3\<close>, \<^verbatim>\<open>crypto/sm2\<close>, \<^verbatim>\<open>crypto/p256r1\<close> and \<^verbatim>\<open>crypto/crypto.go\<close>: the SM3 digest, SM2
    over the operations of a curve, signing and verifying. The curve, Go's ECDSA and the random streams are an argument.
  \<^item> \<open>Contract_Model\<close>: \<^verbatim>\<open>core/contract\<close>: the script builder, contracts and signature contexts.
  \<^item> \<open>Signature_Check\<close>, \<open>Multi_Check\<close>: \<^verbatim>\<open>vm/ECDsaCrypto.go\<close> and \<^verbatim>\<open>core/validation\<close>: programs run on the virtual machine.
  \<^bold>\<open>What is shown.\<close>
  \<^item> Round trips of the wire and storage formats, except for deploy transactions, which cannot be read, and
    that hashed bytes determine what is hashed. Fields that are not written (\<open>wire_form\<close>) are not read back.
  \<^item> Accepted transactions and blocks satisfy the rules that the checks are there for; merkle roots
    and merged-mining proofs bind their contents or give a hash collision.
  \<^item> Compact targets, retargeting, median times and the network clock stay within their bounds.
  \<^item> The store refines the abstract ledger: saving applies a block to both unspent indices, rolling
    back undoes it, and lookups answer as the ledger has it.
  \<^item> Memory and store stay in step through extensions, side blocks and reorganisations, also those that
    fail, for blocks whose transactions spend distinct outputs (\<open>store_extends\<close>); the best chain changes only for more work; the orphan pool keeps its two indices consistent.
  \<^item> Every run of the script engine ends, whatever the scripts do; compressed public keys are points of
    the curve with one encoding.
  \<^item> The SM3 digest computes the hash of the whole message however it is fed; signatures that are made verify.
  \<^item> A multi-signature program is accepted only if its parameter leaves the right number of valid signatures under
    different keys; a program for one key only if it leaves one valid signature or nothing, which is accepted;
    a signature made with the private key is accepted through context, builder and machine.
  \<^item> Where the code does not do what it means to, a theorem states what it does (overflowing sums,
    wrapped lock times, panics on received data).

  \<^bold>\<open>Fuel and bounds.\<close> Walks along parent pointers are \<open>partial_function (option)\<close>, so that a walk that does not
  end is \<open>None\<close>; the theorems assume a finite path where they need one. \<open>ProcessOrphans\<close> has fuel twice the number
  of orphans plus two, enough because each round removes an orphan (\<open>process_orphans_ends\<close>). \<open>maxAlloc\<close> is the
  largest allocation of the Go runtime on 64-bit systems.
  A script is run with as many turns as it has unread bytes (\<open>run_ops_fuel\<close>); \<open>Execute\<close> needs at most the number of
  loaded scripts plus the step limit (\<open>Execute_terminates\<close>).
  The check of signed data runs two scripts with at most 1200 steps, hence with fuel 1203. The signing loop of SM2
  may go on for ever and is an option; it ends at the first usable draw (\<open>sm2_Sign_loop_ends\<close>).
  \<^bold>\<open>Not modelled.\<close> Sockets, goroutines, timers and locks (operations are taken one at a time, as the locks
  serialise them), log output and events to listeners, reading configuration and wallet files, the HTTP
  and web-socket servers and the command line, which only pass values of the modelled functions on.
  Elliptic-curve arithmetic is an argument.
  The transaction pool, the miner, the messages between peers, the address book and the wallet are not part
  of the development.
\<close>

section \<open>The block chain on its store\<close>

text \<open>
  C1. Let the tree in memory have a main chain \<open>ds @ as\<close> and one side chain \<open>ns\<close>, in step with the chain that the
  store holds, and let a new block continue the side chain (or the main chain, if the side chain
  is empty). The blocks are well formed and no two transactions of a block have the same hash or spend
  the same output (\<open>store_extends\<close>). Whenever \<open>ConnectBestChain\<close> returns, memory and store are in step:
  on the old chain if the answer is false; on the new one, with the blocks of the old branch taken out of
  the store and those of the new branch saved, if it is true; and, with an error, on the new one up to
  some block before the one that could not be connected, with the old branch gone.
\<close>

theorem ConnectBestChain_in_step:
  assumes "forked (store_holds L view) store_extends bc ds as bs ns bls"
    and "node_parent bc n = Some (last (hd as # ns))" and "node_hash bc n = hash_of b"
    and "store_extends (rev bls @ drop (length ds) bs) b" and "\<not> bn_InMainChain (bc_nodes bc n)"
    and "node_hash bc n \<notin> node_hash bc ` set (ns @ ds @ as)"
    and "ConnectBestChain (chain_store L env) n b bc = Some (r, bc')"
  shows "case r of
      Inr True \<Rightarrow> synced (store_holds L view) bc' (n # rev ns @ as) (b # rev bls @ drop (length ds) bs)
    | Inr False \<Rightarrow> synced (store_holds L view) bc' (ds @ as) bs
    | Inl err \<Rightarrow> \<exists>k\<le>length ns. synced (store_holds L view) bc' (rev (take k ns) @ as) (rev (take k bls) @ drop (length ds) bs)"
  using kept.connect_best_ok [OF assms] unfolding chain_outcome_def .

theorem ConnectBestChain_in_step_witness:
  "\<exists>cs bc'. ConnectBestChain (chain_store map_db sample_env) 2 third_block (fork_chain cs) = Some (Inr True, bc') \<and>
     synced (store_holds map_db (\<lambda>d. d)) (fork_chain cs) [1, 0] [second_block, first_block] \<and>
     synced (store_holds map_db (\<lambda>d. d)) bc' [2, 0] [third_block, first_block]"
proof -
  obtain cs where cs: "store_holds map_db (\<lambda>d. d) cs [second_block, first_block]" using second_stored by blast
  note f = fork_forked [OF cs] and n = fork_chain_nodes [of cs] fork_hashes
  have old: "synced (store_holds map_db (\<lambda>d. d)) (fork_chain cs) [1, 0] [second_block, first_block]"
    using f by (simp add: forked_def)
  obtain bc' where bc': "ConnectBestChain (chain_store map_db sample_env) 2 third_block (fork_chain cs) = Some (Inr True, bc')"
    using kept.fork_live [OF f, of 2 third_block third_data sample_env] third_checks third_extends n by (auto simp: third_block_def)
  have "synced (store_holds map_db (\<lambda>d. d)) bc' [2, 0] [third_block, first_block]"
    using ConnectBestChain_in_step [OF f _ _ _ _ _ bc'] third_extends n by simp
  then show ?thesis using bc' old by blast
qed

text \<open>
  C2. A block that continues the main chain, passes the checks of its transactions against the store and
  names the end of the chain as its predecessor is connected, and memory and store are in step with it,
  provided it is well formed, one higher than the chain, and no two of its transactions have the same
  hash or spend the same output (\<open>store_extends\<close>).
\<close>

theorem ConnectBestChain_extends:
  assumes "synced (store_holds L view) bc as bs" and "store_extends bs b"
    and "check_context (ls_env (chain_store L env) (bc_store bc)) (bk_Transactions b) = Some True"
    and "bk_Blockdata b = Some bd" and "bd_PrevBlockHash bd = node_hash bc (hd as)"
    and "node_parent bc n = Some (hd as)" and "node_hash bc n = hash_of b"
  shows "\<exists>bc'. ConnectBestChain (chain_store L env) n b bc = Some (Inr True, bc') \<and>
    synced (store_holds L view) bc' (n # as) (b # bs)"
  by (rule kept.extend_live [OF assms])

theorem ConnectBestChain_extends_witness:
  "\<exists>cs bc'. ConnectBestChain (chain_store map_db sample_env) 1 second_block (first_chain cs) = Some (Inr True, bc') \<and>
     synced (store_holds map_db (\<lambda>d. d)) bc' [1, 0] [second_block, first_block]"
proof -
  obtain cs where cs: "store_holds map_db (\<lambda>d. d) cs [first_block]" using first_stored by blast
  then show ?thesis
    using ConnectBestChain_extends [OF first_synced [OF cs] example_extends(2), of sample_env second_data 1]
      second_checks [OF cs] first_chain_nodes [of cs] by (auto simp: second_block_def)
qed

end
